(* ===== verification/Prelude.thy ===== *)
theory Prelude
  imports Main "HOL-Library.Word" "HOL-Library.AList" "HOL-Library.Multiset"
begin

text \<open>
  Shared vocabulary of the development: Rust's machine integers as words, results that may
  panic, saturating arithmetic, hash maps, durations, and the loops over vectors that several
  components of scaphandre repeat. The collections \<open>rust_defs\<close> (definitions that unfold a
  Rust library call) and \<open>panic_simps\<close> (propagation of a panic) carry the component proofs.
\<close>

named_theorems rust_defs
named_theorems panic_simps

type_synonym u8 = "8 word"
type_synonym u16 = "16 word"
type_synonym u32 = "32 word"
type_synonym u64 = "64 word"
type_synonym usize = nat

section \<open>Panics\<close>

text \<open>
  A call that can panic returns \<open>Inl\<close> of the reason; \<open>Inr\<close> is the value of a call that
  returns. Arithmetic follows the release profile of the workspace, which leaves overflow
  checks off: \<open>+\<close>, \<open>-\<close> and \<open>*\<close> on words wrap.
\<close>

datatype panic =
    Unwrap_None
  | Unwrap_Err
  | Index_Out_Of_Bounds
  | Expect_Failed string
  | Explicit_Panic string

type_synonym 'a res = "panic + 'a"

definition bind_res :: "'a res \<Rightarrow> ('a \<Rightarrow> 'b res) \<Rightarrow> 'b res" where
  "bind_res m f = (case m of Inl p \<Rightarrow> Inl p | Inr x \<Rightarrow> f x)"

definition map_res :: "('a \<Rightarrow> 'b) \<Rightarrow> 'a res \<Rightarrow> 'b res" where
  "map_res f m = bind_res m (\<lambda>x. Inr (f x))"

definition unwrap_opt :: "'a option \<Rightarrow> 'a res" where
  "unwrap_opt m = (case m of None \<Rightarrow> Inl Unwrap_None | Some x \<Rightarrow> Inr x)"

definition index_vec :: "'a list \<Rightarrow> nat \<Rightarrow> 'a res" where
  "index_vec xs i = (if i < length xs then Inr (xs ! i) else Inl Index_Out_Of_Bounds)"

definition get_vec :: "'a list \<Rightarrow> nat \<Rightarrow> 'a option" where
  "get_vec xs i = (if i < length xs then Some (xs ! i) else None)"

fun traverse_res :: "('a \<Rightarrow> 'b res) \<Rightarrow> 'a list \<Rightarrow> 'b list res" where
  "traverse_res f [] = Inr []"
| "traverse_res f (x # xs) =
     bind_res (f x) (\<lambda>y. bind_res (traverse_res f xs) (\<lambda>ys. Inr (y # ys)))"

fun fold_res :: "('a \<Rightarrow> 's \<Rightarrow> 's res) \<Rightarrow> 'a list \<Rightarrow> 's \<Rightarrow> 's res" where
  "fold_res f [] s = Inr s"
| "fold_res f (x # xs) s = bind_res (f x s) (fold_res f xs)"

lemma bind_res_simps [simp, panic_simps]:
  "bind_res (Inl p) f = Inl p"
  "bind_res (Inr x) f = f x"
  by (simp_all add: bind_res_def)

lemma bind_res_eq_Inr [panic_simps]:
  "bind_res m f = Inr y \<longleftrightarrow> (\<exists>x. m = Inr x \<and> f x = Inr y)"
  by (cases m) auto

lemma bind_res_assoc: "bind_res (bind_res m f) g = bind_res m (\<lambda>x. bind_res (f x) g)"
  by (cases m) auto

lemma map_res_simps [simp, panic_simps]:
  "map_res f (Inl p) = Inl p"
  "map_res f (Inr x) = Inr (f x)"
  by (simp_all add: map_res_def)

lemma unwrap_opt_simps [simp, panic_simps]:
  "unwrap_opt None = Inl Unwrap_None"
  "unwrap_opt (Some x) = Inr x"
  by (simp_all add: unwrap_opt_def)

lemma index_vec_Inr [simp, panic_simps]:
  "index_vec xs i = Inr x \<longleftrightarrow> i < length xs \<and> x = xs ! i"
  by (auto simp: index_vec_def)

lemma traverse_res_Inr_iff:
  "traverse_res f xs = Inr ys \<longleftrightarrow> list_all2 (\<lambda>x y. f x = Inr y) xs ys"
proof (induction xs arbitrary: ys)
  case Nil
  then show ?case by (cases ys) auto
next
  case (Cons x xs)
  then show ?case by (cases ys) (auto simp: bind_res_eq_Inr)
qed

lemma traverse_res_total:
  assumes "\<And>x. x \<in> set xs \<Longrightarrow> f x = Inr (g x)"
  shows "traverse_res f xs = Inr (map g xs)"
  using assms by (induction xs) auto

lemma traverse_res_length: "traverse_res f xs = Inr ys \<Longrightarrow> length ys = length xs"
  by (auto simp: traverse_res_Inr_iff dest: list_all2_lengthD)

lemma traverse_res_all:
  assumes "traverse_res f xs = Inr ys" "\<And>x y. P x \<Longrightarrow> f x = Inr y \<Longrightarrow> P y \<and> g y = g x" "list_all P xs"
  shows "list_all P ys \<and> map g ys = map g xs"
  using assms(1,3) unfolding traverse_res_Inr_iff
proof (induction rule: list_all2_induct)
  case (Cons x xs y ys)
  then show ?case using assms(2) [of x y] by simp
qed simp

lemma traverse_res_ball:
  assumes "traverse_res f xs = Inr ys" "\<And>x y. P x \<Longrightarrow> f x = Inr y \<Longrightarrow> P y" "list_all P xs"
  shows "list_all P ys"
  using traverse_res_all [OF assms(1), of P "\<lambda>_. ()"] assms(2,3) by simp

lemma traverse_res_map:
  assumes "traverse_res f xs = Inr ys" "\<And>x y. f x = Inr y \<Longrightarrow> g y = g x"
  shows "map g ys = map g xs"
  using traverse_res_all [OF assms(1), of "\<lambda>_. True" g] assms(2) by (simp add: list_all_iff)

lemma fold_res_total:
  assumes "\<And>x s. x \<in> set xs \<Longrightarrow> f x s = Inr (g x s)"
  shows "fold_res f xs s = Inr (fold g xs s)"
  using assms by (induction xs arbitrary: s) auto

lemma fold_res_invariant:
  assumes "fold_res f xs s = Inr s'" and "P s"
    and "\<And>x s s'. x \<in> set xs \<Longrightarrow> P s \<Longrightarrow> f x s = Inr s' \<Longrightarrow> P s'"
  shows "P s'"
  using assms
proof (induction xs arbitrary: s)
  case Nil
  then show ?case by simp
next
  case (Cons x xs)
  from Cons.prems(1) obtain t where t: "f x s = Inr t" "fold_res f xs t = Inr s'"
    by (auto simp: bind_res_eq_Inr)
  have "P t" using Cons.prems(2,3) t(1) by (meson list.set_intros(1))
  then show ?case using Cons.IH [OF t(2)] Cons.prems(3) by (meson list.set_intros(2))
qed

lemma traverse_res_ok:
  assumes "\<And>x. x \<in> set xs \<Longrightarrow> \<exists>y. f x = Inr y"
  shows "\<exists>ys. traverse_res f xs = Inr ys"
  using assms
proof (induction xs)
  case (Cons x xs)
  then obtain y ys where "f x = Inr y" "traverse_res f xs = Inr ys" by (metis list.set_intros)
  then show ?case by simp
qed simp

lemma fold_res_ok:
  assumes "\<And>x s. x \<in> set xs \<Longrightarrow> \<exists>s'. f x s = Inr s'"
  shows "\<exists>s'. fold_res f xs s = Inr s'"
  using assms
proof (induction xs arbitrary: s)
  case (Cons x xs)
  then obtain s1 where "f x s = Inr s1" by (meson list.set_intros(1))
  then show ?case using Cons by simp
qed simp

text \<open>A loop whose body succeeds on every element and keeps a predicate and a label.\<close>

lemma traverse_res_keeps:
  assumes "\<And>i x. P x \<Longrightarrow> \<exists>y. f (i, x) = Inr y \<and> P y \<and> g y = g x" "list_all P xs"
  shows "\<exists>ys. traverse_res f (enumerate n xs) = Inr ys \<and> list_all P ys \<and> map g ys = map g xs"
  using assms(2)
proof (induction xs arbitrary: n)
  case (Cons x xs)
  then obtain ys where "traverse_res f (enumerate (Suc n) xs) = Inr ys" "list_all P ys" "map g ys = map g xs"
    by auto
  moreover obtain y where "f (n, x) = Inr y" "P y" "g y = g x" using assms(1) [of x n] Cons.prems by auto
  ultimately show ?case by simp
qed simp

lemma fold_res_sum:
  assumes "\<And>x tot. x \<in> set xs \<Longrightarrow> 0 \<le> tot \<Longrightarrow> tot + g x < B \<Longrightarrow> f x tot = Inr (tot + g x)"
    and "\<And>x. x \<in> set xs \<Longrightarrow> 0 \<le> g x" "0 \<le> tot" "tot + sum_list (map g xs) < (B :: int)"
  shows "fold_res f xs tot = Inr (tot + sum_list (map g xs))"
  using assms
proof (induction xs arbitrary: tot)
  case (Cons x xs)
  have "0 \<le> sum_list (map g xs)" using Cons.prems(2) by (intro sum_list_nonneg) auto
  then show ?case using Cons by (simp add: add.assoc)
qed simp

lemma traverse_res_set: "traverse_res f xs = Inr ys \<Longrightarrow> y \<in> set ys \<Longrightarrow> \<exists>x \<in> set xs. f x = Inr y"
  by (induction xs arbitrary: ys) (auto simp: bind_res_eq_Inr)

text \<open>The entries of a numbered list.\<close>

lemma snd_enumerate: "x \<in> set (enumerate n xs) \<Longrightarrow> snd x \<in> set xs"
  by (metis enumerate_eq_zip in_set_zipE prod.collapse)

section \<open>Runs that go on\<close>

text \<open>
  A machine that takes one step per observation. \<open>allowed now later w\<close> says that \<open>w\<close> may be observed
  between two instants, \<open>inv now\<close> is what holds of the state at an instant. If no allowed step panics
  and every one keeps the invariant, then no run of allowed steps panics.
\<close>

fun allowed_run :: "('t \<Rightarrow> 't \<Rightarrow> 'w \<Rightarrow> bool) \<Rightarrow> 't \<Rightarrow> 'w list \<Rightarrow> 't \<Rightarrow> bool" where
  "allowed_run allowed now [] lt = (now = lt)"
| "allowed_run allowed now (w # ws) lt = (\<exists>m. allowed now m w \<and> allowed_run allowed m ws lt)"

locale steady =
  fixes inv :: "'t \<Rightarrow> 's \<Rightarrow> bool" and allowed :: "'t \<Rightarrow> 't \<Rightarrow> 'w \<Rightarrow> bool" and step :: "'w \<Rightarrow> 's \<Rightarrow> 's res"
  assumes step_ok: "inv now s \<Longrightarrow> allowed now lt w \<Longrightarrow> \<exists>s'. step w s = Inr s' \<and> inv lt s'"
begin

lemma run_ok:
  assumes "inv now s" "allowed_run allowed now ws lt"
  shows "\<exists>s'. fold_res step ws s = Inr s' \<and> inv lt s'"
  using assms
proof (induction ws arbitrary: s now)
  case (Cons w ws)
  then obtain m s' where "allowed_run allowed m ws lt" "step w s = Inr s'" "inv m s'" using step_ok by force
  then show ?case using Cons.IH by simp
qed simp

end

section \<open>Saturating arithmetic on u64\<close>

definition saturating_sub :: "u64 \<Rightarrow> u64 \<Rightarrow> u64" where
  "saturating_sub a b = (if a < b then 0 else a - b)"

definition u64_max :: u64 where
  "u64_max = 18446744073709551615"

definition saturating_add :: "u64 \<Rightarrow> u64 \<Rightarrow> u64" where
  "saturating_add a b = (if unat a + unat b < 2 ^ 64 then a + b else u64_max)"

lemma unat_u64_max [simp]: "unat u64_max = 2 ^ 64 - 1"
  by (simp add: u64_max_def)

lemma unat_lt_64: "unat (x :: u64) < 2 ^ 64"
  using unsigned_less [of x, where ?'a = nat] by simp

lemma unat_of_nat_64: "n < 2 ^ 64 \<Longrightarrow> unat (of_nat n :: u64) = n"
  by (simp add: unsigned_of_nat take_bit_nat_eq_self)

lemma unat_saturating_sub [simp]: "unat (saturating_sub a b) = unat a - unat b"
proof (cases "a < b")
  case True
  then have "unat a < unat b" by (simp add: word_less_nat_alt)
  with True show ?thesis by (simp add: saturating_sub_def)
next
  case False
  then have "b \<le> a" by simp
  with False show ?thesis by (simp add: saturating_sub_def unat_sub)
qed

lemma unat_saturating_add [simp]:
  "unat (saturating_add a b) = min (unat a + unat b) (2 ^ 64 - 1)"
proof (cases "unat a + unat b < 2 ^ 64")
  case True
  then show ?thesis by (simp add: saturating_add_def unat_word_ariths)
next
  case False
  then show ?thesis by (simp add: saturating_add_def)
qed

lemma saturating_sub_le: "saturating_sub a b \<le> a"
  by (simp add: word_le_nat_alt)

lemma saturating_sub_zero [simp]: "saturating_sub a 0 = a"
  by (simp add: saturating_sub_def)

lemma saturating_sub_self [simp]: "saturating_sub a a = 0"
  by (simp add: saturating_sub_def)

section \<open>Hash maps\<close>

text \<open>
  A hash map is the association list of its entries in the order an iteration visits them.
  That order is unspecified in Rust, so statements about an iterated map hold for every list
  with the same entries.
\<close>

type_synonym ('k, 'v) hmap = "('k \<times> 'v) list"

abbreviation hm_get :: "('k, 'v) hmap \<Rightarrow> 'k \<Rightarrow> 'v option" where
  "hm_get m k \<equiv> map_of m k"

abbreviation hm_insert :: "'k \<Rightarrow> 'v \<Rightarrow> ('k, 'v) hmap \<Rightarrow> ('k, 'v) hmap" where
  "hm_insert k v m \<equiv> AList.update k v m"

abbreviation hm_remove :: "'k \<Rightarrow> ('k, 'v) hmap \<Rightarrow> ('k, 'v) hmap" where
  "hm_remove k m \<equiv> AList.delete k m"

abbreviation hm_contains_key :: "('k, 'v) hmap \<Rightarrow> 'k \<Rightarrow> bool" where
  "hm_contains_key m k \<equiv> map_of m k \<noteq> None"

lemma hm_get_insert [simp]: "hm_get (hm_insert k v m) k' = (if k' = k then Some v else hm_get m k')"
  by (simp add: update_conv')

lemma hm_get_remove [simp]: "hm_get (hm_remove k m) k' = (if k' = k then None else hm_get m k')"
  by (simp add: delete_conv')

section \<open>Durations\<close>

text \<open>\<open>std::time::Duration\<close>: whole seconds and nanoseconds below one second.\<close>

datatype duration = Duration (as_secs: u64) (subsec_nanos: u32)

instantiation duration :: linorder
begin

definition less_eq_duration :: "duration \<Rightarrow> duration \<Rightarrow> bool" where
  "less_eq_duration a b \<longleftrightarrow>
     as_secs a < as_secs b \<or> as_secs a = as_secs b \<and> subsec_nanos a \<le> subsec_nanos b"

definition less_duration :: "duration \<Rightarrow> duration \<Rightarrow> bool" where
  "less_duration a b \<longleftrightarrow>
     as_secs a < as_secs b \<or> as_secs a = as_secs b \<and> subsec_nanos a < subsec_nanos b"

instance
proof
  fix x y z :: duration
  show "(x < y) = (x \<le> y \<and> \<not> y \<le> x)"
    by (auto simp: less_eq_duration_def less_duration_def)
  show "x \<le> x" by (simp add: less_eq_duration_def)
  show "x \<le> y \<Longrightarrow> y \<le> z \<Longrightarrow> x \<le> z" by (auto simp: less_eq_duration_def)
  show "x \<le> y \<Longrightarrow> y \<le> x \<Longrightarrow> x = y"
    by (auto simp: less_eq_duration_def intro: duration.expand)
  show "x \<le> y \<or> y \<le> x" by (auto simp: less_eq_duration_def)
qed

end

section \<open>Loops over vectors\<close>

text \<open>The loop \<open>for _ in 0..n { if !v.is_empty() { v.remove(0); } }\<close> and its variant with \<open>pop\<close>.\<close>

primrec remove_front_n :: "nat \<Rightarrow> 'a list \<Rightarrow> 'a list" where
  "remove_front_n 0 v = v"
| "remove_front_n (Suc n) v = remove_front_n n (if v = [] then v else tl v)"

primrec pop_back_n :: "nat \<Rightarrow> 'a list \<Rightarrow> 'a list" where
  "pop_back_n 0 v = v"
| "pop_back_n (Suc n) v = pop_back_n n (if v = [] then v else butlast v)"

lemma remove_front_n_drop [simp]: "remove_front_n n v = drop n v"
  by (induction n arbitrary: v) (auto simp: drop_Suc)

lemma pop_back_n_take [simp]: "pop_back_n n v = take (length v - n) v"
proof (induction n arbitrary: v)
  case 0
  then show ?case by simp
next
  case (Suc n)
  then show ?case by (cases v rule: rev_cases) (auto simp: butlast_conv_take)
qed

text \<open>The last element of a vector and the one before it, \<open>v.get(v.len() - 2)\<close>.\<close>

definition last_two :: "'a list \<Rightarrow> ('a \<times> 'a) option" where
  "last_two v = (if length v > 1 then Some (v ! (length v - 2), last v) else None)"

lemma last_two_append2 [simp]: "last_two (v @ [a, b]) = Some (a, b)"
  by (simp add: last_two_def nth_append)

lemma last_two_push: "v \<noteq> [] \<Longrightarrow> last_two (v @ [b]) = Some (last v, b)"
  by (cases v rule: rev_cases) auto

lemma last_two_short: "length v \<le> 1 \<Longrightarrow> last_two v = None"
  by (simp add: last_two_def)

lemma last_two_drop: "n + 1 < length v \<Longrightarrow> last_two (drop n v) = last_two v"
  by (auto simp: last_two_def)

lemma last_two_Some_iff: "last_two v = Some (a, b) \<longleftrightarrow> (\<exists>u. v = u @ [a, b])"
proof
  assume h: "last_two v = Some (a, b)"
  then have "1 < length v" by (auto simp: last_two_def split: if_splits)
  then obtain w y where w: "v = w @ [y]" "w \<noteq> []" by (cases v rule: rev_cases) auto
  then obtain u x where v: "v = u @ [x, y]" by (cases w rule: rev_cases) auto
  with h have "x = a" "y = b" by auto
  with v show "\<exists>u. v = u @ [a, b]" by blast
next
  assume "\<exists>u. v = u @ [a, b]"
  then show "last_two v = Some (a, b)" by auto
qed

text \<open>\<open>sort_by_key\<close> is a stable sort.\<close>

text \<open>
  \<open>sort_by\<close> is a stable sort by a comparison; \<open>le a b\<close> says that the comparison does not put
  \<open>a\<close> after \<open>b\<close>.
\<close>

fun insert_by :: "('a \<Rightarrow> 'a \<Rightarrow> bool) \<Rightarrow> 'a \<Rightarrow> 'a list \<Rightarrow> 'a list" where
  "insert_by le x [] = [x]"
| "insert_by le x (y # ys) = (if le x y then x # y # ys else y # insert_by le x ys)"

definition sort_by :: "('a \<Rightarrow> 'a \<Rightarrow> bool) \<Rightarrow> 'a list \<Rightarrow> 'a list" where
  "sort_by le xs = foldr (insert_by le) xs []"

lemma sort_by_simps [simp]:
  "sort_by le [] = []"
  "sort_by le (x # xs) = insert_by le x (sort_by le xs)"
  by (simp_all add: sort_by_def)

lemma mset_insert_by [simp]: "mset (insert_by le x xs) = add_mset x (mset xs)"
  by (induction xs) auto

lemma mset_sort_by [simp]: "mset (sort_by le xs) = mset xs"
  by (induction xs) auto

lemma set_sort_by [simp]: "set (sort_by le xs) = set xs"
  by (metis mset_sort_by set_mset_mset)

lemma length_sort_by [simp]: "length (sort_by le xs) = length xs"
  by (metis mset_sort_by size_mset)

lemma sorted_insert_by:
  assumes "transp le" "\<And>a b. le a b \<or> le b a" "sorted_wrt le xs"
  shows "sorted_wrt le (insert_by le x xs)"
  using assms(3)
proof (induction xs)
  case (Cons y ys)
  show ?case
  proof (cases "le x y")
    case True
    then show ?thesis using Cons.prems assms(1) by (auto dest: transpD)
  next
    case False
    then have "le y x" using assms(2) by blast
    moreover have "set (insert_by le x ys) = insert x (set ys)"
      by (metis mset_insert_by set_mset_add_mset_insert set_mset_mset)
    ultimately show ?thesis using Cons False by auto
  qed
qed simp

lemma sorted_sort_by:
  assumes "transp le" "\<And>a b. le a b \<or> le b a"
  shows "sorted_wrt le (sort_by le xs)"
  using assms by (induction xs) (simp_all add: sorted_insert_by)

lemma sort_by_sorted: "sorted_wrt le xs \<Longrightarrow> sort_by le xs = xs"
proof (induction xs)
  case (Cons x xs)
  then show ?case by (cases xs) auto
qed simp

abbreviation sort_by_key :: "('a \<Rightarrow> 'k::linorder) \<Rightarrow> 'a list \<Rightarrow> 'a list" where
  "sort_by_key f xs \<equiv> sort_key f xs"

end
