(* ===== verification/Rust_Float.thy ===== *)
theory Rust_Float
  imports Prelude Complex_Main
begin

text \<open>
  Rust's \<open>f32\<close> and \<open>f64\<close>: IEEE 754 binary formats with round-to-nearest-even, over exact
  rationals. A finite value carries its sign bit (so that \<open>-0.0\<close> exists) and its value; every
  operation computes the exact result and rounds it once. The section on rounding shows that
  \<open>rnd\<close> returns a nearest representable number, from which monotonicity and exactness on
  representable numbers follow.
\<close>

section \<open>Formats and rounding\<close>

record float_format =
  prec :: nat
  emin :: int
  emax :: int

definition f64_format :: float_format where
  "f64_format = \<lparr>prec = 53, emin = - 1074, emax = 1024\<rparr>"

definition f32_format :: float_format where
  "f32_format = \<lparr>prec = 24, emin = - 149, emax = 128\<rparr>"

lemma format_simps [simp]:
  "prec f64_format = 53" "emin f64_format = - 1074" "emax f64_format = 1024"
  "prec f32_format = 24" "emin f32_format = - 149" "emax f32_format = 128"
  by (simp_all add: f64_format_def f32_format_def)

fun nlog2 :: "nat \<Rightarrow> nat" where
  "nlog2 n = (if n < 2 then 0 else Suc (nlog2 (n div 2)))"

declare nlog2.simps [simp del]

definition ilog2 :: "rat \<Rightarrow> int" where
  "ilog2 x =
     (if 1 \<le> x then int (nlog2 (nat \<lfloor>x\<rfloor>)) else - int (nlog2 (nat (\<lceil>1 / x\<rceil> - 1))) - 1)"

definition rne :: "rat \<Rightarrow> int" where
  "rne x =
     (let f = \<lfloor>x\<rfloor>; d = x - of_int f
      in if d < 1 / 2 then f else if d > 1 / 2 then f + 1 else if even f then f else f + 1)"

definition ulp_exp :: "float_format \<Rightarrow> rat \<Rightarrow> int" where
  "ulp_exp fmt x = max (emin fmt) (ilog2 \<bar>x\<bar> - int (prec fmt) + 1)"

definition rnd :: "float_format \<Rightarrow> rat \<Rightarrow> rat" where
  "rnd fmt x =
     (if x = 0 then 0
      else let u = 2 powi ulp_exp fmt x in of_int (rne (x / u)) * u)"

definition representable :: "float_format \<Rightarrow> rat \<Rightarrow> bool" where
  "representable fmt y \<longleftrightarrow>
     (\<exists>m e. y = of_int m * 2 powi e \<and> \<bar>m\<bar> \<le> 2 ^ prec fmt \<and> emin fmt \<le> e)"

lemma nlog2_bounds: "0 < n \<Longrightarrow> 2 ^ nlog2 n \<le> n \<and> n < 2 ^ Suc (nlog2 n)"
proof (induction n rule: nlog2.induct)
  case (1 n)
  show ?case
  proof (cases "n < 2")
    case True
    with "1.prems" show ?thesis by (simp add: nlog2.simps [of n])
  next
    case False
    then have "2 ^ nlog2 (n div 2) \<le> n div 2" "n div 2 < 2 ^ Suc (nlog2 (n div 2))"
      using "1.IH" by auto
    with False show ?thesis by (auto simp: nlog2.simps [of n])
  qed
qed

lemma two_powi_pos [simp]: "0 < (2 :: rat) powi e"
  by (simp add: zero_less_power_int)

lemma two_powi_nat [simp]: "(2 :: rat) powi (int n) = 2 ^ n"
  by simp

lemma two_powi_add: "(2 :: rat) powi (a + b) = 2 powi a * 2 powi b"
  by (simp add: power_int_add)

lemma two_powi_mono: "a \<le> b \<Longrightarrow> (2 :: rat) powi a \<le> 2 powi b"
  by (rule power_int_increasing) auto

lemma nlog2_rat_bounds:
  assumes "1 \<le> (n :: int)"
  shows "(2 :: rat) ^ nlog2 (nat n) \<le> of_int n" and "of_int n + 1 \<le> (2 :: rat) ^ Suc (nlog2 (nat n))"
proof -
  have "2 ^ nlog2 (nat n) \<le> nat n" "nat n + 1 \<le> 2 ^ Suc (nlog2 (nat n))"
    using nlog2_bounds [of "nat n"] assms by auto
  then have "int (2 ^ nlog2 (nat n)) \<le> n" "n + 1 \<le> int (2 ^ Suc (nlog2 (nat n)))"
    using assms by linarith+
  then have "(of_int (int (2 ^ nlog2 (nat n))) :: rat) \<le> of_int n"
    "(of_int (n + 1) :: rat) \<le> of_int (int (2 ^ Suc (nlog2 (nat n))))"
    by (simp_all only: of_int_le_iff)
  then show "(2 :: rat) ^ nlog2 (nat n) \<le> of_int n" "of_int n + 1 \<le> (2 :: rat) ^ Suc (nlog2 (nat n))"
    by simp_all
qed

lemma ilog2_bounds:
  assumes "0 < x"
  shows "2 powi ilog2 x \<le> x" and "x < 2 powi (ilog2 x + 1)"
proof -
  have "2 powi ilog2 x \<le> x \<and> x < 2 powi (ilog2 x + 1)"
  proof (cases "1 \<le> x")
    case True
    then have "1 \<le> \<lfloor>x\<rfloor>" by simp
    then have "(2 :: rat) ^ nlog2 (nat \<lfloor>x\<rfloor>) \<le> x" "x < 2 ^ Suc (nlog2 (nat \<lfloor>x\<rfloor>))"
      using nlog2_rat_bounds [of "\<lfloor>x\<rfloor>"] by linarith+
    then show ?thesis using True by (simp add: ilog2_def power_int_add)
  next
    case False
    define n where "n = \<lceil>1 / x\<rceil> - 1"
    define a where "a = nlog2 (nat n)"
    have "1 < 1 / x" using False assms by simp
    then have n: "1 \<le> n" unfolding n_def by linarith
    have y: "of_int n < 1 / x" "1 / x \<le> of_int n + 1" unfolding n_def by linarith+
    have "(2 :: rat) ^ a < 1 / x" "1 / x \<le> 2 ^ Suc a"
      using nlog2_rat_bounds [OF n] y unfolding a_def by linarith+
    then have "x < 1 / 2 ^ a" "1 / 2 ^ Suc a \<le> x" using assms by (simp_all add: field_simps)
    moreover have i: "ilog2 x = - int (Suc a)" using False by (simp add: ilog2_def n_def a_def)
    moreover have "(2 :: rat) powi ilog2 x = 1 / 2 ^ Suc a" unfolding i power_int_minus two_powi_nat
      by (simp add: inverse_eq_divide)
    moreover have "ilog2 x + 1 = - int a" using i by simp
    then have "(2 :: rat) powi (ilog2 x + 1) = 1 / 2 ^ a"
      by (simp only: power_int_minus two_powi_nat) (simp add: inverse_eq_divide)
    ultimately show ?thesis by simp
  qed
  then show "2 powi ilog2 x \<le> x" "x < 2 powi (ilog2 x + 1)" by auto
qed

lemma rne_error: "\<bar>of_int (rne x) - x\<bar> \<le> 1 / 2"
proof -
  have "of_int \<lfloor>x\<rfloor> \<le> x" "x < of_int \<lfloor>x\<rfloor> + 1" by linarith+
  then show ?thesis by (auto simp: rne_def Let_def abs_le_iff)
qed

lemma rne_nearest: "\<bar>of_int (rne x) - x\<bar> \<le> \<bar>of_int n - x\<bar>"
proof (cases "n = rne x")
  case False
  then have "1 \<le> \<bar>n - rne x\<bar>" by linarith
  then have "(1 :: rat) \<le> \<bar>of_int n - of_int (rne x)\<bar>"
    by (metis of_int_1 of_int_abs of_int_diff of_int_le_iff)
  with rne_error [of x] show ?thesis by linarith
qed simp

lemma rne_of_int [simp]: "rne (of_int n) = n"
  by (simp add: rne_def)

lemma rne_uminus: "rne (- x) = - rne x"
proof (cases "x = of_int \<lfloor>x\<rfloor>")
  case True
  then show ?thesis by (metis of_int_minus rne_of_int)
next
  case False
  then have "\<lfloor>- x\<rfloor> = - \<lfloor>x\<rfloor> - 1" by linarith
  then show ?thesis by (auto simp: rne_def Let_def)
qed

lemma rnd_uminus: "rnd fmt (- x) = - rnd fmt x"
  by (simp add: rnd_def ulp_exp_def rne_uminus Let_def)

lemma ulp_exp_cases:
  assumes "x \<noteq> 0"
  shows "\<bar>x\<bar> < 2 powi (ulp_exp fmt x + int (prec fmt))"
    and "ulp_exp fmt x = emin fmt \<or> 2 powi (ulp_exp fmt x + int (prec fmt) - 1) \<le> \<bar>x\<bar>"
proof -
  have "\<bar>x\<bar> < 2 powi (ilog2 \<bar>x\<bar> + 1)" using assms ilog2_bounds(2) [of "\<bar>x\<bar>"] by simp
  also have "\<dots> \<le> 2 powi (ulp_exp fmt x + int (prec fmt))"
    by (rule two_powi_mono) (simp add: ulp_exp_def)
  finally show "\<bar>x\<bar> < 2 powi (ulp_exp fmt x + int (prec fmt))" .
  show "ulp_exp fmt x = emin fmt \<or> 2 powi (ulp_exp fmt x + int (prec fmt) - 1) \<le> \<bar>x\<bar>"
  proof (cases "emin fmt \<le> ilog2 \<bar>x\<bar> - int (prec fmt) + 1")
    case True
    then have "ulp_exp fmt x + int (prec fmt) - 1 = ilog2 \<bar>x\<bar>" by (simp add: ulp_exp_def)
    then show ?thesis using assms ilog2_bounds(1) [of "\<bar>x\<bar>"] by simp
  qed (simp add: ulp_exp_def)
qed

lemma rnd_representable: "representable fmt (rnd fmt x)"
proof (cases "x = 0")
  case True
  then show ?thesis
    by (auto simp: rnd_def representable_def intro!: exI [of _ 0] exI [of _ "emin fmt"])
next
  case False
  define u where "u = (2 :: rat) powi ulp_exp fmt x"
  have u: "0 < u" by (simp add: u_def)
  have "\<bar>x\<bar> < u * 2 ^ prec fmt"
    using ulp_exp_cases(1) [OF False, of fmt] by (simp add: two_powi_add u_def)
  then have "\<bar>x / u\<bar> < 2 ^ prec fmt" using u by (simp add: pos_divide_less_eq mult.commute)
  then have "\<bar>of_int (rne (x / u))\<bar> < (2 :: rat) ^ prec fmt + 1"
    using rne_error [of "x / u"] by linarith
  then have "of_int \<bar>rne (x / u)\<bar> < (of_int (2 ^ prec fmt + 1) :: rat)" by simp
  then have "\<bar>rne (x / u)\<bar> < 2 ^ prec fmt + 1" by (simp only: of_int_less_iff)
  then have "\<bar>rne (x / u)\<bar> \<le> 2 ^ prec fmt" by simp
  moreover have "rnd fmt x = of_int (rne (x / u)) * u" using False by (simp add: rnd_def u_def Let_def)
  ultimately show ?thesis
    unfolding representable_def u_def by (metis max.cobounded1 ulp_exp_def)
qed

text \<open>Rounding returns a nearest representable number.\<close>

lemma rnd_grid:
  assumes "x \<noteq> 0"
  shows "\<bar>rnd fmt x - x\<bar> \<le> \<bar>of_int n * 2 powi ulp_exp fmt x - x\<bar>"
proof -
  define u where "u = (2 :: rat) powi ulp_exp fmt x"
  have u: "0 < u" by (simp add: u_def)
  have "\<bar>rnd fmt x - x\<bar> = \<bar>of_int (rne (x / u)) - x / u\<bar> * u"
    using u assms by (simp add: rnd_def Let_def u_def abs_mult_pos' field_simps)
  also have "\<dots> \<le> \<bar>of_int n - x / u\<bar> * u"
    using rne_nearest u by (simp add: mult_right_mono)
  also have "\<dots> = \<bar>of_int n * u - x\<bar>" using u by (simp add: abs_mult_pos' field_simps)
  finally show ?thesis by (simp add: u_def)
qed

lemma rnd_nearest:
  assumes "representable fmt y" and prec: "0 < prec fmt"
  shows "\<bar>rnd fmt x - x\<bar> \<le> \<bar>y - x\<bar>"
proof (cases "x = 0")
  case False
  define e where "e = ulp_exp fmt x"
  from assms obtain m k where y: "y = of_int m * 2 powi k" and m: "\<bar>m\<bar> \<le> 2 ^ prec fmt"
    and k: "emin fmt \<le> k" by (auto simp: representable_def)
  show ?thesis
  proof (cases "e \<le> k")
    case True
    then have "(2 :: rat) powi k = 2 ^ nat (k - e) * 2 powi e"
      by (simp add: power_int_diff flip: two_powi_nat)
    then have "y = of_int (m * 2 ^ nat (k - e)) * 2 powi e" by (simp add: y)
    then show ?thesis using rnd_grid [OF False, of fmt "m * 2 ^ nat (k - e)"] by (simp add: e_def)
  next
    case lt: False
    define g where "g = (2 :: rat) powi (e + int (prec fmt) - 1)"
    from lt k have "e \<noteq> emin fmt" by simp
    with ulp_exp_cases(2) [OF False, of fmt] have big: "g \<le> \<bar>x\<bar>" by (simp add: e_def g_def)
    have "\<bar>y\<bar> = of_int \<bar>m\<bar> * 2 powi k" by (simp add: y abs_mult)
    also have "\<dots> \<le> 2 ^ prec fmt * 2 powi k"
      using m by (intro mult_right_mono) (metis of_int_le_iff of_int_numeral of_int_power, simp)
    also have "\<dots> = 2 powi (k + int (prec fmt))" by (simp add: two_powi_add)
    also have "\<dots> \<le> g" unfolding g_def by (rule two_powi_mono) (use lt in simp)
    finally have yg: "\<bar>y\<bar> \<le> g" .
    have expo: "e + int (prec fmt) - 1 = int (prec fmt - 1) + e" using prec by simp
    have "g = of_int (2 ^ (prec fmt - 1)) * 2 powi e" unfolding g_def expo two_powi_add by simp
    then have "\<bar>rnd fmt x - x\<bar> \<le> \<bar>(if 0 < x then g else - g) - x\<bar>"
      using rnd_grid [OF False, of fmt "2 ^ (prec fmt - 1)"]
        rnd_grid [OF False, of fmt "- (2 ^ (prec fmt - 1))"] by (simp add: e_def)
    then show ?thesis using yg big by (auto split: if_splits)
  qed
qed (simp add: rnd_def)

lemma rnd_exact: "representable fmt y \<Longrightarrow> 0 < prec fmt \<Longrightarrow> rnd fmt y = y"
  using rnd_nearest [of fmt y y] by simp

lemma rnd_mono:
  assumes "x \<le> y" and "0 < prec fmt"
  shows "rnd fmt x \<le> rnd fmt y"
proof (cases "x = y")
  case False
  have "\<bar>rnd fmt x - x\<bar> \<le> \<bar>rnd fmt y - x\<bar>" "\<bar>rnd fmt y - y\<bar> \<le> \<bar>rnd fmt x - y\<bar>"
    using assms by (simp_all add: rnd_nearest rnd_representable)
  with assms False show ?thesis by linarith
qed simp

lemma representable_of_int: "\<bar>m\<bar> \<le> 2 ^ prec fmt \<Longrightarrow> emin fmt \<le> 0 \<Longrightarrow> representable fmt (of_int m)"
  unfolding representable_def by (intro exI [of _ m] exI [of _ 0]) simp

lemma representable_uminus: "representable fmt x \<Longrightarrow> representable fmt (- x)"
  unfolding representable_def by (metis abs_minus_cancel mult_minus_left of_int_minus)

lemma representable_two_powi: "emin fmt \<le> e \<Longrightarrow> representable fmt (2 powi e)"
  unfolding representable_def by (intro exI [of _ 1] exI [of _ e]) simp

lemma rnd_zero [simp]: "rnd fmt 0 = 0"
  by (simp add: rnd_def)

lemma rnd_nonneg: "0 \<le> x \<Longrightarrow> 0 < prec fmt \<Longrightarrow> 0 \<le> rnd fmt x"
  using rnd_mono [of 0 x fmt] by simp

lemma rnd_error:
  assumes "x \<noteq> 0"
  shows "\<bar>rnd fmt x - x\<bar> \<le> 2 powi ulp_exp fmt x / 2"
proof -
  define u where "u = (2 :: rat) powi ulp_exp fmt x"
  have u: "0 < u" by (simp add: u_def)
  have "\<bar>rnd fmt x - x\<bar> = \<bar>of_int (rne (x / u)) - x / u\<bar> * u"
    using u assms by (simp add: rnd_def Let_def u_def abs_mult_pos' field_simps)
  also have "\<dots> \<le> 1 / 2 * u" using rne_error [of "x / u"] u by (intro mult_right_mono) auto
  finally show ?thesis by (simp add: u_def)
qed

text \<open>The relative error of a result in the normal range is at most \<open>2 ^ - prec\<close>.\<close>

lemma rnd_rel_error:
  assumes "2 powi (emin fmt + int (prec fmt) - 1) \<le> \<bar>x\<bar>"
  shows "\<bar>rnd fmt x - x\<bar> \<le> \<bar>x\<bar> / 2 ^ prec fmt"
proof -
  have "0 < \<bar>x\<bar>" using assms two_powi_pos less_le_trans by blast
  then have x: "x \<noteq> 0" by simp
  have "2 powi (ulp_exp fmt x + int (prec fmt) - 1) \<le> \<bar>x\<bar>"
    using ulp_exp_cases(2) [OF x, of fmt] assms by auto
  then have "2 powi ulp_exp fmt x / 2 * 2 ^ prec fmt \<le> \<bar>x\<bar>"
    by (simp add: power_int_diff power_int_add)
  then have "2 powi ulp_exp fmt x / 2 \<le> \<bar>x\<bar> / 2 ^ prec fmt" by (simp add: field_simps)
  then show ?thesis using rnd_error [OF x, of fmt] by linarith
qed

text \<open>The absolute error of a result of bounded size, and rounding between two integers.\<close>

lemma rnd_abs_error:
  assumes "\<bar>x\<bar> \<le> 2 powi k" "emin fmt + int (prec fmt) \<le> k" "0 < prec fmt"
  shows "\<bar>rnd fmt x - x\<bar> \<le> 2 powi (k - int (prec fmt) - 1)"
proof (cases "x = 0 \<or> \<bar>x\<bar> = 2 powi k")
  case True
  have "representable fmt (2 powi k)" using assms(2) by (intro representable_two_powi) simp
  moreover have "x = 2 powi k \<or> x = - (2 powi k)" if "x \<noteq> 0" using True that by (auto simp: abs_if split: if_splits)
  ultimately have "representable fmt x" if "x \<noteq> 0" using that representable_uminus by blast
  then show ?thesis using assms(3) by (cases "x = 0") (simp_all add: rnd_exact less_imp_le)
next
  case False
  then have x: "x \<noteq> 0" "\<bar>x\<bar> < 2 powi k" using assms(1) by auto
  have "ulp_exp fmt x \<le> k - int (prec fmt)"
  proof (cases "ulp_exp fmt x = emin fmt")
    case False
    with ulp_exp_cases(2) [OF x(1), of fmt]
    have "(2 :: rat) powi (ulp_exp fmt x + int (prec fmt) - 1) \<le> \<bar>x\<bar>" by simp
    then show ?thesis using x(2) two_powi_mono [of k "ulp_exp fmt x + int (prec fmt) - 1"] by linarith
  qed (use assms(2) in simp)
  then have "(2 :: rat) powi (ulp_exp fmt x - 1) \<le> 2 powi (k - int (prec fmt) - 1)"
    by (intro two_powi_mono) simp
  then show ?thesis using rnd_error [OF x(1), of fmt] by (simp add: power_int_diff)
qed

lemma rnd_between_integers:
  assumes "0 \<le> x" "x \<le> 2 ^ prec fmt" "emin fmt \<le> 0" "0 < prec fmt"
  shows "x - 1 \<le> of_int \<lfloor>rnd fmt x\<rfloor>" "of_int \<lfloor>rnd fmt x\<rfloor> \<le> x + 1" "0 \<le> \<lfloor>rnd fmt x\<rfloor>"
    "rnd fmt x \<le> 2 ^ prec fmt"
proof -
  have "\<lceil>x\<rceil> \<le> 2 ^ prec fmt" using assms(2) by (simp add: ceiling_le_iff)
  then have "representable fmt (of_int \<lfloor>x\<rfloor>)" "representable fmt (of_int \<lceil>x\<rceil>)"
    using assms(1,3) by (intro representable_of_int; linarith)+
  then have "of_int \<lfloor>x\<rfloor> \<le> rnd fmt x" "rnd fmt x \<le> of_int \<lceil>x\<rceil>"
    using rnd_mono [of "of_int \<lfloor>x\<rfloor>" x fmt] rnd_mono [of x "of_int \<lceil>x\<rceil>" fmt] assms(4)
    by (simp_all add: rnd_exact)
  then have "\<lfloor>x\<rfloor> \<le> \<lfloor>rnd fmt x\<rfloor>" "\<lfloor>rnd fmt x\<rfloor> \<le> \<lceil>x\<rceil>" by linarith+
  then show "x - 1 \<le> of_int \<lfloor>rnd fmt x\<rfloor>" "of_int \<lfloor>rnd fmt x\<rfloor> \<le> x + 1" by linarith+
  show "0 \<le> \<lfloor>rnd fmt x\<rfloor>" using rnd_nonneg [OF assms(1,4)] by simp
  have "(of_int \<lceil>x\<rceil> :: rat) \<le> of_int (2 ^ prec fmt)" using \<open>\<lceil>x\<rceil> \<le> 2 ^ prec fmt\<close> by (simp only: of_int_le_iff)
  with \<open>rnd fmt x \<le> of_int \<lceil>x\<rceil>\<close> have "rnd fmt x \<le> of_int (2 ^ prec fmt)" by (rule order_trans)
  then show "rnd fmt x \<le> 2 ^ prec fmt" unfolding of_int_power of_int_numeral .
qed

text \<open>A quotient of two integers of the significand's width truncates to the integer quotient.\<close>

lemma floor_rnd_quotient:
  assumes b: "0 < b" and ab: "a < 2 ^ prec fmt" "b < 2 ^ prec fmt" "0 < prec fmt"
    and e: "emin fmt + 2 * int (prec fmt) \<le> 1"
  shows "\<lfloor>rnd fmt (of_nat a / of_nat b)\<rfloor> = int (a div b)"
proof (cases "a = 0")
  case False
  define x :: rat where "x = of_nat a / of_nat b"
  have "of_nat (a div b) \<le> x"
    unfolding x_def using b by (simp add: pos_le_divide_eq flip: of_nat_mult)
  moreover have "representable fmt (of_int (int (a div b)))"
  proof (rule representable_of_int)
    have "a div b \<le> 2 ^ prec fmt" using ab(1) by (meson div_le_dividend le_trans less_imp_le)
    then show "\<bar>int (a div b)\<bar> \<le> 2 ^ prec fmt" by (metis abs_of_nat of_nat_le_iff of_nat_numeral of_nat_power)
    show "emin fmt \<le> 0" using e ab(3) by linarith
  qed
  ultimately have lo: "of_nat (a div b) \<le> rnd fmt x"
    using rnd_mono [of "of_nat (a div b)" x fmt] ab(3) by (simp add: rnd_exact)
  have "(2 :: rat) powi (emin fmt + int (prec fmt) - 1) \<le> 2 powi (- int (prec fmt))"
    by (rule two_powi_mono) (use e in linarith)
  also have "\<dots> = 1 / 2 ^ prec fmt" by (simp add: power_int_minus inverse_eq_divide)
  also have "\<dots> \<le> 1 / of_nat b"
  proof (rule divide_left_mono)
    show "(of_nat b :: rat) \<le> 2 ^ prec fmt"
      using ab(2) by (metis less_imp_le of_nat_le_iff of_nat_numeral of_nat_power)
  qed (use b in simp_all)
  also have "\<dots> \<le> x" using False b by (simp add: x_def divide_right_mono)
  finally have "\<bar>rnd fmt x - x\<bar> \<le> \<bar>x\<bar> / 2 ^ prec fmt" by (intro rnd_rel_error) simp
  moreover have "\<bar>x\<bar> / 2 ^ prec fmt < 1 / of_nat b"
  proof -
    have "(of_nat a :: rat) < 2 ^ prec fmt" using ab(1) by (metis of_nat_less_iff of_nat_numeral of_nat_power)
    then have "of_nat a / 2 ^ prec fmt < (1 :: rat)" by simp
    then show ?thesis using b by (simp add: x_def divide_strict_right_mono field_simps)
  qed
  ultimately have "rnd fmt x < x + 1 / of_nat b" by linarith
  also have "\<dots> = of_nat (a + 1) / of_nat b" by (simp add: x_def add_divide_distrib)
  also have "\<dots> \<le> of_nat (a div b + 1)"
  proof -
    have "a + 1 \<le> (a div b + 1) * b" using b dividend_less_div_times [of b a] by simp
    then have "(of_nat (a + 1) :: rat) \<le> of_nat ((a div b + 1) * b)" by (simp only: of_nat_le_iff)
    then show ?thesis using b by (simp add: pos_divide_le_eq algebra_simps)
  qed
  finally show ?thesis using lo by (simp add: x_def floor_eq_iff)
qed simp

section \<open>Values and operations\<close>

text \<open>The first argument of \<open>Inf\<close> and \<open>Fin\<close> is the sign bit, set for negative values.\<close>

datatype fval = NaN | Inf bool | Fin bool rat

definition fl :: "float_format \<Rightarrow> bool \<Rightarrow> rat \<Rightarrow> fval" where
  "fl fmt s x =
     (let y = rnd fmt x
      in if 2 powi emax fmt \<le> \<bar>y\<bar> then Inf (x < 0)
         else Fin (if x = 0 then s else x < 0) y)"

fun fneg :: "fval \<Rightarrow> fval" where
  "fneg NaN = NaN"
| "fneg (Inf s) = Inf (\<not> s)"
| "fneg (Fin s x) = Fin (\<not> s) (- x)"

fun fadd :: "float_format \<Rightarrow> fval \<Rightarrow> fval \<Rightarrow> fval" where
  "fadd fmt NaN b = NaN"
| "fadd fmt a NaN = NaN"
| "fadd fmt (Inf s) (Inf t) = (if s = t then Inf s else NaN)"
| "fadd fmt (Inf s) (Fin t y) = Inf s"
| "fadd fmt (Fin s x) (Inf t) = Inf t"
| "fadd fmt (Fin s x) (Fin t y) = fl fmt (s \<and> t) (x + y)"

definition fsub :: "float_format \<Rightarrow> fval \<Rightarrow> fval \<Rightarrow> fval" where
  "fsub fmt a b = fadd fmt a (fneg b)"

fun fmul :: "float_format \<Rightarrow> fval \<Rightarrow> fval \<Rightarrow> fval" where
  "fmul fmt NaN b = NaN"
| "fmul fmt a NaN = NaN"
| "fmul fmt (Inf s) (Inf t) = Inf (s \<noteq> t)"
| "fmul fmt (Inf s) (Fin t y) = (if y = 0 then NaN else Inf (s \<noteq> t))"
| "fmul fmt (Fin s x) (Inf t) = (if x = 0 then NaN else Inf (s \<noteq> t))"
| "fmul fmt (Fin s x) (Fin t y) = fl fmt (s \<noteq> t) (x * y)"

fun fdiv :: "float_format \<Rightarrow> fval \<Rightarrow> fval \<Rightarrow> fval" where
  "fdiv fmt NaN b = NaN"
| "fdiv fmt a NaN = NaN"
| "fdiv fmt (Inf s) (Inf t) = NaN"
| "fdiv fmt (Inf s) (Fin t y) = Inf (s \<noteq> t)"
| "fdiv fmt (Fin s x) (Inf t) = Fin (s \<noteq> t) 0"
| "fdiv fmt (Fin s x) (Fin t y) =
     (if y = 0 then (if x = 0 then NaN else Inf (s \<noteq> t)) else fl fmt (s \<noteq> t) (x / y))"

fun flt :: "fval \<Rightarrow> fval \<Rightarrow> bool" where
  "flt NaN b = False"
| "flt a NaN = False"
| "flt (Inf s) (Inf t) = (s \<and> \<not> t)"
| "flt (Inf s) (Fin t y) = s"
| "flt (Fin s x) (Inf t) = (\<not> t)"
| "flt (Fin s x) (Fin t y) = (x < y)"

fun feq :: "fval \<Rightarrow> fval \<Rightarrow> bool" where
  "feq (Inf s) (Inf t) = (s = t)"
| "feq (Fin s x) (Fin t y) = (x = y)"
| "feq _ _ = False"

text \<open>\<open>f64::min\<close> ignores a NaN operand.\<close>

definition fmin :: "fval \<Rightarrow> fval \<Rightarrow> fval" where
  "fmin a b = (if a = NaN then b else if b = NaN then a else if flt b a then b else a)"

text \<open>\<open>iter().sum()\<close> folds from the left; the neutral element of the float sum is \<open>-0.0\<close>.\<close>

definition fsum :: "float_format \<Rightarrow> fval list \<Rightarrow> fval" where
  "fsum fmt vs = foldl (fadd fmt) (Fin True 0) vs"

definition f_of_nat :: "float_format \<Rightarrow> nat \<Rightarrow> fval" where
  "f_of_nat fmt n = fl fmt False (of_nat n)"

text \<open>\<open>as\<close> from a float to an unsigned integer of a given number of values truncates and saturates.\<close>

fun f_to_nat :: "nat \<Rightarrow> fval \<Rightarrow> nat" where
  "f_to_nat m NaN = 0"
| "f_to_nat m (Inf s) = (if s then 0 else m - 1)"
| "f_to_nat m (Fin s x) = min (nat \<lfloor>x\<rfloor>) (m - 1)"

type_synonym f64 = fval
type_synonym f32 = fval

abbreviation f64_add :: "f64 \<Rightarrow> f64 \<Rightarrow> f64" where "f64_add \<equiv> fadd f64_format"
abbreviation f64_sub :: "f64 \<Rightarrow> f64 \<Rightarrow> f64" where "f64_sub \<equiv> fsub f64_format"
abbreviation f64_mul :: "f64 \<Rightarrow> f64 \<Rightarrow> f64" where "f64_mul \<equiv> fmul f64_format"
abbreviation f64_div :: "f64 \<Rightarrow> f64 \<Rightarrow> f64" where "f64_div \<equiv> fdiv f64_format"
abbreviation f64_sum :: "f64 list \<Rightarrow> f64" where "f64_sum \<equiv> fsum f64_format"
abbreviation f32_div :: "f32 \<Rightarrow> f32 \<Rightarrow> f32" where "f32_div \<equiv> fdiv f32_format"
abbreviation f32_mul :: "f32 \<Rightarrow> f32 \<Rightarrow> f32" where "f32_mul \<equiv> fmul f32_format"

abbreviation f64_lit :: "rat \<Rightarrow> f64" where "f64_lit x \<equiv> fl f64_format False x"
abbreviation f32_lit :: "rat \<Rightarrow> f32" where "f32_lit x \<equiv> fl f32_format False x"
abbreviation f_zero :: fval where "f_zero \<equiv> Fin False 0"

definition u64_as_f64 :: "u64 \<Rightarrow> f64" where
  "u64_as_f64 w = f_of_nat f64_format (unat w)"

definition f64_as_u64 :: "f64 \<Rightarrow> u64" where
  "f64_as_u64 v = of_nat (f_to_nat (2 ^ 64) v)"

definition f32_as_u32 :: "f32 \<Rightarrow> nat" where
  "f32_as_u32 v = f_to_nat (2 ^ 32) v"

definition as_secs_f64 :: "duration \<Rightarrow> f64" where
  "as_secs_f64 d =
     f64_add (u64_as_f64 (as_secs d))
       (f64_div (f_of_nat f64_format (unat (subsec_nanos d))) (f64_lit 1000000000))"

text \<open>The exact length of a duration in seconds.\<close>

definition seconds_of :: "duration \<Rightarrow> rat" where
  "seconds_of d = of_nat (unat (as_secs d)) + of_nat (unat (subsec_nanos d)) / 10 ^ 9"

text \<open>Unfolding rules that evaluate closed float terms.\<close>

lemma floor_rat_numeral:
  "\<lfloor>(numeral a / numeral b :: rat)\<rfloor> = numeral a div numeral b"
  "\<lfloor>(1 / numeral b :: rat)\<rfloor> = 1 div numeral b"
  using floor_divide_of_int_eq [of "numeral a" "numeral b", where ?'a = rat]
    floor_divide_of_int_eq [of 1 "numeral b", where ?'a = rat] by simp_all

lemmas float_eval = fl_def rnd_def ulp_exp_def ilog2_def rne_def Let_def nlog2.simps
  floor_rat_numeral ceiling_def
  fsub_def f_of_nat_def u64_as_f64_def f64_as_u64_def f32_as_u32_def as_secs_f64_def fsum_def fmin_def

lemma f_of_nat_exact:
  assumes "n \<le> 2 ^ prec fmt" "int (prec fmt) < emax fmt" "emin fmt \<le> 0" "0 < prec fmt"
  shows "f_of_nat fmt n = Fin False (of_nat n)"
proof -
  have "representable fmt (of_int (int n))"
  proof (rule representable_of_int)
    show "\<bar>int n\<bar> \<le> 2 ^ prec fmt" using assms(1) by (metis abs_of_nat of_nat_le_iff of_nat_numeral of_nat_power)
  qed (rule assms(3))
  then have "rnd fmt (of_nat n) = of_nat n" using rnd_exact assms(4) by force
  moreover have "(of_nat n :: rat) \<le> 2 ^ prec fmt" using assms(1) by (metis of_nat_le_iff of_nat_numeral of_nat_power)
  moreover have "(2 :: rat) ^ prec fmt < 2 powi emax fmt"
    using assms(2) power_int_strict_increasing [of "int (prec fmt)" "emax fmt" "2 :: rat"] by simp
  ultimately have "rnd fmt (of_nat n) = of_nat n" "\<not> 2 powi emax fmt \<le> (of_nat n :: rat)" by linarith+
  then show ?thesis by (auto simp: f_of_nat_def fl_def Let_def)
qed

section \<open>Non-negative values\<close>

fun nonneg_fin :: "float_format \<Rightarrow> fval \<Rightarrow> bool" where
  "nonneg_fin fmt (Fin s x) \<longleftrightarrow> 0 \<le> x \<and> representable fmt x"
| "nonneg_fin fmt _ \<longleftrightarrow> False"

fun fin_val :: "fval \<Rightarrow> rat" where
  "fin_val (Fin s x) = x"
| "fin_val _ = 0"

fun is_fin :: "fval \<Rightarrow> bool" where
  "is_fin (Fin s x) = True"
| "is_fin _ = False"

lemma fl_is_fin_iff: "is_fin (fl fmt s x) \<longleftrightarrow> \<bar>rnd fmt x\<bar> < 2 powi emax fmt"
  by (simp add: fl_def Let_def not_le)

lemma fl_Fin_val: "fl fmt s x = Fin t y \<Longrightarrow> y = rnd fmt x"
  by (auto simp: fl_def Let_def split: if_splits)

lemma fl_not_NaN [simp]: "fl fmt s x \<noteq> NaN"
  by (simp add: fl_def Let_def)

lemma fl_bounded:
  assumes "\<bar>x\<bar> \<le> B" and "representable fmt B" and "B < 2 powi emax fmt" and "0 < prec fmt"
  shows "fl fmt s x = Fin (if x = 0 then s else x < 0) (rnd fmt x)" and "\<bar>rnd fmt x\<bar> \<le> B"
proof -
  have "rnd fmt x \<le> rnd fmt B" using assms by (intro rnd_mono) auto
  moreover have "rnd fmt (- B) \<le> rnd fmt x" using assms by (intro rnd_mono) auto
  ultimately show b: "\<bar>rnd fmt x\<bar> \<le> B"
    using assms by (simp add: rnd_exact representable_uminus abs_le_iff)
  with assms show "fl fmt s x = Fin (if x = 0 then s else x < 0) (rnd fmt x)"
    by (simp add: fl_def Let_def)
qed

lemma fadd_NaN2 [simp]: "fadd fmt a NaN = NaN"
  by (cases a) auto

lemma fmul_NaN2 [simp]: "fmul fmt a NaN = NaN"
  by (cases a) auto

lemma fdiv_NaN2 [simp]: "fdiv fmt a NaN = NaN"
  by (cases a) auto

lemma flt_NaN2 [simp]: "flt a NaN = False"
  by (cases a) auto

lemma feq_NaN [simp]: "feq NaN b = False" "feq a NaN = False"
  by (cases b, auto)

lemma foldl_fadd_NaN [simp]: "foldl (fadd fmt) NaN vs = NaN"
  by (induction vs) auto

lemma foldl_fadd_NaN_mem: "NaN \<in> set vs \<Longrightarrow> foldl (fadd fmt) a vs = NaN"
  by (induction vs arbitrary: a) auto

lemma fsum_NaN: "NaN \<in> set vs \<Longrightarrow> fsum fmt vs = NaN"
  by (simp add: fsum_def foldl_fadd_NaN_mem)

lemma foldl_fadd_not_fin: "\<not> is_fin a \<Longrightarrow> \<not> is_fin (foldl (fadd fmt) a vs)"
proof (induction vs arbitrary: a)
  case (Cons v vs)
  have "\<not> is_fin (fadd fmt a v)" using Cons.prems by (cases a; cases v) auto
  then show ?case using Cons.IH by simp
qed simp

lemma fadd_nonneg_fin:
  assumes "nonneg_fin fmt a" "nonneg_fin fmt b" "is_fin (fadd fmt a b)" "0 < prec fmt"
  shows "nonneg_fin fmt (fadd fmt a b)"
    and "fin_val a \<le> fin_val (fadd fmt a b)" and "fin_val b \<le> fin_val (fadd fmt a b)"
    and "fin_val (fadd fmt a b) = rnd fmt (fin_val a + fin_val b)"
proof -
  obtain s x where a: "a = Fin s x" "0 \<le> x" "representable fmt x" using assms(1) by (cases a) auto
  obtain t y where b: "b = Fin t y" "0 \<le> y" "representable fmt y" using assms(2) by (cases b) auto
  obtain r z where c: "fadd fmt a b = Fin r z" using assms(3) by (cases "fadd fmt a b") auto
  then have z: "z = rnd fmt (x + y)" using a b by (auto dest: fl_Fin_val)
  have "rnd fmt x \<le> z" "rnd fmt y \<le> z" unfolding z using a b assms(4) by (auto intro: rnd_mono)
  then have "x \<le> z" "y \<le> z" using a b assms(4) by (simp_all add: rnd_exact)
  then show "nonneg_fin fmt (fadd fmt a b)" "fin_val a \<le> fin_val (fadd fmt a b)"
    "fin_val b \<le> fin_val (fadd fmt a b)" "fin_val (fadd fmt a b) = rnd fmt (fin_val a + fin_val b)"
    using a b c z by (auto simp: rnd_representable)
qed

text \<open>A finite sum of non-negative values is at least each of its terms.\<close>

lemma foldl_fadd_nonneg:
  assumes "is_fin (foldl (fadd fmt) a vs)" and "nonneg_fin fmt a"
    and "\<forall>v \<in> set vs. nonneg_fin fmt v" and "0 < prec fmt"
  shows "nonneg_fin fmt (foldl (fadd fmt) a vs) \<and>
    (\<forall>v \<in> set (a # vs). fin_val v \<le> fin_val (foldl (fadd fmt) a vs))"
  using assms(1-3)
proof (induction vs arbitrary: a)
  case (Cons v vs)
  have fin: "is_fin (fadd fmt a v)" using Cons.prems(1) foldl_fadd_not_fin by auto
  note s = fadd_nonneg_fin [OF Cons.prems(2) _ fin assms(4)]
  have "nonneg_fin fmt (fadd fmt a v)" using s Cons.prems(3) by simp
  with Cons.IH [of "fadd fmt a v"] Cons.prems(1,3)
  have IH: "nonneg_fin fmt (foldl (fadd fmt) (fadd fmt a v) vs)"
    "\<forall>w \<in> set (fadd fmt a v # vs). fin_val w \<le> fin_val (foldl (fadd fmt) (fadd fmt a v) vs)"
    by auto
  then show ?case using s(2,3) Cons.prems(3) by (auto intro: order_trans)
qed simp

lemma fsum_nonneg:
  assumes "is_fin (fsum fmt vs)" and "\<forall>v \<in> set vs. nonneg_fin fmt v" and "0 < prec fmt"
  shows "nonneg_fin fmt (fsum fmt vs)" and "\<forall>v \<in> set vs. fin_val v \<le> fin_val (fsum fmt vs)"
proof -
  have "nonneg_fin fmt (Fin True 0)"
    by (auto simp: representable_def intro!: exI [of _ 0] exI [of _ "emin fmt"])
  then show "nonneg_fin fmt (fsum fmt vs)" "\<forall>v \<in> set vs. fin_val v \<le> fin_val (fsum fmt vs)"
    using foldl_fadd_nonneg [of fmt "Fin True 0" vs] assms by (auto simp: fsum_def)
qed

text \<open>The quotient of a part by a whole lies between 0 and 1.\<close>

lemma fdiv_part_whole:
  assumes "nonneg_fin fmt a" "nonneg_fin fmt b" "fin_val a \<le> fin_val b" "fin_val b \<noteq> 0"
    and "0 < prec fmt" "emin fmt \<le> 0" "0 < emax fmt"
  shows "is_fin (fdiv fmt a b)" and "0 \<le> fin_val (fdiv fmt a b)" and "fin_val (fdiv fmt a b) \<le> 1"
    and "fin_val (fdiv fmt a b) = rnd fmt (fin_val a / fin_val b)"
proof -
  obtain s x where a: "a = Fin s x" "0 \<le> x" using assms(1) by (cases a) auto
  obtain t y where b: "b = Fin t y" "0 \<le> y" using assms(2) by (cases b) auto
  have y: "0 < y" "x \<le> y" using a b assms(3,4) by auto
  have one: "representable fmt 1" using representable_of_int [of 1 fmt] assms(6) by simp
  have big: "(1 :: rat) < 2 powi emax fmt" using assms(7) by (simp add: one_less_power_int)
  have "\<bar>x / y\<bar> \<le> 1" using a y by simp
  note fb = fl_bounded [OF this one big assms(5)]
  have "fdiv fmt a b = Fin (if x / y = 0 then s \<noteq> t else x / y < 0) (rnd fmt (x / y))"
    using a b y fb(1) by simp
  then show "is_fin (fdiv fmt a b)" "0 \<le> fin_val (fdiv fmt a b)" "fin_val (fdiv fmt a b) \<le> 1"
    "fin_val (fdiv fmt a b) = rnd fmt (fin_val a / fin_val b)"
    using a b y fb(2) rnd_nonneg [of "x / y" fmt] assms(5) by simp_all
qed

text \<open>Truncating the quotient of two exactly represented naturals is integer division.\<close>

lemma f_to_nat_fdiv:
  assumes b: "0 < b" and ab: "a < 2 ^ prec fmt" "b < 2 ^ prec fmt" "0 < prec fmt"
    and e: "emin fmt + 2 * int (prec fmt) \<le> 1" "int (prec fmt) < emax fmt" and m: "a < m"
  shows "f_to_nat m (fdiv fmt (Fin False (of_nat a)) (Fin False (of_nat b))) = a div b"
proof -
  let ?q = "of_nat a / of_nat b :: rat"
  have "?q \<le> of_nat a / 1" using b by (intro divide_left_mono) auto
  also have "\<dots> \<le> of_nat (2 ^ prec fmt)" unfolding div_by_1 of_nat_le_iff using ab(1) by simp
  finally have "\<bar>?q\<bar> \<le> of_int (2 ^ prec fmt)" by simp
  moreover have "representable fmt (of_int (2 ^ prec fmt))"
    using e(1) ab(3) by (intro representable_of_int) auto
  moreover have "(of_int (2 ^ prec fmt) :: rat) < 2 powi emax fmt"
    using e(2) power_int_strict_increasing [of "int (prec fmt)" "emax fmt" "2 :: rat"] by simp
  ultimately have fl: "fl fmt s ?q = Fin (if ?q = 0 then s else ?q < 0) (rnd fmt ?q)" for s
    using ab(3) by (rule fl_bounded)
  have "\<lfloor>rnd fmt ?q\<rfloor> = int (a div b)" using b ab e(1) by (intro floor_rnd_quotient) auto
  moreover have "a div b < m" using m div_le_dividend [of a b] by linarith
  ultimately show ?thesis using b fl by (simp add: min_def)
qed

lemma f64_exact: "n \<le> 2 ^ 53 \<Longrightarrow> f_of_nat f64_format n = Fin False (of_nat n)"
  by (rule f_of_nat_exact) auto

lemma as_secs_f64_whole:
  assumes "unat t = n" "n \<le> 2 ^ 53"
  shows "as_secs_f64 (Duration t 0) = Fin False (of_nat n)"
proof -
  have z: "f64_div (f_of_nat f64_format 0) (f64_lit 1000000000) = Fin False 0"
    by (simp add: f64_exact float_eval)
  have "f64_add (Fin False (of_nat n)) (Fin False 0) = Fin False (of_nat n)"
    using f64_exact [OF assms(2)] by (simp add: f_of_nat_def)
  then show ?thesis
    using f64_exact [OF assms(2)] z unfolding as_secs_f64_def u64_as_f64_def
    by (simp only: duration.sel assms(1) unat_0)
qed

lemma f64_sub_nat:
  assumes "m \<le> n" "n \<le> 2 ^ 53"
  shows "f64_sub (Fin False (of_nat n)) (Fin False (of_nat m)) = Fin False (of_nat (n - m))"
  using f64_exact [of "n - m"] assms by (simp add: fsub_def f_of_nat_def of_nat_diff)

text \<open>
  Seconds with a fraction: below \<open>2 ^ 32\<close> seconds the conversion is within a quarter of a
  microsecond of the exact duration.
\<close>

lemma f64_fl_bounded:
  assumes "\<bar>x\<bar> \<le> 2 ^ 53"
  shows "fl f64_format s x = Fin (if x = 0 then s else x < 0) (rnd f64_format x)"
proof -
  have "representable f64_format (2 powi 53)" by (rule representable_two_powi) simp
  moreover have "(2 :: rat) powi 53 < 2 powi emax f64_format" by (rule power_int_strict_increasing) auto
  ultimately show ?thesis using fl_bounded(1) [of x "2 powi 53" f64_format s] assms by simp
qed

lemma as_secs_f64_error:
  assumes "unat (as_secs d) < 2 ^ 32" "unat (subsec_nanos d) < 10 ^ 9"
  shows "\<exists>x. as_secs_f64 d = Fin False x \<and> \<bar>x - seconds_of d\<bar> \<le> 1 / 2 ^ 22 + 1 / 2 ^ 54 \<and>
    0 \<le> x \<and> x \<le> 2 ^ 32"
proof -
  define S where "S = (of_nat (unat (as_secs d)) :: rat)"
  define n where "n = (of_nat (unat (subsec_nanos d)) :: rat)"
  have "unat (as_secs d) + 1 \<le> 2 ^ 32" using assms(1) by simp
  then have "(of_nat (unat (as_secs d) + 1) :: rat) \<le> of_nat (2 ^ 32)" by (simp only: of_nat_le_iff)
  then have S: "0 \<le> S" "S \<le> 2 ^ 32 - 1" by (simp_all add: S_def del: of_nat_unat)
  have "unat (subsec_nanos d) + 1 \<le> 10 ^ 9" using assms(2) by simp
  then have "(of_nat (unat (subsec_nanos d) + 1) :: rat) \<le> of_nat (10 ^ 9)" by (simp only: of_nat_le_iff)
  then have n: "0 \<le> n" "n / 10 ^ 9 \<le> 1 - 1 / 10 ^ 9" by (simp_all add: n_def del: of_nat_unat)
  define f where "f = rnd f64_format (n / 10 ^ 9)"
  have f: "\<bar>f - n / 10 ^ 9\<bar> \<le> 1 / 2 ^ 54" "0 \<le> f"
    using rnd_abs_error [of "n / 10 ^ 9" 0 f64_format] n rnd_nonneg [of "n / 10 ^ 9" f64_format]
    by (simp_all add: f_def power_int_def power_one_over)
  have "f \<le> n / 10 ^ 9 + 1 / 2 ^ 54" using f(1) by linarith
  then have sf: "0 \<le> S + f" "S + f < 2 ^ 32" using S n f(2) by simp_all
  have "u64_as_f64 (as_secs d) = Fin False S"
    using assms(1) by (simp add: u64_as_f64_def f64_exact S_def del: of_nat_unat)
  moreover have "f_of_nat f64_format (unat (subsec_nanos d)) = Fin False n"
    using assms(2) by (simp add: f64_exact n_def del: of_nat_unat)
  moreover have "f64_lit 1000000000 = Fin False (10 ^ 9)"
    using f64_exact [of 1000000000] by (simp add: f_of_nat_def)
  moreover have "\<bar>n / 10 ^ 9\<bar> \<le> 2 ^ 53" "\<bar>S + f\<bar> \<le> 2 ^ 53" using n sf by simp_all
  ultimately have eq: "as_secs_f64 d = Fin False (rnd f64_format (S + f))"
    using f64_fl_bounded [of "n / 10 ^ 9" False] f64_fl_bounded [of "S + f" False] n(1) sf(1)
    unfolding as_secs_f64_def f_def by (simp split: if_splits)
  have "\<bar>rnd f64_format (S + f) - (S + f)\<bar> \<le> 1 / 2 ^ 22"
    using rnd_abs_error [of "S + f" 32 f64_format] sf by (simp add: power_int_def power_one_over)
  moreover have "seconds_of d = S + n / 10 ^ 9" by (simp add: seconds_of_def S_def n_def del: of_nat_unat)
  ultimately have err: "\<bar>rnd f64_format (S + f) - seconds_of d\<bar> \<le> 1 / 2 ^ 22 + 1 / 2 ^ 54"
    using f(1) by linarith
  have "representable f64_format (2 powi 32)" by (rule representable_two_powi) simp
  then have "rnd f64_format (S + f) \<le> 2 ^ 32"
    using rnd_mono [of "S + f" "2 powi 32" f64_format] sf by (simp add: rnd_exact)
  then show ?thesis using eq err rnd_nonneg [OF sf(1), of f64_format] by simp
qed

lemma nearby_quotient:
  fixes k D T e y :: rat
  assumes "0 \<le> k" "\<bar>D - T\<bar> \<le> e" "e < T"
  shows "k / (T + e) \<le> k / D" "k / D \<le> k / (T - e)" "0 < D"
  using assms by (auto intro!: divide_left_mono)

lemma distance_of_differences:
  fixes D x y p l a b :: rat
  assumes "\<bar>D - (y - x)\<bar> \<le> a" "\<bar>y - l\<bar> \<le> b" "\<bar>x - p\<bar> \<le> b"
  shows "\<bar>D - (l - p)\<bar> \<le> a + 2 * b"
  using assms by linarith

section \<open>Machine integers as floats\<close>

lemma u64_as_f64_fin:
  "nonneg_fin f64_format (u64_as_f64 w)" "fin_val (u64_as_f64 w) = rnd f64_format (of_nat (unat w))"
proof -
  define n where "n = unat w"
  have "(of_nat n :: rat) \<le> of_nat (2 ^ 64)" unfolding of_nat_le_iff n_def using unat_lt_64 [of w] by simp
  then have "\<bar>of_nat n :: rat\<bar> \<le> 2 powi 64" by simp
  moreover have "representable f64_format (2 powi 64)" by (rule representable_two_powi) auto
  moreover have "(2 :: rat) powi 64 < 2 powi emax f64_format" by (rule power_int_strict_increasing) auto
  ultimately have "fl f64_format False (of_nat n) = Fin (if of_nat n = (0 :: rat) then False else of_nat n < (0 :: rat)) (rnd f64_format (of_nat n))"
    by (rule fl_bounded(1)) simp
  moreover have "0 \<le> rnd f64_format (of_nat n)" by (rule rnd_nonneg) auto
  moreover have "representable f64_format (rnd f64_format (of_nat n))" by (simp add: rnd_representable)
  ultimately show "nonneg_fin f64_format (u64_as_f64 w)" "fin_val (u64_as_f64 w) = rnd f64_format (of_nat (unat w))"
    unfolding u64_as_f64_def f_of_nat_def n_def [symmetric] by simp_all
qed

lemma u64_as_f64_mono: "a \<le> b \<Longrightarrow> fin_val (u64_as_f64 a) \<le> fin_val (u64_as_f64 b)"
  unfolding u64_as_f64_fin by (intro rnd_mono) (simp_all add: word_le_nat_alt del: of_nat_unat)

lemma u64_as_f64_pos: "w \<noteq> 0 \<Longrightarrow> 1 \<le> fin_val (u64_as_f64 w)"
proof -
  assume "w \<noteq> 0"
  then have "1 \<le> unat w" by (metis One_nat_def Suc_leI neq0_conv unsigned_eq_0_iff)
  then have "(1 :: rat) \<le> of_nat (unat w)" by (metis of_nat_1 of_nat_le_iff)
  then have "rnd f64_format 1 \<le> rnd f64_format (of_nat (unat w))" by (intro rnd_mono) auto
  moreover have "representable f64_format 1" using representable_of_int [of 1 f64_format] by simp
  ultimately show ?thesis unfolding u64_as_f64_fin by (simp add: rnd_exact)
qed

lemma f64_percentage:
  assumes "a \<le> b" "b \<noteq> 0"
  defines "p \<equiv> f64_mul (f64_div (u64_as_f64 a) (u64_as_f64 b)) (f64_lit 100)"
  shows "is_fin p" "0 \<le> fin_val p" "fin_val p \<le> 100"
proof -
  have b: "fin_val (u64_as_f64 b) \<noteq> 0" using u64_as_f64_pos [OF assms(2)] by auto
  note q = fdiv_part_whole [OF u64_as_f64_fin(1) u64_as_f64_fin(1) u64_as_f64_mono [OF assms(1)] b, simplified]
  obtain s x where x: "f64_div (u64_as_f64 a) (u64_as_f64 b) = Fin s x" "0 \<le> x" "x \<le> 1"
    using q by (cases "f64_div (u64_as_f64 a) (u64_as_f64 b)") auto
  have h: "f64_lit 100 = Fin False 100" using f64_exact [of 100] by (simp add: f_of_nat_def)
  have r: "representable f64_format 100" using representable_of_int [of 100 f64_format] by simp
  have le: "\<bar>x * 100\<bar> \<le> 100" using x by simp
  have lt: "(100 :: rat) < 2 powi emax f64_format"
  proof -
    have "(100 :: rat) < 2 powi 7" by simp
    also have "\<dots> \<le> 2 powi emax f64_format" by (rule power_int_increasing) auto
    finally show ?thesis .
  qed
  have f: "fl f64_format s' (x * 100) = Fin (if x * 100 = 0 then s' else x * 100 < 0) (rnd f64_format (x * 100))"
    "\<bar>rnd f64_format (x * 100)\<bar> \<le> 100" for s' using fl_bounded [OF le r lt] by simp_all
  have "0 \<le> rnd f64_format (x * 100)" using x by (intro rnd_nonneg) auto
  then show "is_fin p" "0 \<le> fin_val p" "fin_val p \<le> 100"
    unfolding p_def x h using f by simp_all
qed

end
