(* ===== verification/Rust_Text.thy ===== *)
theory Rust_Text
  imports Rust_Float
begin

text \<open>
  The string operations of Rust's standard library that scaphandre uses, on byte strings of
  ASCII text: decimal printing and parsing of integers and floats (the sensors keep every
  measurement as text), trimming, splitting, replacing and searching.
\<close>

section \<open>Decimal digits\<close>

definition digit_char :: "nat \<Rightarrow> char" where
  "digit_char d = char_of (48 + d)"

definition is_digit :: "char \<Rightarrow> bool" where
  "is_digit c \<longleftrightarrow> 48 \<le> (of_char c :: nat) \<and> (of_char c :: nat) \<le> 57"

definition digit_val :: "char \<Rightarrow> nat" where
  "digit_val c = of_char c - 48"

lemma digit_char_simps [simp]:
  "d < 10 \<Longrightarrow> is_digit (digit_char d)"
  "d < 10 \<Longrightarrow> digit_val (digit_char d) = d"
  by (simp_all add: is_digit_def digit_val_def digit_char_def of_char_of)

lemma digit_char_eval:
  "digit_char 0 = CHR ''0''" "digit_char (Suc 0) = CHR ''1''" "digit_char 1 = CHR ''1''"
  "digit_char 2 = CHR ''2''" "digit_char 3 = CHR ''3''" "digit_char 4 = CHR ''4''"
  "digit_char 5 = CHR ''5''" "digit_char 6 = CHR ''6''" "digit_char 7 = CHR ''7''"
  "digit_char 8 = CHR ''8''" "digit_char 9 = CHR ''9''"
  by code_simp+

fun show_nat :: "nat \<Rightarrow> string" where
  "show_nat n = (if n < 10 then [digit_char n] else show_nat (n div 10) @ [digit_char (n mod 10)])"

declare show_nat.simps [simp del]

definition digits_val :: "string \<Rightarrow> nat" where
  "digits_val s = foldl (\<lambda>n c. 10 * n + digit_val c) 0 s"

definition parse_digits :: "string \<Rightarrow> nat option" where
  "parse_digits s = (if s \<noteq> [] \<and> list_all is_digit s then Some (digits_val s) else None)"

lemma show_nat_digits: "list_all is_digit (show_nat n)"
  by (induction n rule: show_nat.induct) (simp add: show_nat.simps)

lemma show_nat_nonempty [simp]: "show_nat n \<noteq> []"
  by (simp add: show_nat.simps)

lemma digits_val_append1 [simp]: "digits_val (s @ [c]) = 10 * digits_val s + digit_val c"
  by (simp add: digits_val_def)

lemma digits_val_show_nat [simp]: "digits_val (show_nat n) = n"
proof (induction n rule: show_nat.induct)
  case (1 n)
  then show ?case by (simp add: show_nat.simps [of n]) (simp add: digits_val_def)
qed

lemma parse_show_nat [simp]: "parse_digits (show_nat n) = Some n"
  by (simp add: parse_digits_def show_nat_digits)

section \<open>Integers\<close>

text \<open>
  \<open>str::parse\<close> for an unsigned type with \<open>m\<close> values: an optional \<open>+\<close>, at least one digit,
  nothing else, and a value that fits.
\<close>

definition parse_uint :: "nat \<Rightarrow> string \<Rightarrow> nat option" where
  "parse_uint m s =
     (case parse_digits (case s of c # cs \<Rightarrow> (if c = CHR ''+'' then cs else s) | [] \<Rightarrow> s) of
        Some n \<Rightarrow> if n < m then Some n else None
      | None \<Rightarrow> None)"

text \<open>The same for a signed type with values from \<open>- m\<close> to \<open>m - 1\<close>.\<close>

definition parse_sint :: "nat \<Rightarrow> string \<Rightarrow> int option" where
  "parse_sint m s =
     (case s of
        c # cs \<Rightarrow>
          (if c = CHR ''-''
           then (case parse_digits cs of
                   Some n \<Rightarrow> if n \<le> m then Some (- int n) else None
                 | None \<Rightarrow> None)
           else map_option int (parse_uint m s))
      | [] \<Rightarrow> None)"

definition show_int :: "int \<Rightarrow> string" where
  "show_int i = (if i < 0 then CHR ''-'' # show_nat (nat (- i)) else show_nat (nat i))"

definition parse_u64 :: "string \<Rightarrow> u64 option" where
  "parse_u64 s = map_option of_nat (parse_uint (2 ^ 64) s)"

definition parse_u16 :: "string \<Rightarrow> u16 option" where
  "parse_u16 s = map_option of_nat (parse_uint (2 ^ 16) s)"

definition parse_u128 :: "string \<Rightarrow> nat option" where
  "parse_u128 s = parse_uint (2 ^ 128) s"

definition parse_i128 :: "string \<Rightarrow> int option" where
  "parse_i128 s = parse_sint (2 ^ 127) s"

definition show_u64 :: "u64 \<Rightarrow> string" where
  "show_u64 w = show_nat (unat w)"

definition show_u16 :: "u16 \<Rightarrow> string" where
  "show_u16 w = show_nat (unat w)"

lemma is_digit_plus_minus [simp]: "\<not> is_digit CHR ''+''" "\<not> is_digit CHR ''-''"
  by (simp_all add: is_digit_def)

lemma show_nat_hd: "\<exists>c cs. show_nat n = c # cs \<and> is_digit c"
  using show_nat_digits [of n] by (cases "show_nat n") auto

lemma parse_uint_show_nat: "parse_uint m (show_nat n) = (if n < m then Some n else None)"
proof -
  obtain c cs where c: "show_nat n = c # cs" "is_digit c" using show_nat_hd by blast
  then have "c \<noteq> CHR ''+''" using is_digit_plus_minus by auto
  with c have "parse_uint m (show_nat n) =
      (case parse_digits (show_nat n) of Some n \<Rightarrow> if n < m then Some n else None | None \<Rightarrow> None)"
    by (simp add: parse_uint_def)
  then show ?thesis by simp
qed

lemma parse_u64_show_u64 [simp]: "parse_u64 (show_u64 w) = Some w"
  using unat_lt_64 [of w] by (simp add: parse_u64_def show_u64_def parse_uint_show_nat)

lemma parse_u16_show_u16 [simp]: "parse_u16 (show_u16 w) = Some w"
  using unsigned_less [of w, where ?'a = nat]
  by (simp add: parse_u16_def show_u16_def parse_uint_show_nat)

lemma parse_uint_less: "parse_uint m s = Some n \<Longrightarrow> n < m"
  by (auto simp: parse_uint_def split: option.splits if_splits)

lemma parse_sint_show_int:
  assumes "- int n \<le> i" "i < int n"
  shows "parse_sint n (show_int i) = Some i"
proof (cases "i < 0")
  case True
  then show ?thesis using assms by (simp add: parse_sint_def show_int_def)
next
  case False
  obtain c cs where c: "show_nat (nat i) = c # cs" "is_digit c" using show_nat_hd by blast
  then have "c \<noteq> CHR ''-''" using is_digit_plus_minus by auto
  then have "parse_sint n (show_nat (nat i)) = map_option int (parse_uint n (show_nat (nat i)))"
    using c(1) by (simp add: parse_sint_def)
  then show ?thesis using False assms by (simp add: show_int_def parse_uint_show_nat)
qed

lemma parse_sint_exact:
  assumes "parse_sint n (show_int i) = Some j"
  shows "j = i"
proof (cases "i < 0")
  case True
  then show ?thesis using assms by (simp add: parse_sint_def show_int_def split: if_splits)
next
  case False
  obtain c cs where c: "show_nat (nat i) = c # cs" "is_digit c" using show_nat_hd by blast
  then have "c \<noteq> CHR ''-''" using is_digit_plus_minus by auto
  then have "map_option int (parse_uint n (show_nat (nat i))) = Some j"
    using assms c(1) False by (simp add: parse_sint_def show_int_def)
  moreover have "parse_uint n (show_nat k) = Some m \<Longrightarrow> m = k" for k m
    by (simp add: parse_uint_show_nat split: if_splits)
  ultimately have "j = int (nat i)" by fastforce
  then show ?thesis using False by simp
qed

lemma parse_i128_show_int:
  assumes "- (2 ^ 127) \<le> i" and "i < 2 ^ 127"
  shows "parse_i128 (show_int i) = Some i"
  using parse_sint_show_int [of "2 ^ 127" i] assms by (simp add: parse_i128_def)

lemma show_int_inj: "show_int i = show_int j \<longleftrightarrow> i = j"
proof
  let ?n = "Suc (nat (max \<bar>i\<bar> \<bar>j\<bar>))"
  assume "show_int i = show_int j"
  then have "parse_sint ?n (show_int i) = parse_sint ?n (show_int j)" by simp
  moreover have "parse_sint ?n (show_int i) = Some i" "parse_sint ?n (show_int j) = Some j"
    by (rule parse_sint_show_int; linarith)+
  ultimately show "i = j" by simp
qed simp

lemma show_u16_inj: "show_u16 i = show_u16 j \<longleftrightarrow> i = j"
  by (metis option.inject parse_u16_show_u16)

section \<open>Trimming, splitting, replacing, searching\<close>

definition is_white :: "char \<Rightarrow> bool" where
  "is_white c \<longleftrightarrow> c = CHR '' '' \<or> (9 \<le> (of_char c :: nat) \<and> (of_char c :: nat) \<le> 13)"

definition trim :: "string \<Rightarrow> string" where
  "trim s = rev (dropWhile is_white (rev (dropWhile is_white s)))"

fun starts_with :: "string \<Rightarrow> string \<Rightarrow> bool" where
  "starts_with s [] = True"
| "starts_with [] (p # ps) = False"
| "starts_with (c # cs) (p # ps) = (c = p \<and> starts_with cs ps)"

definition strip_prefix :: "string \<Rightarrow> string \<Rightarrow> string option" where
  "strip_prefix s p = (if starts_with s p then Some (drop (length p) s) else None)"

definition strip_suffix :: "string \<Rightarrow> string \<Rightarrow> string option" where
  "strip_suffix s p = map_option rev (strip_prefix (rev s) (rev p))"

definition ends_with :: "string \<Rightarrow> string \<Rightarrow> bool" where
  "ends_with s p = starts_with (rev s) (rev p)"

fun contains :: "string \<Rightarrow> string \<Rightarrow> bool" where
  "contains [] p = (p = [])"
| "contains (c # cs) p = (starts_with (c # cs) p \<or> contains cs p)"

text \<open>\<open>str::replace\<close> of one character by a string.\<close>

definition replace_char :: "char \<Rightarrow> string \<Rightarrow> string \<Rightarrow> string" where
  "replace_char c r s = concat (map (\<lambda>x. if x = c then r else [x]) s)"

text \<open>\<open>str::split\<close> at a character, and at a string that is not empty.\<close>

fun split_char :: "char \<Rightarrow> string \<Rightarrow> string list" where
  "split_char c [] = [[]]"
| "split_char c (x # xs) =
     (if x = c then [] # split_char c xs
      else (case split_char c xs of [] \<Rightarrow> [[x]] | w # ws \<Rightarrow> (x # w) # ws))"

fun split_str :: "string \<Rightarrow> nat \<Rightarrow> string \<Rightarrow> string \<Rightarrow> string list" where
  "split_str p 0 acc s = [rev acc]"
| "split_str p (Suc n) acc [] = [rev acc]"
| "split_str p (Suc n) acc (x # xs) =
     (if starts_with (x # xs) p then rev acc # split_str p n [] (drop (length p) (x # xs))
      else split_str p n (x # acc) xs)"

definition split_on :: "string \<Rightarrow> string \<Rightarrow> string list" where
  "split_on p s = split_str p (Suc (length s)) [] s"

fun join :: "string \<Rightarrow> string list \<Rightarrow> string" where
  "join d [] = []"
| "join d [s] = s"
| "join d (s # t # ss) = s @ d @ join d (t # ss)"

lemma dropWhile_hd: "s \<noteq> [] \<Longrightarrow> \<not> P (hd s) \<Longrightarrow> dropWhile P s = s"
  by (cases s) auto

lemma trim_id: "s \<noteq> [] \<Longrightarrow> \<not> is_white (hd s) \<Longrightarrow> \<not> is_white (last s) \<Longrightarrow> trim s = s"
  by (simp add: trim_def dropWhile_hd hd_rev)

lemma trim_newline:
  "s \<noteq> [] \<Longrightarrow> \<not> is_white (hd s) \<Longrightarrow> \<not> is_white (last s) \<Longrightarrow> trim (s @ [CHR 0x0A]) = s"
  by (simp add: trim_def dropWhile_hd hd_rev is_white_def)

lemma digit_not_white: "is_digit c \<Longrightarrow> \<not> is_white c"
  by (auto simp: is_digit_def is_white_def)

lemma show_nat_not_white: "\<not> is_white (hd (show_nat n))" "\<not> is_white (last (show_nat n))"
  using show_nat_digits [of n] by (auto simp: list_all_iff intro!: digit_not_white)

lemma trim_show_nat [simp]:
  "trim (show_nat n) = show_nat n"
  "trim (show_nat n @ [CHR 0x0A]) = show_nat n"
  by (simp_all add: trim_id trim_newline show_nat_not_white)

lemma starts_with_iff: "starts_with s p \<longleftrightarrow> (\<exists>t. s = p @ t)"
  by (induction s p rule: starts_with.induct) auto

lemma contains_iff: "contains s p \<longleftrightarrow> (\<exists>u t. s = u @ p @ t)"
proof (induction s)
  case (Cons c cs)
  show ?case
  proof
    assume "contains (c # cs) p"
    then consider "starts_with (c # cs) p" | "contains cs p" by auto
    then show "\<exists>u t. c # cs = u @ p @ t"
      by cases (auto simp: starts_with_iff Cons.IH, metis append_Nil, metis append_Cons)
  next
    assume "\<exists>u t. c # cs = u @ p @ t"
    then show "contains (c # cs) p"
      by (auto simp: starts_with_iff Cons.IH Cons_eq_append_conv)
  qed
qed auto

lemma split_char_nonempty [simp]: "split_char c s \<noteq> []"
  by (cases s) (auto split: list.splits)

lemma join_split_char: "join [c] (split_char c s) = s"
proof (induction s)
  case (Cons x xs)
  then show ?case by (cases "split_char c xs" rule: list.exhaust; cases "tl (split_char c xs)") auto
qed simp

lemma split_char_no_sep: "w \<in> set (split_char c s) \<Longrightarrow> c \<notin> set w"
  by (induction s arbitrary: w) (auto split: if_splits list.splits)

lemma split_char_id: "c \<notin> set s \<Longrightarrow> split_char c s = [s]"
  by (induction s) auto

lemma split_char_append: "c \<notin> set w \<Longrightarrow> split_char c (w @ c # s) = w # split_char c s"
  by (induction w) auto

lemma split_char_join:
  assumes "ws \<noteq> []" and "\<forall>w \<in> set ws. c \<notin> set w"
  shows "split_char c (join [c] ws) = ws"
  using assms by (induction "[c]" ws rule: join.induct) (auto simp: split_char_id split_char_append)

lemma replace_char_id: "c \<notin> set s \<Longrightarrow> replace_char c r s = s"
  by (induction s) (auto simp: replace_char_def)

lemma set_replace_char: "set (replace_char c r s) \<subseteq> (set s - {c}) \<union> set r"
  by (auto simp: replace_char_def split: if_splits)

text \<open>Unfolding rules that evaluate closed text terms.\<close>

lemma trim_show_u64 [simp]: "trim (show_u64 w) = show_u64 w"
  by (simp add: show_u64_def)

lemmas text_eval = show_nat.simps digit_char_eval parse_digits_def is_digit_def digits_val_def
  digit_val_def parse_uint_def parse_sint_def show_int_def parse_u64_def parse_u16_def parse_u128_def
  parse_i128_def show_u64_def show_u16_def trim_def is_white_def strip_prefix_def strip_suffix_def
  ends_with_def replace_char_def split_on_def

end
