(* ===== verification/Float_Text.thy ===== *)
theory Float_Text
  imports Rust_Text
begin

text \<open>
  Printing and parsing of floats. \<open>show_f\<close> is \<open>Display for f32/f64\<close>: the shortest decimal
  that reads back as the same float, the closest one among the shortest, in positional
  notation. \<open>parse_f\<close> is \<open>str::parse\<close>, correctly rounded. The round trip at the end is what lets
  the sensors keep fractional measurements as text.
\<close>

section \<open>Printing\<close>

definition dec_exp :: "rat \<Rightarrow> int" where
  "dec_exp x =
     (if 1 \<le> x then int (length (show_nat (nat \<lfloor>x\<rfloor>)))
      else 1 - int (length (show_nat (nat (\<lceil>1 / x\<rceil> - 1)))))"

definition candidate :: "float_format \<Rightarrow> rat \<Rightarrow> nat \<Rightarrow> (int \<times> int) option" where
  "candidate fmt x n =
     (let e = dec_exp x - int n; u = 10 powi e; z = x / u; lo = \<lfloor>z\<rfloor>;
          lo_ok = (rnd fmt (of_int lo * u) = x);
          hi_ok = (rnd fmt (of_int (lo + 1) * u) = x)
      in if lo_ok \<and> (\<not> hi_ok \<or> z - of_int lo < 1 / 2) then Some (lo, e)
         else if hi_ok then Some (lo + 1, e) else None)"

fun shortest :: "float_format \<Rightarrow> rat \<Rightarrow> nat \<Rightarrow> nat \<Rightarrow> (int \<times> int) option" where
  "shortest fmt x n 0 = None"
| "shortest fmt x n (Suc fuel) =
     (case candidate fmt x n of Some r \<Rightarrow> Some r | None \<Rightarrow> shortest fmt x (Suc n) fuel)"

text \<open>Trailing zeros of the digit string move into the exponent.\<close>

fun strip10 :: "nat \<Rightarrow> int \<Rightarrow> nat \<times> int" where
  "strip10 c e = (if c \<noteq> 0 \<and> c mod 10 = 0 then strip10 (c div 10) (e + 1) else (c, e))"

declare strip10.simps [simp del]

definition place_point :: "nat \<Rightarrow> int \<Rightarrow> string" where
  "place_point c e =
     (let ds = show_nat c; m = nat (- e)
      in if 0 \<le> e then ds @ replicate (nat e) CHR ''0''
         else if m < length ds
         then take (length ds - m) ds @ ''.'' @ drop (length ds - m) ds
         else ''0.'' @ replicate (m - length ds) CHR ''0'' @ ds)"

definition print_fuel :: "float_format \<Rightarrow> nat" where
  "print_fuel fmt = nat (emax fmt - emin fmt + 2)"

definition show_pos :: "float_format \<Rightarrow> rat \<Rightarrow> string" where
  "show_pos fmt x =
     (case shortest fmt x 1 (print_fuel fmt) of
        Some (c, e) \<Rightarrow> (case strip10 (nat c) e of (c', e') \<Rightarrow> place_point c' e')
      | None \<Rightarrow> [])"

fun show_f :: "float_format \<Rightarrow> fval \<Rightarrow> string" where
  "show_f fmt NaN = ''NaN''"
| "show_f fmt (Inf s) = (if s then ''-inf'' else ''inf'')"
| "show_f fmt (Fin s x) =
     (if s then ''-'' else []) @ (if x = 0 then ''0'' else show_pos fmt \<bar>x\<bar>)"

section \<open>Parsing\<close>

definition to_lower :: "string \<Rightarrow> string" where
  "to_lower s =
     map (\<lambda>c. if 65 \<le> (of_char c :: nat) \<and> (of_char c :: nat) \<le> 90 then char_of (of_char c + 32 :: nat) else c) s"

definition parse_exponent :: "string \<Rightarrow> int option" where
  "parse_exponent s =
     (case s of
        [] \<Rightarrow> Some 0
      | c # cs \<Rightarrow>
          (if c = CHR ''e'' \<or> c = CHR ''E''
           then (case cs of
                   [] \<Rightarrow> None
                 | d # ds \<Rightarrow>
                     (if d = CHR ''-'' then map_option (\<lambda>n. - int n) (parse_digits ds)
                      else if d = CHR ''+'' then map_option int (parse_digits ds)
                      else map_option int (parse_digits cs)))
           else None))"

definition parse_decimal :: "string \<Rightarrow> rat option" where
  "parse_decimal s =
     (let i = takeWhile is_digit s; r = dropWhile is_digit s;
          (f, r') = (case r of
                       c # cs \<Rightarrow> (if c = CHR ''.'' then (takeWhile is_digit cs, dropWhile is_digit cs) else ([], r))
                     | [] \<Rightarrow> ([], r))
      in if i @ f = [] then None
         else map_option (\<lambda>x. of_nat (digits_val (i @ f)) * 10 powi (x - int (length f))) (parse_exponent r'))"

definition parse_unsigned_f :: "float_format \<Rightarrow> bool \<Rightarrow> string \<Rightarrow> fval option" where
  "parse_unsigned_f fmt neg s =
     (if to_lower s = ''inf'' \<or> to_lower s = ''infinity'' then Some (Inf neg)
      else if to_lower s = ''nan'' then Some NaN
      else map_option (\<lambda>v. fl fmt neg (if neg then - v else v)) (parse_decimal s))"

definition parse_f :: "float_format \<Rightarrow> string \<Rightarrow> fval option" where
  "parse_f fmt s =
     (case s of
        [] \<Rightarrow> None
      | c # cs \<Rightarrow>
          (if c = CHR ''-'' then parse_unsigned_f fmt True cs
           else if c = CHR ''+'' then parse_unsigned_f fmt False cs
           else parse_unsigned_f fmt False s))"

abbreviation parse_f64 :: "string \<Rightarrow> f64 option" where "parse_f64 \<equiv> parse_f f64_format"
abbreviation parse_f32 :: "string \<Rightarrow> f32 option" where "parse_f32 \<equiv> parse_f f32_format"
abbreviation show_f64 :: "f64 \<Rightarrow> string" where "show_f64 \<equiv> show_f f64_format"
abbreviation show_f32 :: "f32 \<Rightarrow> string" where "show_f32 \<equiv> show_f f32_format"

section \<open>Parsing of digit strings\<close>

lemma digits_val_append: "digits_val (a @ b) = digits_val a * 10 ^ length b + digits_val b"
proof (induction b rule: rev_induct)
  case (snoc c b)
  then show ?case by (simp add: algebra_simps flip: append_assoc)
qed (simp add: digits_val_def)

lemma digit_char_0: "CHR ''0'' = digit_char 0"
  by code_simp

lemma zeros_digits [simp]:
  "list_all is_digit (replicate n CHR ''0'')" "digits_val (replicate n CHR ''0'') = 0"
proof -
  show "list_all is_digit (replicate n CHR ''0'')" by (simp add: list_all_iff digit_char_0)
  show "digits_val (replicate n CHR ''0'') = 0"
  proof (induction n)
    case (Suc n)
    have "digits_val (replicate (Suc n) CHR ''0'') = digits_val (replicate n CHR ''0'' @ [CHR ''0''])"
      by (simp add: replicate_append_same)
    also have "\<dots> = 0" using Suc by (simp add: digit_char_0)
    finally show ?case .
  qed (simp add: digits_val_def)
qed

lemma span_digits:
  "list_all is_digit s \<Longrightarrow> takeWhile is_digit s = s" "list_all is_digit s \<Longrightarrow> dropWhile is_digit s = []"
  by (auto simp: list_all_iff takeWhile_eq_all_conv)

lemma span_digits_point:
  assumes "list_all is_digit s"
  shows "takeWhile is_digit (s @ CHR ''.'' # t) = s" "dropWhile is_digit (s @ CHR ''.'' # t) = CHR ''.'' # t"
proof -
  have "\<not> is_digit CHR ''.''" by (simp add: is_digit_def)
  with assms show "takeWhile is_digit (s @ CHR ''.'' # t) = s"
    "dropWhile is_digit (s @ CHR ''.'' # t) = CHR ''.'' # t"
    by (auto simp: list_all_iff takeWhile_append2 dropWhile_append2)
qed

lemma parse_decimal_digits:
  "s \<noteq> [] \<Longrightarrow> list_all is_digit s \<Longrightarrow> parse_decimal s = Some (of_nat (digits_val s))"
  by (simp add: parse_decimal_def span_digits parse_exponent_def)

lemma parse_decimal_point:
  assumes "list_all is_digit i" "list_all is_digit f" "i \<noteq> []"
  shows "parse_decimal (i @ CHR ''.'' # f) =
    Some (of_nat (digits_val (i @ f)) * 10 powi (- int (length f)))"
  using assms by (simp add: parse_decimal_def span_digits_point span_digits parse_exponent_def)

lemma parse_decimal_place_point: "parse_decimal (place_point c e) = Some (of_nat c * 10 powi e)"
proof -
  have dig: "list_all is_digit (show_nat c)" by (rule show_nat_digits)
  define m where "m = nat (- e)"
  consider "0 \<le> e" | "e < 0" "m < length (show_nat c)" | "e < 0" "\<not> m < length (show_nat c)" by linarith
  then show ?thesis
  proof cases
    case 1
    then have "place_point c e = show_nat c @ replicate (nat e) CHR ''0''" by (simp add: place_point_def Let_def)
    then show ?thesis using 1 dig
      by (simp add: parse_decimal_digits digits_val_append) (simp add: power_int_def)
  next
    case 2
    define d where "d = length (show_nat c) - m"
    have pp: "place_point c e = take d (show_nat c) @ CHR ''.'' # drop d (show_nat c)"
      using 2 by (simp add: place_point_def Let_def m_def d_def)
    have ne: "take d (show_nat c) \<noteq> []" and len: "length (drop d (show_nat c)) = m"
      using 2 by (simp_all add: d_def)
    have td: "list_all is_digit (take d (show_nat c))" and dd: "list_all is_digit (drop d (show_nat c))"
      using dig by (auto simp: list_all_iff dest: in_set_takeD in_set_dropD)
    show ?thesis unfolding pp parse_decimal_point [OF td dd ne] len using 2(1) by (simp add: m_def)
  next
    case 3
    define z where "z = replicate (m - length (show_nat c)) CHR ''0'' @ show_nat c"
    have pp: "place_point c e = ''0'' @ CHR ''.'' # z"
      using 3 by (simp add: place_point_def Let_def m_def z_def)
    have zero: "list_all is_digit ''0''" and zd: "list_all is_digit z"
      using dig zeros_digits by (simp_all only: z_def list_all_append) (simp add: digit_char_0)
    have "digits_val (''0'' @ z) = c"
      by (simp only: z_def digits_val_append zeros_digits digits_val_show_nat)
        (simp add: digits_val_def digit_char_0)
    then show ?thesis unfolding pp parse_decimal_point [OF zero zd list.distinct(2)]
      using 3 by (simp add: z_def m_def)
  qed
qed

lemma place_point_hd: "\<exists>d ds. place_point c e = d # ds \<and> is_digit d"
proof -
  obtain d ds where "show_nat c = d # ds" "is_digit d" using show_nat_hd by blast
  moreover have "is_digit CHR ''0''" by (simp add: digit_char_0)
  ultimately show ?thesis
    by (cases "length (show_nat c) - nat (- e)") (auto simp: place_point_def Let_def)
qed

section \<open>The round trip\<close>

lemma strip10_value: "strip10 c e = (c', e') \<Longrightarrow> (of_nat c' :: rat) * 10 powi e' = of_nat c * 10 powi e"
proof (induction c e rule: strip10.induct)
  case (1 c e)
  show ?case
  proof (cases "c \<noteq> 0 \<and> c mod 10 = 0")
    case True
    then have "of_nat c = (of_nat (c div 10) :: rat) * 10"
      by (metis div_mult_mod_eq add_0_right of_nat_mult of_nat_numeral)
    moreover have "(of_nat c' :: rat) * 10 powi e' = of_nat (c div 10) * 10 powi (e + 1)"
      using "1.IH" True "1.prems" by (simp add: strip10.simps [of c e])
    ultimately show ?thesis by (simp add: power_int_add)
  next
    case False
    with "1.prems" show ?thesis by (auto simp: strip10.simps [of c e] split: if_splits)
  qed
qed

lemma candidate_sound:
  assumes "candidate fmt x n = Some (c, e)" and "0 < x"
  shows "rnd fmt (of_int c * 10 powi e) = x" and "0 < c"
proof -
  show r: "rnd fmt (of_int c * 10 powi e) = x"
    using assms(1) by (auto simp: candidate_def Let_def split: if_splits)
  have "0 \<le> c" using assms by (auto simp: candidate_def Let_def split: if_splits)
  moreover have "c \<noteq> 0" using r assms(2) by auto
  ultimately show "0 < c" by simp
qed

lemma candidate_integral:
  assumes "x / 10 powi (dec_exp x - int n) = of_int z" and "rnd fmt x = x"
  shows "candidate fmt x n \<noteq> None"
proof -
  define u :: rat where "u = 10 powi (dec_exp x - int n)"
  have "u \<noteq> 0" by (simp add: u_def)
  then have "of_int z * u = x" using assms(1) by (simp add: u_def field_simps)
  then have "rnd fmt (of_int z * 10 powi (dec_exp x - int n)) = x" using assms(2) by (simp add: u_def)
  then show ?thesis using assms(1) by (simp add: candidate_def Let_def)
qed

lemma shortest_complete:
  assumes "candidate fmt x m \<noteq> None" and "n \<le> m" and "m < n + fuel"
  shows "\<exists>k. shortest fmt x n fuel = candidate fmt x k \<and> candidate fmt x k \<noteq> None"
  using assms(2,3)
proof (induction fuel arbitrary: n)
  case (Suc fuel)
  show ?case
  proof (cases "candidate fmt x n")
    case None
    with assms(1) Suc.prems have "Suc n \<le> m" by (metis Suc_leI le_neq_implies_less)
    with None Suc show ?thesis by simp
  next
    case (Some r)
    then show ?thesis by (intro exI [of _ n]) simp
  qed
qed simp

lemma show_nat_length_bounds: "0 < n \<Longrightarrow> 10 ^ (length (show_nat n) - 1) \<le> n \<and> n < 10 ^ length (show_nat n)"
proof (induction n rule: show_nat.induct)
  case (1 n)
  show ?case
  proof (cases "n < 10")
    case True
    with "1.prems" show ?thesis by (simp add: show_nat.simps [of n])
  next
    case False
    define l where "l = length (show_nat (n div 10))"
    have "0 < l" by (simp add: l_def)
    have IH: "10 ^ (l - 1) \<le> n div 10" "n div 10 < 10 ^ l" using "1.IH" False by (auto simp: l_def)
    have "10 ^ l = 10 * (10 :: nat) ^ (l - 1)" using \<open>0 < l\<close> by (cases l) auto
    then have "10 ^ l \<le> n" "n < 10 * 10 ^ l" using IH by linarith+
    then show ?thesis using False by (simp add: show_nat.simps [of n] l_def)
  qed
qed

lemma power_int_less_10: "(10 :: rat) powi i < 10 powi j \<Longrightarrow> i < j"
proof (rule ccontr)
  assume "(10 :: rat) powi i < 10 powi j" and "\<not> i < j"
  moreover have "(10 :: rat) powi j \<le> 10 powi i" using \<open>\<not> i < j\<close> by (intro power_int_increasing) auto
  ultimately show False by simp
qed

text \<open>A representable number below \<open>2 powi emax\<close> has at most \<open>emax + 1\<close> integer digits.\<close>

lemma dec_exp_le:
  assumes "x < 2 powi emax fmt" and "0 \<le> emax fmt"
  shows "dec_exp x \<le> emax fmt + 1"
proof (cases "1 \<le> x")
  case True
  define l where "l = length (show_nat (nat \<lfloor>x\<rfloor>))"
  have l: "0 < l" by (simp add: l_def)
  have "1 \<le> \<lfloor>x\<rfloor>" using True by simp
  then have "10 ^ (l - 1) \<le> nat \<lfloor>x\<rfloor>" using show_nat_length_bounds [of "nat \<lfloor>x\<rfloor>"] by (simp add: l_def)
  then have "int (10 ^ (l - 1)) \<le> \<lfloor>x\<rfloor>" using \<open>1 \<le> \<lfloor>x\<rfloor>\<close> by linarith
  then have "(10 :: rat) ^ (l - 1) \<le> x" by (simp add: le_floor_iff)
  also have "\<dots> < 2 powi emax fmt" by (rule assms(1))
  also have "\<dots> \<le> 10 powi emax fmt" using assms(2) by (simp add: power_int_def power_mono)
  finally have "(10 :: rat) powi int (l - 1) < 10 powi emax fmt" by simp
  then have "int (l - 1) < emax fmt" by (rule power_int_less_10)
  then show ?thesis using True l by (simp add: dec_exp_def l_def)
next
  case False
  then show ?thesis using assms(2) by (simp add: dec_exp_def)
qed

lemma candidate_exists:
  assumes x: "0 < x" "x < 2 powi emax fmt" and rep: "representable fmt x"
    and fmt: "0 < prec fmt" "emin fmt \<le> 0" "0 \<le> emax fmt"
  obtains n where "candidate fmt x n \<noteq> None" "1 \<le> n" "n < 1 + print_fuel fmt"
proof -
  from rep obtain m e where me: "x = of_int m * 2 powi e" "emin fmt \<le> e" by (auto simp: representable_def)
  define n where "n = nat (max 1 (dec_exp x - emin fmt))"
  define k where "k = int n - dec_exp x"
  have n: "int n = max 1 (dec_exp x - emin fmt)" by (simp add: n_def)
  then have k: "- emin fmt \<le> k" "0 \<le> k + e" "0 \<le> k" using me(2) fmt(2) by (auto simp: k_def)
  have "x / 10 powi (dec_exp x - int n) = x * 10 powi k"
    by (simp add: k_def power_int_diff)
  also have "\<dots> = of_int m * 2 powi (k + e) * 5 powi k"
    using power_int_mult_distrib [of "2 :: rat" 5 k] by (simp add: me(1) power_int_add)
  also have "\<dots> = of_int (m * 2 ^ nat (k + e) * 5 ^ nat k)"
    using k by (simp add: power_int_def)
  finally have "candidate fmt x n \<noteq> None"
    using candidate_integral rnd_exact [OF rep fmt(1)] by blast
  moreover have "1 \<le> n" using n by linarith
  moreover have "n < 1 + print_fuel fmt"
    using n dec_exp_le [OF x(2) fmt(3)] fmt(2,3) by (simp add: print_fuel_def)
  ultimately show thesis using that by blast
qed

lemma show_pos_spec:
  assumes "0 < x" "x < 2 powi emax fmt" "representable fmt x"
    and "0 < prec fmt" "emin fmt \<le> 0" "0 \<le> emax fmt"
  obtains c e where "show_pos fmt x = place_point c e" "rnd fmt (of_nat c * 10 powi e) = x"
proof -
  obtain n where "candidate fmt x n \<noteq> None" "1 \<le> n" "n < 1 + print_fuel fmt"
    using candidate_exists assms by blast
  then obtain k c e where k: "shortest fmt x 1 (print_fuel fmt) = Some (c, e)" "candidate fmt x k = Some (c, e)"
    using shortest_complete [of fmt x n 1 "print_fuel fmt"] by auto
  obtain c' e' where s: "strip10 (nat c) e = (c', e')" by (cases "strip10 (nat c) e")
  have "(of_nat c' :: rat) * 10 powi e' = of_int c * 10 powi e"
    using strip10_value [OF s] candidate_sound [OF k(2) assms(1)] by simp
  then have "rnd fmt (of_nat c' * 10 powi e') = x" using candidate_sound [OF k(2) assms(1)] by simp
  moreover have "show_pos fmt x = place_point c' e'" using k(1) s by (simp add: show_pos_def)
  ultimately show thesis using that by blast
qed

text \<open>Digit strings are never the words for infinity or NaN.\<close>

lemma to_lower_digit: "is_digit d \<Longrightarrow> to_lower (d # ds) = d # to_lower ds"
  by (auto simp: to_lower_def is_digit_def)

lemma parse_unsigned_digit:
  assumes "is_digit d"
  shows "parse_unsigned_f fmt neg (d # ds) =
    map_option (\<lambda>v. fl fmt neg (if neg then - v else v)) (parse_decimal (d # ds))"
proof -
  have "d \<noteq> CHR ''i''" "d \<noteq> CHR ''n''" using assms by (auto simp: is_digit_def)
  then show ?thesis using assms by (simp add: parse_unsigned_f_def to_lower_digit)
qed

text \<open>A value of the format: representable, in range, with the sign bit of its value.\<close>

fun valid_f :: "float_format \<Rightarrow> fval \<Rightarrow> bool" where
  "valid_f fmt (Fin s x) \<longleftrightarrow>
     representable fmt x \<and> \<bar>x\<bar> < 2 powi emax fmt \<and> (x \<noteq> 0 \<longrightarrow> s = (x < 0))"
| "valid_f fmt _ \<longleftrightarrow> True"

lemma fl_valid:
  assumes "0 < prec fmt"
  shows "valid_f fmt (fl fmt s x)"
proof -
  have "x < 0 \<Longrightarrow> rnd fmt x \<le> 0" using rnd_mono [of x 0 fmt] assms by simp
  moreover have "0 \<le> x \<Longrightarrow> 0 \<le> rnd fmt x" using assms by (rule rnd_nonneg [rotated])
  ultimately show ?thesis by (force simp: fl_def Let_def rnd_representable)
qed

lemma parse_place_point:
  assumes r: "rnd fmt (of_nat c * 10 powi e) = \<bar>x\<bar>" and x: "x \<noteq> 0" "s = (x < 0)" "\<bar>x\<bar> < 2 powi emax fmt"
  shows "parse_unsigned_f fmt s (place_point c e) = Some (Fin s x)"
proof -
  define v :: rat where "v = of_nat c * 10 powi e"
  have "c \<noteq> 0" using r x(1) by (cases c) auto
  then have v: "0 < v" "rnd fmt v = \<bar>x\<bar>"
    using r by (simp_all add: v_def zero_less_mult_iff zero_less_power_int)
  obtain d ds where d: "place_point c e = d # ds" "is_digit d" using place_point_hd by blast
  have "parse_unsigned_f fmt s (place_point c e) = Some (fl fmt s (if s then - v else v))"
    using parse_unsigned_digit [OF d(2), of fmt s ds] parse_decimal_place_point [of c e]
    by (simp add: d(1) v_def)
  also have "fl fmt s (if s then - v else v) = Fin s x"
    using v x by (auto simp: fl_def Let_def rnd_uminus)
  finally show ?thesis .
qed

lemma parse_f_unsigned: "is_digit d \<Longrightarrow> parse_f fmt (d # ds) = parse_unsigned_f fmt False (d # ds)"
  by (auto simp: parse_f_def)

text \<open>Every finite float reads back from its printed form, sign of zero included.\<close>

lemma parse_show_f:
  assumes "valid_f fmt (Fin s x)" and fmt: "0 < prec fmt" "emin fmt \<le> 0" "0 \<le> emax fmt"
  shows "parse_f fmt (show_f fmt (Fin s x)) = Some (Fin s x)"
proof (cases "x = 0")
  case True
  have "is_digit CHR ''0''" by (simp add: digit_char_0)
  then have "parse_unsigned_f fmt s ''0'' = Some (Fin s 0)"
    by (simp add: parse_unsigned_digit parse_decimal_digits fl_def not_le)
      (simp add: digits_val_def digit_char_0)
  then show ?thesis using True \<open>is_digit CHR ''0''\<close>
    by (cases s) (simp_all add: parse_f_def)
next
  case False
  then have x: "0 < \<bar>x\<bar>" "\<bar>x\<bar> < 2 powi emax fmt" "representable fmt \<bar>x\<bar>" "s = (x < 0)"
    using assms(1) by (auto simp: abs_if representable_uminus)
  obtain c e where c: "show_pos fmt \<bar>x\<bar> = place_point c e" "rnd fmt (of_nat c * 10 powi e) = \<bar>x\<bar>"
    using show_pos_spec [OF x(1-3) fmt] by blast
  note p = parse_place_point [OF c(2) False x(4,2)]
  obtain d ds where "place_point c e = d # ds" "is_digit d" using place_point_hd by blast
  then show ?thesis using p c(1) False
    by (cases s) (simp_all add: parse_f_unsigned, simp add: parse_f_def)
qed

lemma parse_show_f64: "valid_f f64_format (Fin s x) \<Longrightarrow> parse_f64 (show_f64 (Fin s x)) = Some (Fin s x)"
  by (rule parse_show_f) auto

text \<open>A decimal integer read as a float is the nearest float.\<close>

lemma parse_f_None: "parse_f fmt s = None \<longleftrightarrow> parse_f fmt' s = None"
  by (auto simp: parse_f_def parse_unsigned_f_def split: list.split)

lemma parse_f_show_nat: "parse_f fmt (show_nat n) = Some (f_of_nat fmt n)"
proof -
  obtain d ds where d: "show_nat n = d # ds" "is_digit d" using show_nat_hd by blast
  then have "parse_f fmt (show_nat n) = map_option (\<lambda>v. fl fmt False v) (parse_decimal (show_nat n))"
    by (simp add: parse_f_unsigned parse_unsigned_digit)
  then show ?thesis by (simp add: parse_decimal_digits show_nat_digits f_of_nat_def)
qed

lemma parse_f64_show_u64 [simp]: "parse_f64 (show_u64 w) = Some (u64_as_f64 w)"
  by (simp add: show_u64_def u64_as_f64_def parse_f_show_nat)

text \<open>Printed floats, infinities and NaN included, survive trimming and parsing.\<close>

lemma place_point_last: "is_digit (last (place_point c e))"
proof -
  obtain ds where ds: "show_nat c = ds" by blast
  have d: "list_all is_digit ds" "ds \<noteq> []" using show_nat_digits [of c] show_nat_hd [of c] ds by auto
  have z: "is_digit CHR ''0''" by (simp add: digit_char_0)
  have l: "is_digit (last ds)" using d by (simp add: list_all_iff)
  have r: "is_digit (last (ds @ replicate n CHR ''0''))" for n using l z by (cases n) auto
  have t: "is_digit (last (a @ drop n ds))" if "n < length ds" for a n
    using l that by simp
  show ?thesis
  proof (cases "0 \<le> e")
    case True
    then show ?thesis using r by (simp add: place_point_def ds)
  next
    case False
    then have "nat (- e) < length ds \<Longrightarrow> length ds - nat (- e) < length ds" by simp
    then show ?thesis using False t [of "length ds - nat (- e)" "take (length ds - nat (- e)) ds @ ''.''"] l d(2)
      by (simp add: place_point_def ds Let_def)
  qed
qed

lemma show_f_not_white:
  assumes "valid_f fmt v" and "0 < prec fmt" "emin fmt \<le> 0" "0 \<le> emax fmt"
  shows "show_f fmt v \<noteq> [] \<and> \<not> is_white (hd (show_f fmt v)) \<and> \<not> is_white (last (show_f fmt v))"
proof (cases v)
  case (Fin s x)
  have m: "\<not> is_white CHR ''-''" "\<not> is_white CHR ''0''" by (simp_all add: is_white_def)
  show ?thesis
  proof (cases "x = 0")
    case True
    then show ?thesis using m Fin by simp
  next
    case False
    have h: "0 < \<bar>x\<bar>" "\<bar>x\<bar> < 2 powi emax fmt" "representable fmt \<bar>x\<bar>"
      using assms(1) Fin False by (auto simp: representable_uminus abs_if)
    obtain c e where "show_pos fmt \<bar>x\<bar> = place_point c e" "rnd fmt (of_nat c * 10 powi e) = \<bar>x\<bar>"
      by (rule show_pos_spec [OF h assms(2-4)])
    moreover obtain d ds where "place_point c e = d # ds" "is_digit d" using place_point_hd by blast
    moreover have "is_digit (last (place_point c e))" by (rule place_point_last)
    ultimately show ?thesis using False m Fin by (auto dest: digit_not_white)
  qed
qed (auto simp: is_white_def)

lemma parse_show_f_valid:
  assumes "valid_f fmt v" and "0 < prec fmt" "emin fmt \<le> 0" "0 \<le> emax fmt"
  shows "parse_f fmt (show_f fmt v) = Some v"
proof (cases v)
  case (Fin s x)
  then show ?thesis using assms parse_show_f by blast
next
  case NaN
  have "to_lower ''NaN'' = ''nan''" by code_simp
  then show ?thesis using NaN by (simp add: parse_f_def parse_unsigned_f_def)
qed (auto simp: parse_f_def parse_unsigned_f_def to_lower_def)

lemma show_f64_trim [simp]: "valid_f f64_format v \<Longrightarrow> trim (show_f64 v) = show_f64 v"
  using show_f_not_white [of f64_format v] by (intro trim_id) auto

lemma parse_show_f64_valid [simp]: "valid_f f64_format v \<Longrightarrow> parse_f64 (show_f64 v) = Some v"
  by (rule parse_show_f_valid) auto

lemma valid_f_ops:
  assumes "0 < prec fmt"
  shows "valid_f fmt (fadd fmt a b)" "valid_f fmt (fmul fmt a b)" "valid_f fmt (fdiv fmt a b)" "valid_f fmt (fsub fmt a b)"
    "valid_f fmt (f_of_nat fmt n)" "valid_f fmt (Fin s 0)"
proof -
  show z: "valid_f fmt (Fin s 0)" for s
    by (auto simp: representable_def intro!: exI [of _ 0] exI [of _ "emin fmt"])
  show "valid_f fmt (fadd fmt a b)" for a b using assms by (cases a; cases b) (auto simp: fl_valid)
  then show "valid_f fmt (fsub fmt a b)" by (simp add: fsub_def)
  show "valid_f fmt (fmul fmt a b)" using assms by (cases a; cases b) (auto simp: fl_valid)
  show "valid_f fmt (fdiv fmt a b)" using assms z by (cases a; cases b) (auto simp: fl_valid)
  show "valid_f fmt (f_of_nat fmt n)" using assms by (simp add: f_of_nat_def fl_valid)
qed

lemma valid_fsum: "0 < prec fmt \<Longrightarrow> valid_f fmt (fsum fmt xs)"
proof (cases xs rule: rev_cases)
  case Nil
  then show "0 < prec fmt \<Longrightarrow> valid_f fmt (fsum fmt xs)" using valid_f_ops(6) by (simp add: fsum_def)
next
  case (snoc ys y)
  then show "0 < prec fmt \<Longrightarrow> valid_f fmt (fsum fmt xs)" using valid_f_ops(1) by (simp add: fsum_def)
qed

text \<open>The printed form of a float can be read in every format.\<close>

lemma parse_show_f_other:
  assumes "valid_f fmt v" "0 < prec fmt" "emin fmt \<le> 0" "0 \<le> emax fmt"
  shows "\<exists>y. parse_f fmt' (show_f fmt v) = Some y"
proof -
  have d: "\<exists>y. parse_f fmt' ((if s then ''-'' else []) @ place_point c e) = Some y" for s c e
  proof -
    obtain d ds where d: "place_point c e = d # ds" "is_digit d" using place_point_hd by blast
    then show ?thesis using parse_unsigned_digit [OF d(2), of fmt' s ds] parse_decimal_place_point [of c e]
      by (cases s) (simp_all add: parse_f_unsigned, simp add: parse_f_def)
  qed
  show ?thesis
  proof (cases v)
    case (Fin s x)
    show ?thesis
    proof (cases "x = 0")
      case True
      have "place_point 0 0 = ''0''" by (simp add: place_point_def text_eval)
      then show ?thesis using d [of s 0 0] Fin True by simp
    next
      case False
      then have x: "0 < \<bar>x\<bar>" "\<bar>x\<bar> < 2 powi emax fmt" "representable fmt \<bar>x\<bar>"
        using assms(1) Fin by (auto simp: abs_if representable_uminus)
      obtain c e where "show_pos fmt \<bar>x\<bar> = place_point c e" using show_pos_spec [OF x assms(2-4)] by blast
      then show ?thesis using d [of s c e] Fin False by simp
    qed
  next
    case NaN
    have "to_lower ''NaN'' = ''nan''" by code_simp
    then show ?thesis using NaN by (simp add: parse_f_def parse_unsigned_f_def)
  qed (auto simp: parse_f_def parse_unsigned_f_def to_lower_def)
qed

end
