(* ===== verification/Units.thy ===== *)
theory Units
  imports Float_Text
begin

text \<open>
  \<open>scaphandre/src/sensors/units.rs\<close>: the units of a record, their names, their equality (by
  debug name) and the conversion between energy units or between power units.
\<close>

datatype Unit =
    Numeric
  | Joule
  | MilliJoule
  | MicroJoule
  | MegaWatt
  | KiloWatt
  | Watt
  | MilliWatt
  | MicroWatt
  | Percentage
  | Bytes
  | KiloBytes
  | MegaBytes
  | GigaBytes
  | MegaHertz
  | MicroSeconds
  | Cycles

text \<open>The name \<open>derive(Debug)\<close> prints, and the \<open>Display\<close> implementation.\<close>

fun Unit_debug :: "Unit \<Rightarrow> string" where
  "Unit_debug Numeric = ''Numeric''"
| "Unit_debug Joule = ''Joule''"
| "Unit_debug MilliJoule = ''MilliJoule''"
| "Unit_debug MicroJoule = ''MicroJoule''"
| "Unit_debug MegaWatt = ''MegaWatt''"
| "Unit_debug KiloWatt = ''KiloWatt''"
| "Unit_debug Watt = ''Watt''"
| "Unit_debug MilliWatt = ''MilliWatt''"
| "Unit_debug MicroWatt = ''MicroWatt''"
| "Unit_debug Percentage = ''Percentage''"
| "Unit_debug Bytes = ''Bytes''"
| "Unit_debug KiloBytes = ''KiloBytes''"
| "Unit_debug MegaBytes = ''MegaBytes''"
| "Unit_debug GigaBytes = ''GigaBytes''"
| "Unit_debug MegaHertz = ''MegaHertz''"
| "Unit_debug MicroSeconds = ''MicroSeconds''"
| "Unit_debug Cycles = ''Cycles''"

fun Unit_fmt :: "Unit \<Rightarrow> string" where
  "Unit_fmt Joule = ''Joules''"
| "Unit_fmt MilliJoule = ''MilliJoules''"
| "Unit_fmt MicroJoule = ''MicroJoules''"
| "Unit_fmt MilliWatt = ''MilliWatts''"
| "Unit_fmt MicroWatt = ''MicroWatts''"
| "Unit_fmt Watt = ''Watts''"
| "Unit_fmt KiloWatt = ''KiloWatts''"
| "Unit_fmt MegaWatt = ''MegaWatts''"
| "Unit_fmt Percentage = ''Percentage''"
| "Unit_fmt Bytes = ''Bytes''"
| "Unit_fmt KiloBytes = ''KiloBytes''"
| "Unit_fmt MegaBytes = ''MegaBytes''"
| "Unit_fmt GigaBytes = ''GigaBytes''"
| "Unit_fmt MegaHertz = ''MegaHertz''"
| "Unit_fmt MicroSeconds = ''MicroSeconds''"
| "Unit_fmt Cycles = ''Cycles''"
| "Unit_fmt Numeric = []"

definition Unit_eq :: "Unit \<Rightarrow> Unit \<Rightarrow> bool" where
  "Unit_eq a b \<longleftrightarrow> Unit_debug a = Unit_debug b"

definition energy_order :: "Unit list" where
  "energy_order = [Joule, MilliJoule, MicroJoule]"

definition power_order :: "Unit list" where
  "power_order = [MegaWatt, KiloWatt, Watt, MilliWatt, MicroWatt]"

text \<open>\<open>iter().position(p)\<close>\<close>

fun position :: "('a \<Rightarrow> bool) \<Rightarrow> 'a list \<Rightarrow> nat option" where
  "position p [] = None"
| "position p (x # xs) = (if p x then Some 0 else map_option Suc (position p xs))"

text \<open>\<open>1000.0.powf(n as f64)\<close> for a whole exponent.\<close>

definition powf_1000 :: "nat \<Rightarrow> f64" where
  "powf_1000 n = f64_lit (1000 ^ n)"

definition get_mult :: "nat \<Rightarrow> nat \<Rightarrow> f64" where
  "get_mult pos_source pos_dest =
     (let mult = f64_lit 1
      in if pos_dest > pos_source then f64_mul mult (powf_1000 (pos_dest - pos_source))
         else if pos_dest < pos_source then f64_div mult (powf_1000 (pos_source - pos_dest))
         else mult)"

text \<open>The \<open>Err\<close> side of the result is never built: a conversion returns a value or panics.\<close>

definition Unit_to :: "f64 \<Rightarrow> Unit \<Rightarrow> Unit \<Rightarrow> f64 res" where
  "Unit_to m source_unit dest_unit =
     (let pos_source_energy = position (\<lambda>x. Unit_eq x source_unit) energy_order;
          pos_dest_energy = position (\<lambda>x. Unit_eq x dest_unit) energy_order;
          pos_source_power = position (\<lambda>x. Unit_eq x source_unit) power_order;
          pos_dest_power = position (\<lambda>x. Unit_eq x dest_unit) power_order
      in case (pos_source_energy, pos_dest_energy) of
           (Some s, Some d) \<Rightarrow> Inr (f64_mul m (get_mult s d))
         | _ \<Rightarrow> (case (pos_source_power, pos_dest_power) of
               (Some s, Some d) \<Rightarrow> Inr (f64_mul m (get_mult s d))
             | _ \<Rightarrow> Inl (Explicit_Panic
                 ''Unimplemented or impossible conversion (if asked from energy value to power value without time dimension).'')))"

section \<open>Equality and dimension\<close>

lemma Unit_debug_inj: "Unit_debug a = Unit_debug b \<longleftrightarrow> a = b"
  by (cases a; cases b) simp_all

lemma Unit_eq_iff [simp]: "Unit_eq a b \<longleftrightarrow> a = b"
  by (simp add: Unit_eq_def Unit_debug_inj)

lemma position_less: "position p xs = Some i \<Longrightarrow> i < length xs \<and> p (xs ! i)"
  by (induction xs arbitrary: i) (auto split: if_splits)

lemma position_None_iff: "position p xs = None \<longleftrightarrow> (\<forall>x \<in> set xs. \<not> p x)"
  by (induction xs) auto

text \<open>The exponent of ten of a unit, and whether two units share a dimension.\<close>

fun unit_scale :: "Unit \<Rightarrow> int" where
  "unit_scale MilliJoule = - 3"
| "unit_scale MicroJoule = - 6"
| "unit_scale MegaWatt = 6"
| "unit_scale KiloWatt = 3"
| "unit_scale MilliWatt = - 3"
| "unit_scale MicroWatt = - 6"
| "unit_scale _ = 0"

definition same_dimension :: "Unit \<Rightarrow> Unit \<Rightarrow> bool" where
  "same_dimension a b \<longleftrightarrow>
     a \<in> set energy_order \<and> b \<in> set energy_order \<or> a \<in> set power_order \<and> b \<in> set power_order"

lemma powf_1000_exact:
  assumes "n \<le> 4"
  shows "powf_1000 n = Fin False (1000 ^ n)"
proof -
  have "(1000 :: nat) ^ n \<le> 1000 ^ 4" using assms by (intro power_increasing) auto
  then have "f_of_nat f64_format (1000 ^ n) = Fin False (of_nat (1000 ^ n))"
    by (intro f_of_nat_exact) (auto simp: f64_format_def)
  then show ?thesis by (simp add: powf_1000_def f_of_nat_def)
qed

lemma get_mult_up:
  assumes "s \<le> d" "d \<le> s + 4"
  shows "get_mult s d = Fin False (1000 ^ (d - s))"
proof -
  have one: "f64_lit 1 = Fin False 1" using powf_1000_exact [of 0] by (simp add: powf_1000_def)
  have p: "powf_1000 (d - s) = Fin False (1000 ^ (d - s))" using assms by (intro powf_1000_exact) simp
  then have "f64_mul (Fin False 1) (powf_1000 (d - s)) = Fin False (1000 ^ (d - s))"
    by (simp add: powf_1000_def)
  then show ?thesis using assms(1) one by (auto simp: get_mult_def Let_def)
qed

lemma position_energy_order:
  "position (\<lambda>x. x = u) energy_order =
     (if u \<in> set energy_order then Some (nat (- unit_scale u div 3)) else None)"
  by (cases u) (simp_all add: energy_order_def)

lemma position_power_order:
  "position (\<lambda>x. x = u) power_order =
     (if u \<in> set power_order then Some (nat ((6 - unit_scale u) div 3)) else None)"
  by (cases u) (simp_all add: power_order_def)

lemma energy_scale: "u \<in> set energy_order \<Longrightarrow> unit_scale u \<in> {0, - 3, - 6}"
  by (auto simp: energy_order_def)

lemma power_scale: "u \<in> set power_order \<Longrightarrow> unit_scale u \<in> {6, 3, 0, - 3, - 6}"
  by (auto simp: power_order_def)

lemma energy_power_disjoint: "u \<in> set energy_order \<Longrightarrow> u \<notin> set power_order"
  by (auto simp: energy_order_def power_order_def)

lemma Unit_to_same_dimension:
  assumes "same_dimension a b"
  shows "\<exists>s d. s < 5 \<and> d < 5 \<and> unit_scale a - unit_scale b = 3 * (int d - int s) \<and>
    (\<forall>m. Unit_to m a b = Inr (f64_mul m (get_mult s d)))"
proof (cases "a \<in> set energy_order \<and> b \<in> set energy_order")
  case True
  let ?s = "nat (- unit_scale a div 3)" and ?d = "nat (- unit_scale b div 3)"
  have "?s < 5 \<and> ?d < 5 \<and> unit_scale a - unit_scale b = 3 * (int ?d - int ?s)"
    using energy_scale [of a] energy_scale [of b] True by auto
  moreover have "Unit_to m a b = Inr (f64_mul m (get_mult ?s ?d))" for m
    using True by (simp add: Unit_to_def Let_def position_energy_order)
  ultimately show ?thesis by blast
next
  case False
  then have p: "a \<in> set power_order" "b \<in> set power_order"
    using assms by (auto simp: same_dimension_def)
  let ?s = "nat ((6 - unit_scale a) div 3)" and ?d = "nat ((6 - unit_scale b) div 3)"
  have "?s < 5 \<and> ?d < 5 \<and> unit_scale a - unit_scale b = 3 * (int ?d - int ?s)"
    using power_scale [OF p(1)] power_scale [OF p(2)] by auto
  moreover have "Unit_to m a b = Inr (f64_mul m (get_mult ?s ?d))" for m
    using False p by (auto simp: Unit_to_def Let_def position_energy_order position_power_order)
  ultimately show ?thesis by blast
qed

lemma Unit_to_other_dimension:
  "\<not> same_dimension a b \<Longrightarrow> \<exists>msg. Unit_to m a b = Inl (Explicit_Panic msg)"
  by (auto simp: Unit_to_def Let_def same_dimension_def position_energy_order position_power_order
      split: option.split)

text \<open>
  A conversion panics exactly when the two units are not both energies or both powers, the
  only case the message of the panic announces; in the other cases it returns a float.
\<close>

theorem Unit_to_panics_iff: "isl (Unit_to m a b) \<longleftrightarrow> \<not> same_dimension a b"
proof (cases "same_dimension a b")
  case True
  then show ?thesis using Unit_to_same_dimension by force
next
  case False
  then show ?thesis using Unit_to_other_dimension [OF False, of m] by auto
qed

text \<open>
  Converting a finite measure to a smaller unit of the same dimension is one correctly rounded
  multiplication by the exact power of ten between the two units.
\<close>

theorem Unit_to_smaller_unit:
  assumes "same_dimension a b" and "unit_scale b \<le> unit_scale a"
  shows "Unit_to (Fin s x) a b = Inr (fl f64_format s (x * 10 ^ nat (unit_scale a - unit_scale b)))"
proof -
  obtain i j where ij: "i < 5" "j < 5" "unit_scale a - unit_scale b = 3 * (int j - int i)"
    "Unit_to (Fin s x) a b = Inr (f64_mul (Fin s x) (get_mult i j))"
    using Unit_to_same_dimension [OF assms(1)] by blast
  have "0 \<le> 3 * (int j - int i)" using ij(3) assms(2) by linarith
  then have le: "i \<le> j" by simp
  have "unit_scale a - unit_scale b = int (3 * (j - i))" using ij(3) le by (simp add: of_nat_diff)
  then have "nat (unit_scale a - unit_scale b) = 3 * (j - i)" by simp
  then have "(10 :: rat) ^ nat (unit_scale a - unit_scale b) = 1000 ^ (j - i)"
    by (simp add: power_mult)
  moreover have "get_mult i j = Fin False (1000 ^ (j - i))" using get_mult_up le ij(2) by simp
  ultimately show ?thesis using ij(4) by simp
qed

end
