(* ===== verification/Environment.thy ===== *)
theory Environment
  imports Units
begin

text \<open>
  What the program reads from outside: the clock, the file system, \<open>/proc\<close> through procfs, the
  process table through sysinfo, the perf counters and the eBPF maps. An \<open>env\<close> is the observation
  of all of these at one instant; every operation that reads the outside takes the observation it
  reads as an argument. The types that belong to other crates are records of the accessors the
  sources call, and the crates' own code stays a field (a parameter) of \<open>env\<close>.
\<close>

type_synonym Pid = int

text \<open>\<open>scaphandre-common/src/lib.rs\<close>: the events the kernel side sends through the ring buffer.\<close>

datatype CpuEventType = ActivationEvent | IdleEvent

record CpuStateEvent =
  ev_socket_id :: u16
  ev_event_type :: CpuEventType

text \<open>procfs: \<open>CpuTime\<close> and \<open>KernelStats\<close>.\<close>

record CpuTime =
  ct_user :: u64
  ct_nice :: u64
  ct_system :: u64
  ct_idle :: u64
  ct_iowait :: "u64 option"
  ct_irq :: "u64 option"
  ct_softirq :: "u64 option"
  ct_steal :: "u64 option"
  ct_guest :: "u64 option"
  ct_guest_nice :: "u64 option"

record KernelStats =
  ks_total :: CpuTime
  ks_cpu_time :: "CpuTime list"
  ks_ctxt :: u64
  ks_processes :: u64
  ks_procs_running :: "u32 option"
  ks_procs_blocked :: "u32 option"

text \<open>perf_event: a counter of one hardware event on one CPU, and what a read of it returns.\<close>

datatype Hardware = INSTRUCTIONS | CPU_CYCLES

type_synonym Counter = "Hardware \<times> nat"

record CountAndTime =
  pc_count :: u64
  pc_time_enabled :: u64
  pc_time_running :: u64

text \<open>
  sysinfo: processes, CPUs, disks and the system. A path that is not UTF-8 (\<open>to_str()\<close> is
  \<open>None\<close>) is \<open>None\<close>.
\<close>

datatype ProcessStatus =
    Idle | Run | Sleep | Stop | Zombie | Tracing | Dead | Wakekill | Waking | Parked
  | LockBlocked | UninterruptibleDiskSleep | UnknownStatus u32

record Process =
  sp_pid :: Pid
  sp_exe :: "string option"
  sp_cmd :: "string list"
  sp_cpu_usage :: f32
  sp_memory :: u64
  sp_virtual_memory :: u64
  sp_read_bytes :: u64
  sp_written_bytes :: u64
  sp_total_read_bytes :: u64
  sp_total_written_bytes :: u64
  sp_status :: ProcessStatus

record Cpu =
  cpu_name :: string
  cpu_frequency :: u64
  cpu_vendor_id :: string
  cpu_brand :: string

datatype DiskType = HDD | SSD | Unknown

record Disk =
  disk_file_system :: "string option"
  disk_mount_point :: "string option"
  disk_type :: DiskType
  disk_is_removable :: bool
  disk_name :: "string option"
  disk_total_space :: u64
  disk_available_space :: u64

record System =
  sys_processes :: "(Pid, Process) hmap"
  sys_cpus :: "Cpu list"
  sys_disks :: "Disk list"
  sys_load_one :: f64
  sys_load_five :: f64
  sys_load_fifteen :: f64
  sys_global_frequency :: u64
  sys_global_cpu_usage :: f32
  sys_total_memory :: u64
  sys_available_memory :: u64
  sys_free_memory :: u64
  sys_total_swap :: u64
  sys_free_swap :: u64

text \<open>
  The observation. \<open>e_read_dir\<close> gives the file names of a directory, \<open>None\<close> for an entry that
  cannot be read; \<open>e_read_at\<close> the bytes a positioned read of at most eight bytes returns.
\<close>

record env =
  e_now :: duration
  e_read_to_string :: "string \<Rightarrow> string option"
  e_read_dir :: "string \<Rightarrow> string option list option"
  e_is_dir :: "string \<Rightarrow> bool"
  e_read_at :: "string \<Rightarrow> u64 \<Rightarrow> u8 list option"
  e_kernel_stats :: "KernelStats option"
  e_cpuinfo :: "(nat \<Rightarrow> (string, string) hmap option) option"
  e_proc_times :: "Pid \<Rightarrow> (u64 \<times> u64) option"
  e_proc_cgroups :: "Pid \<Rightarrow> string list option"
  e_perf_open :: "Counter \<Rightarrow> bool"
  e_perf_read :: "Counter \<Rightarrow> CountAndTime option"
  e_ring_items :: "u8 list list"
  e_cpu_time :: "u32 \<Rightarrow> u64 option"
  e_pid_times :: "u32 \<Rightarrow> u64 list option"
  e_system_new_all :: System
  e_refresh_processes :: "System \<Rightarrow> System"
  e_refresh_system :: "System \<Rightarrow> System"
  e_current_pid :: Pid

text \<open>\<open>sensors/utils.rs\<close>, \<open>current_system_time_since_epoch\<close>: the clock reads after the epoch.\<close>

definition current_system_time_since_epoch :: "env \<Rightarrow> duration" where
  "current_system_time_since_epoch e = e_now e"

text \<open>\<open>entry.path()\<close> and \<open>path.join(name)\<close>.\<close>

definition path_join :: "string \<Rightarrow> string \<Rightarrow> string" where
  "path_join dir name = dir @ ''/'' @ name"

text \<open>
  An operation made of several reads sees the outside at several instants. A \<open>world\<close> gives the
  observation at each of them, addressed by the path of the read in the calls of the operation.
\<close>

type_synonym world = "nat list \<Rightarrow> env"

definition sub_world :: "nat \<Rightarrow> world \<Rightarrow> world" where
  "sub_world i w = (\<lambda>p. w (i # p))"

text \<open>A neutral observation, for concrete runs.\<close>

definition env0 :: env where
  "env0 = \<lparr>e_now = Duration 0 0, e_read_to_string = (\<lambda>_. None), e_read_dir = (\<lambda>_. None),
     e_is_dir = (\<lambda>_. False), e_read_at = (\<lambda>_ _. None), e_kernel_stats = None,
     e_cpuinfo = None, e_proc_times = (\<lambda>_. None), e_proc_cgroups = (\<lambda>_. None),
     e_perf_open = (\<lambda>_. False), e_perf_read = (\<lambda>_. None), e_ring_items = [],
     e_cpu_time = (\<lambda>_. None), e_pid_times = (\<lambda>_. None),
     e_system_new_all = \<lparr>sys_processes = [], sys_cpus = [], sys_disks = [],
       sys_load_one = f_zero, sys_load_five = f_zero, sys_load_fifteen = f_zero,
       sys_global_frequency = 0, sys_global_cpu_usage = f_zero, sys_total_memory = 0,
       sys_available_memory = 0, sys_free_memory = 0, sys_total_swap = 0, sys_free_swap = 0\<rparr>,
     e_refresh_processes = id, e_refresh_system = id, e_current_pid = 1\<rparr>"

end
