(* ===== verification/Records.thy ===== *)
theory Records
  imports Environment
begin

text \<open>
  \<open>scaphandre/src/sensors/mod.rs\<close>: records, multi-valued records, CPU statistics, and the bounded
  buffer every record generator keeps. The locale \<open>record_generator\<close> states the contract of the
  \<open>RecordGenerator\<close> and \<open>MultiValuedRecordGenerator\<close> traits; domains, sockets, cores and the
  topology interpret it, and what it proves is that the buffer is a sliding window of the records
  read so far.
\<close>

section \<open>Data\<close>

record Record =
  timestamp :: duration
  rec_value :: string
  rec_unit :: Unit

definition Record_new :: "duration \<Rightarrow> string \<Rightarrow> Unit \<Rightarrow> Record" where
  "Record_new ts v u = \<lparr>timestamp = ts, rec_value = v, rec_unit = u\<rparr>"

record MultiValuedRecord =
  mv_timestamp :: duration
  mv_values :: "string list"
  mv_units :: "Unit list"

definition MultiValuedRecord_new :: "duration \<Rightarrow> string list \<Rightarrow> Unit list \<Rightarrow> MultiValuedRecord" where
  "MultiValuedRecord_new ts vs us = \<lparr>mv_timestamp = ts, mv_values = vs, mv_units = us\<rparr>"

record CPUStat =
  st_user :: u64
  st_nice :: u64
  st_system :: u64
  st_idle :: u64
  st_irq :: "u64 option"
  st_iowait :: "u64 option"
  st_softirq :: "u64 option"
  st_steal :: "u64 option"
  st_guest :: "u64 option"
  st_guest_nice :: "u64 option"

definition or_zero :: "u64 option \<Rightarrow> u64" where
  "or_zero m = (case m of None \<Rightarrow> 0 | Some v \<Rightarrow> v)"

lemma or_zero_simps [simp]: "or_zero None = 0" "or_zero (Some v) = v"
  by (simp_all add: or_zero_def)

definition from_procfs_cputime :: "CpuTime \<Rightarrow> CPUStat" where
  "from_procfs_cputime ct =
     \<lparr>st_user = ct_user ct, st_nice = ct_nice ct, st_system = ct_system ct, st_idle = ct_idle ct,
      st_irq = ct_irq ct, st_iowait = ct_iowait ct, st_softirq = ct_softirq ct,
      st_steal = ct_steal ct, st_guest = ct_guest ct, st_guest_nice = ct_guest_nice ct\<rparr>"

definition total_time_jiffies :: "CPUStat \<Rightarrow> u64" where
  "total_time_jiffies s =
     st_user s + st_nice s + st_system s + or_zero (st_guest_nice s) + or_zero (st_guest s)"

definition get_idle_and_total :: "CPUStat \<Rightarrow> u64 \<times> u64" where
  "get_idle_and_total s =
     (st_idle s + or_zero (st_iowait s),
      st_user s + st_nice s + st_system s + st_idle s + or_zero (st_iowait s) + or_zero (st_irq s)
        + or_zero (st_softirq s) + or_zero (st_steal s) + or_zero (st_guest s)
        + or_zero (st_guest_nice s))"

text \<open>The field by field difference of \<open>get_stats_diff\<close>, the same text for a socket and for the topology.\<close>

definition opt_diff :: "u64 option \<Rightarrow> u64 option \<Rightarrow> u64 option" where
  "opt_diff a b = (case (a, b) of (Some x, Some y) \<Rightarrow> Some (x - y) | _ \<Rightarrow> None)"

definition stats_diff :: "CPUStat list \<Rightarrow> CPUStat option" where
  "stats_diff buf =
     (case buf of
        l # p # _ \<Rightarrow>
          Some \<lparr>st_user = st_user l - st_user p, st_nice = st_nice l - st_nice p,
                st_system = st_system l - st_system p, st_idle = st_idle l - st_idle p,
                st_irq = opt_diff (st_irq l) (st_irq p),
                st_iowait = opt_diff (st_iowait l) (st_iowait p),
                st_softirq = opt_diff (st_softirq l) (st_softirq p),
                st_steal = opt_diff (st_steal l) (st_steal p),
                st_guest = opt_diff (st_guest l) (st_guest p),
                st_guest_nice = opt_diff (st_guest_nice l) (st_guest_nice p)\<rparr>
      | _ \<Rightarrow> None)"

section \<open>Cleaning a buffer\<close>

text \<open>
  \<open>buffer_max_kbytes * 1000\<close> is computed in \<open>u16\<close>. The number of records to delete is a quotient
  of two \<open>f32\<close> values cast to \<open>u32\<close>; the loop runs over \<open>1..n\<close>. The size in bytes of a record
  (\<open>size_of_val\<close>) depends on the compiler's layout and is a parameter, \<open>rsz\<close>.
\<close>

definition max_bytes :: "u16 \<Rightarrow> nat" where
  "max_bytes kb = unat (kb * 1000)"

definition nb_to_delete :: "nat \<Rightarrow> nat \<Rightarrow> nat" where
  "nb_to_delete size_diff rsz =
     f32_as_u32 (f32_div (f_of_nat f32_format size_diff) (f_of_nat f32_format rsz))"

definition clean_front :: "nat \<Rightarrow> u16 \<Rightarrow> 'a list \<Rightarrow> 'a list" where
  "clean_front rsz kb buf =
     (let curr_size = rsz * length buf
      in if curr_size > max_bytes kb then
           (let size_diff = curr_size - max_bytes kb
            in if size_diff > rsz then remove_front_n (nb_to_delete size_diff rsz - 1) buf else buf)
         else buf)"

definition clean_back :: "nat \<Rightarrow> u16 \<Rightarrow> 'a list \<Rightarrow> 'a list" where
  "clean_back rsz kb buf =
     (let curr_size = rsz * length buf
      in if curr_size > max_bytes kb then
           (let size_diff = curr_size - max_bytes kb
            in if size_diff > rsz then pop_back_n (nb_to_delete size_diff rsz - 1) buf else buf)
         else buf)"

lemma f32_exact: "n < 2 ^ 24 \<Longrightarrow> f_of_nat f32_format n = Fin False (of_nat n)"
  by (rule f_of_nat_exact) auto

lemma nb_to_delete_div:
  assumes "sd < 2 ^ 24" "0 < r" "r < 2 ^ 24"
  shows "nb_to_delete sd r = sd div r"
proof -
  have "f_to_nat (2 ^ 32) (f32_div (Fin False (of_nat sd)) (Fin False (of_nat r))) = sd div r"
    using assms by (intro f_to_nat_fdiv) auto
  then show ?thesis using assms by (simp add: nb_to_delete_def f32_exact f32_as_u32_def)
qed

text \<open>
  When the sizes are below \<open>2 ^ 24\<close>, where an \<open>f32\<close> is exact, cleaning keeps the newest
  \<open>capacity\<close> records: one more than the number that fits in the limit, rounded up.
\<close>

definition capacity :: "nat \<Rightarrow> u16 \<Rightarrow> nat" where
  "capacity rsz kb = (max_bytes kb + rsz - 1) div rsz + 1"

definition keep_last :: "nat \<Rightarrow> 'a list \<Rightarrow> 'a list" where
  "keep_last n xs = drop (length xs - n) xs"

lemma keep_last_short [simp]: "length xs \<le> n \<Longrightarrow> keep_last n xs = xs"
  by (simp add: keep_last_def)

lemma length_keep_last [simp]: "length (keep_last n xs) = min n (length xs)"
  by (simp add: keep_last_def)

lemma keep_last_append: "keep_last n (keep_last n xs @ ys) = keep_last n (xs @ ys)"
proof (cases "length xs \<le> n")
  case False
  then have "length xs - n + n = length xs" by simp
  then show ?thesis by (simp add: keep_last_def add.commute)
qed simp

lemma keep_last_Nil_iff [simp]: "keep_last n xs = [] \<longleftrightarrow> n = 0 \<or> xs = []"
  by (cases xs) (auto simp: keep_last_def)

lemma last_keep_last: "0 < n \<Longrightarrow> xs \<noteq> [] \<Longrightarrow> last (keep_last n xs) = last xs"
  by (simp add: keep_last_def)

lemma last_two_keep_last: "2 \<le> n \<Longrightarrow> last_two (keep_last n xs) = last_two xs"
proof (cases "length xs \<le> n")
  case False
  assume "2 \<le> n"
  with False show ?thesis unfolding keep_last_def by (intro last_two_drop) simp
qed simp

lemma capacity_ge_2: "0 < rsz \<Longrightarrow> 0 < max_bytes kb \<Longrightarrow> 2 \<le> capacity rsz kb"
  using div_le_mono [of rsz "max_bytes kb + rsz - 1" rsz] by (simp add: capacity_def)

lemma capacity_bytes: "0 < rsz \<Longrightarrow> rsz * capacity rsz kb \<le> max_bytes kb + 2 * rsz - 1"
proof -
  assume "0 < rsz"
  have "rsz * ((max_bytes kb + rsz - 1) div rsz) \<le> max_bytes kb + rsz - 1" by (rule times_div_less_eq_dividend)
  with \<open>0 < rsz\<close> show ?thesis unfolding capacity_def add_mult_distrib2 by linarith
qed

lemma max_bytes_less: "max_bytes kb < 2 ^ 16"
  using unsigned_less [of "kb * 1000", where ?'a = nat] by (simp add: max_bytes_def)

lemma capacity_bytes_less:
  assumes "0 < rsz" "3 * rsz + 2 ^ 16 \<le> B"
  shows "rsz * Suc (capacity rsz kb) < B"
proof -
  have "rsz * Suc (capacity rsz kb) = rsz * capacity rsz kb + rsz" by simp
  then show ?thesis using capacity_bytes [OF assms(1), of kb] max_bytes_less [of kb] assms by linarith
qed

lemma ceil_div_sub:
  assumes "0 < (r :: nat)" "m < r * n"
  shows "(r * n - m) div r = n - (m + r - 1) div r"
proof -
  obtain q s where q: "m = r * q + s" "s < r" using assms(1) by (metis mult_div_mod_eq mod_less_divisor)
  show ?thesis
  proof (cases "s = 0")
    case True
    then have "r * n - m = r * (n - q)" by (simp add: q diff_mult_distrib2)
    moreover have "(m + r - 1) div r = q" using q True assms(1) by (intro div_nat_eqI) auto
    ultimately show ?thesis using assms(1) by simp
  next
    case False
    have "r * q < r * n" using assms(2) q(1) by linarith
    then have "q < n" using assms(1) by simp
    then obtain k where k: "n = q + 1 + k" by (metis Suc_eq_plus1 less_natE add.commute add_Suc)
    have "(r * n - m) div r = k" using q k False by (intro div_nat_eqI) (simp_all add: algebra_simps)
    moreover have "(m + r - 1) div r = q + 1" using q False
      by (intro div_nat_eqI) (simp_all add: algebra_simps)
    ultimately show ?thesis using k by simp
  qed
qed

lemma clean_front_keep_last:
  assumes "0 < rsz" "rsz * length buf < 2 ^ 24"
  shows "clean_front rsz kb buf = keep_last (capacity rsz kb) buf"
proof (cases "rsz * length buf > max_bytes kb")
  case True
  let ?c = "(max_bytes kb + rsz - 1) div rsz" and ?d = "rsz * length buf - max_bytes kb"
  have d: "?d div rsz = length buf - ?c" using ceil_div_sub [OF assms(1) True] .
  have "length buf \<noteq> 0" using True by (metis mult_0_right not_less_zero)
  then have r: "rsz < 2 ^ 24" using assms(2) by (metis le_less_trans le_square mult.commute mult_le_mono1 nat_mult_1 One_nat_def Suc_leI neq0_conv)
  show ?thesis
  proof (cases "?d > rsz")
    case True
    have "nb_to_delete ?d rsz = length buf - ?c"
      using nb_to_delete_div [of ?d rsz] assms r d by simp
    then show ?thesis using True \<open>rsz * length buf > max_bytes kb\<close>
      by (simp add: clean_front_def Let_def keep_last_def capacity_def)
  next
    case False
    then have "?d div rsz \<le> 1" using assms(1) by (cases "?d = rsz") auto
    then have "length buf - (?c + 1) = 0" using d by simp
    then show ?thesis using False by (simp add: clean_front_def Let_def keep_last_def capacity_def)
  qed
next
  case False
  then have "length buf \<le> (max_bytes kb + rsz - 1) div rsz"
    using assms(1) by (simp add: less_eq_div_iff_mult_less_eq mult.commute not_less)
  then show ?thesis using False by (simp add: clean_front_def Let_def keep_last_def capacity_def)
qed

lemma clean_back_take:
  assumes "0 < rsz" "rsz * length buf < 2 ^ 24"
  shows "clean_back rsz kb buf = take (capacity rsz kb) buf"
proof -
  have "rev (clean_front rsz kb (rev buf)) = clean_back rsz kb buf"
    by (simp add: clean_front_def clean_back_def Let_def rev_drop)
  moreover have "clean_front rsz kb (rev buf) = keep_last (capacity rsz kb) (rev buf)"
    using assms by (intro clean_front_keep_last) simp_all
  ultimately show ?thesis by (metis keep_last_def length_rev rev_drop rev_rev_ident diff_diff_cancel linorder_linear take_all diff_is_0_eq diff_zero)
qed

section \<open>The contract of a record generator\<close>

text \<open>
  A generator reads one record per refresh; a failed read (\<open>None\<close>, Rust's \<open>Err\<close>) is logged and
  skipped, and the buffer is cleaned in both cases. \<open>limit\<close> bounds the sizes in bytes for which
  the generator's arithmetic is exact.
\<close>

definition read_records :: "('e \<Rightarrow> 's \<Rightarrow> 'r option res) \<Rightarrow> 's \<Rightarrow> 'e list \<Rightarrow> 'r list" where
  "read_records rd s es =
     concat (map (\<lambda>e. case rd e s of Inr (Some r) \<Rightarrow> [r] | _ \<Rightarrow> []) es)"

locale record_generator =
  fixes buffer :: "'s \<Rightarrow> 'r list"
    and max_kb :: "'s \<Rightarrow> u16"
    and rd :: "'e \<Rightarrow> 's \<Rightarrow> 'r option res"
    and refresh :: "'e \<Rightarrow> 's \<Rightarrow> 's res"
    and rsz :: nat
    and limit :: nat
  assumes refresh_ok:
      "\<lbrakk>0 < rsz; rd e s = Inr x; rsz * Suc (length (buffer s)) < limit\<rbrakk> \<Longrightarrow>
         \<exists>s'. refresh e s = Inr s' \<and> max_kb s' = max_kb s \<and>
           buffer s' = keep_last (capacity rsz (max_kb s))
             (buffer s @ (case x of None \<Rightarrow> [] | Some r \<Rightarrow> [r]))"
    and refresh_panic: "rd e s = Inl p \<Longrightarrow> refresh e s = Inl p"
    and rd_stable: "refresh e s = Inr s' \<Longrightarrow> rd e' s' = rd e' s"
begin

lemma refresh_bounded:
  assumes "0 < rsz" "rsz * Suc (length (buffer s)) < limit" "refresh e s = Inr s'"
  shows "length (buffer s') \<le> capacity rsz (max_kb s) \<and> max_kb s' = max_kb s"
proof -
  obtain x where "rd e s = Inr x" using assms(3) refresh_panic by (cases "rd e s") fastforce+
  then show ?thesis using refresh_ok [OF assms(1) _ assms(2)] assms(3) by fastforce
qed

lemma refresh_last:
  assumes "0 < rsz" "rsz * Suc (length (buffer s)) < limit" "rd e s = Inr (Some r)"
  shows "\<exists>s'. refresh e s = Inr s' \<and> buffer s' \<noteq> [] \<and> last (buffer s') = r"
  using refresh_ok [OF assms(1,3,2)] by (force simp: capacity_def last_keep_last)

lemma run_window:
  assumes "0 < rsz" "rsz * Suc (capacity rsz (max_kb s)) < limit"
    and "length (buffer s) \<le> capacity rsz (max_kb s)"
    and "\<forall>e \<in> set es. \<exists>x. rd e s = Inr x"
  shows "\<exists>s'. fold_res refresh es s = Inr s' \<and> max_kb s' = max_kb s \<and>
    buffer s' = keep_last (capacity rsz (max_kb s)) (buffer s @ read_records rd s es)"
  using assms(2-)
proof (induction es arbitrary: s)
  case Nil
  then show ?case by (simp add: read_records_def)
next
  case (Cons e es)
  let ?c = "capacity rsz (max_kb s)"
  obtain x where x: "rd e s = Inr x" using Cons.prems(3) by auto
  define new where "new = (case x of None \<Rightarrow> [] | Some r \<Rightarrow> [r])"
  have "rsz * Suc (length (buffer s)) \<le> rsz * Suc ?c" using Cons.prems(2) by (intro mult_le_mono2) simp
  then have "rsz * Suc (length (buffer s)) < limit" using Cons.prems(1) by linarith
  then obtain t where t: "refresh e s = Inr t" "max_kb t = max_kb s"
    "buffer t = keep_last ?c (buffer s @ new)"
    using refresh_ok [OF assms(1) x] unfolding new_def by blast
  have st: "rd e' t = rd e' s" for e' using rd_stable [OF t(1)] .
  have "\<exists>s'. fold_res refresh es t = Inr s' \<and> max_kb s' = max_kb t \<and>
      buffer s' = keep_last (capacity rsz (max_kb t)) (buffer t @ read_records rd t es)"
    by (rule Cons.IH) (use Cons.prems t(2,3) st in auto)
  moreover have "read_records rd s (e # es) = new @ read_records rd t es"
    using x st by (cases x) (simp_all add: read_records_def new_def)
  ultimately show ?case using t by (simp add: keep_last_append)
qed

end

end
