(* ===== verification/Process_Tracker.thy ===== *)
theory Process_Tracker
  imports Records
begin

text \<open>
  \<open>sensors/utils.rs\<close>: the processes seen by sysinfo and procfs, and the tracker that keeps a short
  history of records per process identifier. The locale \<open>pid_store\<close> states what the topology
  relies on: a store of histories, looked up by identifier, to which records are added.
\<close>

section \<open>Processes\<close>

record IProcess =
  ip_pid :: Pid
  ip_owner :: u32
  ip_comm :: string
  ip_cmdline :: "string list"
  ip_cpu_busy_time :: u64
  ip_node_busy_time :: u64
  ip_core_busy_times :: "u64 list option"
  ip_cpu_usage_percentage :: f32
  ip_virtual_memory :: u64
  ip_memory :: u64
  ip_disk_read :: u64
  ip_disk_written :: u64
  ip_total_disk_read :: u64
  ip_total_disk_written :: u64
  ip_stime :: u64
  ip_utime :: u64

record ProcessRecord =
  pr_process :: IProcess
  pr_timestamp :: duration

record ProcessTracker =
  pt_procs :: "ProcessRecord list list"
  pt_nb_cores :: usize
  pt_core_times_map :: bool
  pt_max_records_per_process :: u16
  pt_sysinfo :: System

text \<open>
  \<open>IProcess::new\<close>: a process whose executable path is not UTF-8 panics. The pair of procfs is
  (\<open>utime\<close>, \<open>stime\<close>).
\<close>

definition node_busy_time :: "env \<Rightarrow> u64" where
  "node_busy_time e =
     (case e_kernel_stats e of
        None \<Rightarrow> 0
      | Some ks \<Rightarrow>
          let t = ks_total ks
          in ct_user t + ct_nice t + ct_system t + or_zero (ct_irq t) + or_zero (ct_softirq t)
               + or_zero (ct_steal t) + or_zero (ct_guest t) + or_zero (ct_guest_nice t))"

definition IProcess_new :: "env \<Rightarrow> Process \<Rightarrow> u64 list option \<Rightarrow> IProcess res" where
  "IProcess_new e process core_times =
     (let (utime, stime) = (case e_proc_times e (sp_pid process) of Some us \<Rightarrow> us | None \<Rightarrow> (0, 0))
      in bind_res (unwrap_opt (sp_exe process)) (\<lambda>comm.
           Inr \<lparr>ip_pid = sp_pid process, ip_owner = 0, ip_comm = comm, ip_cmdline = sp_cmd process,
                ip_cpu_busy_time = utime + stime, ip_node_busy_time = node_busy_time e,
                ip_core_busy_times = core_times, ip_cpu_usage_percentage = sp_cpu_usage process,
                ip_virtual_memory = sp_virtual_memory process, ip_memory = sp_memory process,
                ip_disk_read = sp_read_bytes process, ip_disk_written = sp_written_bytes process,
                ip_total_disk_read = sp_total_read_bytes process,
                ip_total_disk_written = sp_total_written_bytes process,
                ip_stime = stime, ip_utime = utime\<rparr>))"

definition IProcess_cmdline :: "ProcessTracker \<Rightarrow> IProcess \<Rightarrow> string list option" where
  "IProcess_cmdline pt ip =
     (case hm_get (sys_processes (pt_sysinfo pt)) (ip_pid ip) of
        Some p \<Rightarrow> Some (sp_cmd p)
      | None \<Rightarrow> None)"

definition IProcess_exe :: "ProcessTracker \<Rightarrow> IProcess \<Rightarrow> string option res" where
  "IProcess_exe pt ip =
     (case hm_get (sys_processes (pt_sysinfo pt)) (ip_pid ip) of
        Some p \<Rightarrow> map_res Some (unwrap_opt (sp_exe p))
      | None \<Rightarrow> Inr None)"

definition ProcessRecord_new :: "env \<Rightarrow> IProcess \<Rightarrow> ProcessRecord" where
  "ProcessRecord_new e process =
     \<lparr>pr_process = process, pr_timestamp = current_system_time_since_epoch e\<rparr>"

section \<open>The tracker\<close>

text \<open>\<open>has_map\<close>: the eBPF object is there and yields its \<open>PID_TIMES\<close> map with the right type.\<close>

definition ProcessTracker_new :: "env \<Rightarrow> u16 \<Rightarrow> bool \<Rightarrow> ProcessTracker" where
  "ProcessTracker_new e max_records_per_process has_map =
     (let system = e_refresh_system e (e_system_new_all e)
      in \<lparr>pt_procs = [], pt_nb_cores = length (sys_cpus system), pt_core_times_map = has_map,
          pt_max_records_per_process = max_records_per_process, pt_sysinfo = system\<rparr>)"

definition ProcessTracker_clone :: "env \<Rightarrow> ProcessTracker \<Rightarrow> ProcessTracker" where
  "ProcessTracker_clone e pt =
     pt\<lparr>pt_core_times_map := False, pt_sysinfo := e_system_new_all e\<rparr>"

definition ProcessTracker_refresh :: "env \<Rightarrow> ProcessTracker \<Rightarrow> ProcessTracker" where
  "ProcessTracker_refresh e pt = pt\<lparr>pt_sysinfo := e_refresh_system e (pt_sysinfo pt)\<rparr>"

text \<open>The test of every search: a non-empty vector whose first record has the identifier.\<close>

definition has_pid :: "Pid \<Rightarrow> ProcessRecord list \<Rightarrow> bool" where
  "has_pid pid v = (case v of [] \<Rightarrow> False | r # _ \<Rightarrow> ip_pid (pr_process r) = pid)"

text \<open>Newest first; each turn of the loop sorts and pops.\<close>

abbreviation newer_first :: "ProcessRecord \<Rightarrow> ProcessRecord \<Rightarrow> bool" where
  "newer_first a b \<equiv> pr_timestamp b \<le> pr_timestamp a"

primrec sort_and_pop :: "nat \<Rightarrow> ProcessRecord list \<Rightarrow> ProcessRecord list" where
  "sort_and_pop 0 records = records"
| "sort_and_pop (Suc n) records = sort_and_pop n (butlast (sort_by newer_first records))"

definition clean_old_process_records :: "ProcessRecord list \<Rightarrow> u16 \<Rightarrow> ProcessRecord list" where
  "clean_old_process_records records max_records_per_process =
     (if length records > unat max_records_per_process
      then sort_and_pop (length records - unat max_records_per_process) records
      else records)"

text \<open>The update of the vector \<open>add_process_record\<close> finds, and the search for the first such vector.\<close>

definition push_record :: "u16 \<Rightarrow> ProcessRecord \<Rightarrow> ProcessRecord list \<Rightarrow> ProcessRecord list" where
  "push_record max_records process_record vector =
     (let vector = (if vector \<noteq> [] \<and> ip_comm (pr_process process_record) \<noteq> ip_comm (pr_process (hd vector))
                    then [] else vector)
      in clean_old_process_records (process_record # vector) max_records)"

fun update_first :: "('a \<Rightarrow> bool) \<Rightarrow> ('a \<Rightarrow> 'a) \<Rightarrow> 'a list \<Rightarrow> 'a list option" where
  "update_first P f [] = None"
| "update_first P f (x # xs) =
     (if P x then Some (f x # xs) else map_option ((#) x) (update_first P f xs))"

definition add_process_record :: "env \<Rightarrow> IProcess \<Rightarrow> ProcessTracker \<Rightarrow> ProcessTracker" where
  "add_process_record e process pt =
     (let process_record = ProcessRecord_new e process
      in case update_first (has_pid (ip_pid process))
                (push_record (pt_max_records_per_process pt) process_record) (pt_procs pt) of
           Some procs \<Rightarrow> pt\<lparr>pt_procs := procs\<rparr>
         | None \<Rightarrow> pt\<lparr>pt_procs := pt_procs pt @ [[process_record]]\<rparr>)"

definition find_records :: "ProcessTracker \<Rightarrow> Pid \<Rightarrow> ProcessRecord list option" where
  "find_records pt pid =
     fold (\<lambda>v refer. if has_pid pid v then Some v else refer) (pt_procs pt) None"

definition get_process_last_record :: "ProcessTracker \<Rightarrow> Pid \<Rightarrow> ProcessRecord option" where
  "get_process_last_record pt pid = Option.bind (find_records pt pid) (\<lambda>records. get_vec records 0)"

definition get_process_cpu_time_delta_as_percentage :: "ProcessTracker \<Rightarrow> Pid \<Rightarrow> f64 option" where
  "get_process_cpu_time_delta_as_percentage pt pid =
     Option.bind (find_records pt pid) (\<lambda>records.
     Option.bind (get_vec records 0) (\<lambda>l.
     Option.bind (get_vec records 1) (\<lambda>prev.
       let cpu_delta = saturating_sub (ip_cpu_busy_time (pr_process l)) (ip_cpu_busy_time (pr_process prev));
           node_delta = saturating_sub (ip_node_busy_time (pr_process l)) (ip_node_busy_time (pr_process prev))
       in if node_delta = 0 then None
          else Some (f64_mul (f64_div (u64_as_f64 cpu_delta) (u64_as_f64 node_delta)) (f64_lit 100)))))"

definition get_per_core_cpu_time_delta :: "ProcessTracker \<Rightarrow> Pid \<Rightarrow> u64 list option" where
  "get_per_core_cpu_time_delta pt pid =
     Option.bind (find_records pt pid) (\<lambda>records.
     Option.bind (get_vec records 0) (\<lambda>l.
     Option.bind (get_vec records 1) (\<lambda>prev.
       case (ip_core_busy_times (pr_process l), ip_core_busy_times (pr_process prev)) of
         (Some last_core_times, Some prev_core_times) \<Rightarrow>
           if length prev_core_times = length last_core_times
           then Some (map (\<lambda>(i, t). last_core_times ! i - t) (enumerate 0 prev_core_times))
           else None
       | _ \<Rightarrow> None)))"

definition IProcess_total_time_jiffies :: "ProcessTracker \<Rightarrow> IProcess \<Rightarrow> u64" where
  "IProcess_total_time_jiffies pt ip =
     (case get_process_last_record pt (ip_pid ip) of
        Some r \<Rightarrow> ip_stime (pr_process r) + ip_utime (pr_process r)
      | None \<Rightarrow> 0)"

definition get_process_core_times :: "env \<Rightarrow> ProcessTracker \<Rightarrow> Pid \<Rightarrow> u64 list option" where
  "get_process_core_times e pt pid =
     (if pt_core_times_map pt then e_pid_times e (word_of_int pid) else None)"

definition IProcess_myself :: "env \<Rightarrow> ProcessTracker \<Rightarrow> IProcess res" where
  "IProcess_myself e pt =
     bind_res (unwrap_opt (hm_get (sys_processes (pt_sysinfo pt)) (e_current_pid e))) (\<lambda>p.
       IProcess_new e p (get_process_core_times e pt (e_current_pid e)))"

definition get_cpu_frequency :: "ProcessTracker \<Rightarrow> u64" where
  "get_cpu_frequency pt = sys_global_frequency (pt_sysinfo pt)"

definition get_alive_processes :: "ProcessTracker \<Rightarrow> ProcessRecord list list" where
  "get_alive_processes pt =
     filter (\<lambda>p. p \<noteq> [] \<and>
        (case hm_get (sys_processes (pt_sysinfo pt)) (ip_pid (pr_process (hd p))) of
           Some sysinfo_p \<Rightarrow> sp_status sysinfo_p \<noteq> Dead
         | None \<Rightarrow> False)) (pt_procs pt)"

definition get_alive_pids :: "ProcessTracker \<Rightarrow> Pid list" where
  "get_alive_pids pt =
     map (\<lambda>x. ip_pid (pr_process (hd x))) (filter (\<lambda>x. x \<noteq> []) (get_alive_processes pt))"

definition get_all_pids :: "ProcessTracker \<Rightarrow> Pid list" where
  "get_all_pids pt = map (\<lambda>x. ip_pid (pr_process (hd x))) (filter (\<lambda>x. x \<noteq> []) (pt_procs pt))"

definition get_process_name :: "ProcessTracker \<Rightarrow> Pid \<Rightarrow> string res" where
  "get_process_name pt pid =
     (case filter (has_pid pid) (pt_procs pt) of
        [] \<Rightarrow> Inl Unwrap_None
      | [v] \<Rightarrow> Inr (ip_comm (pr_process (hd v)))
      | _ \<Rightarrow> Inl (Explicit_Panic
              ''Found two vectors of processes with the same id, maintainers should fix this.''))"

definition get_process_cmdline :: "ProcessTracker \<Rightarrow> Pid \<Rightarrow> string option res" where
  "get_process_cmdline pt pid =
     (case filter (has_pid pid) (pt_procs pt) of
        [] \<Rightarrow> Inl Unwrap_None
      | v # _ \<Rightarrow> Inr (map_option concat (IProcess_cmdline pt (pr_process (hd v)))))"

definition get_cpu_usage_percentage :: "ProcessTracker \<Rightarrow> Pid \<Rightarrow> usize \<Rightarrow> f32" where
  "get_cpu_usage_percentage pt pid nb_cores =
     (case hm_get (sys_processes (pt_sysinfo pt)) pid of
        Some p \<Rightarrow>
          f32_div (f32_div (f32_mul (sys_global_cpu_usage (pt_sysinfo pt)) (sp_cpu_usage p)) (f32_lit 100))
            (f_of_nat f32_format nb_cores)
      | None \<Rightarrow> f_zero)"

text \<open>
  \<open>OrderedFloat\<close>: the usual order, with NaN equal to itself and above everything. A cast from
  \<open>f32\<close> to \<open>f64\<close> keeps the value.
\<close>

definition of_le :: "f64 \<Rightarrow> f64 \<Rightarrow> bool" where
  "of_le a b \<longleftrightarrow> b = NaN \<or> (a \<noteq> NaN \<and> \<not> flt b a)"

abbreviation higher_first :: "'a \<times> f64 \<Rightarrow> 'a \<times> f64 \<Rightarrow> bool" where
  "higher_first x y \<equiv> of_le (snd y) (snd x)"

definition push_consumer :: "u16 \<Rightarrow> IProcess \<times> f64 \<Rightarrow> (IProcess \<times> f64) list \<Rightarrow> (IProcess \<times> f64) list" where
  "push_consumer top_n c consumers =
     (let consumers = sort_by higher_first (consumers @ [c])
      in if length consumers > unat top_n then butlast consumers else consumers)"

definition consider_consumer ::
  "world \<Rightarrow> ProcessTracker \<Rightarrow> u16 \<Rightarrow> nat \<times> ProcessRecord list \<Rightarrow> (IProcess \<times> f64) list \<Rightarrow> (IProcess \<times> f64) list res"
where
  "consider_consumer w pt top_n ip consumers =
     (let (i, p) = ip
      in if length p > 1 then
           let pid = ip_pid (pr_process (hd p));
               diff = get_cpu_usage_percentage pt pid (pt_nb_cores pt)
           in if length (filter (\<lambda>x. case hm_get (sys_processes (pt_sysinfo pt)) (ip_pid (fst x)) of
                                   Some q \<Rightarrow> flt diff (sp_cpu_usage q) | None \<Rightarrow> False) consumers) < unat top_n
              then (case hm_get (sys_processes (pt_sysinfo pt)) pid of
                      Some sysinfo_process \<Rightarrow>
                        bind_res (IProcess_new (w [i]) sysinfo_process (get_process_core_times (w [i]) pt pid))
                          (\<lambda>new_consumer. Inr (push_consumer top_n (new_consumer, diff) consumers))
                    | None \<Rightarrow> Inr consumers)
              else Inr consumers
         else Inr consumers)"

definition get_top_consumers :: "world \<Rightarrow> ProcessTracker \<Rightarrow> u16 \<Rightarrow> (IProcess \<times> f64) list res" where
  "get_top_consumers w pt top_n =
     fold_res (consider_consumer w pt top_n) (enumerate 0 (pt_procs pt)) []"

text \<open>The regular expression is the caller's; \<open>is_match\<close> is its test.\<close>

definition get_filtered_processes :: "(string \<Rightarrow> bool) \<Rightarrow> ProcessTracker \<Rightarrow> (IProcess \<times> f64) list res" where
  "get_filtered_processes is_match pt =
     fold_res (\<lambda>p consumers.
         if length p > 1 then
           let diff = get_cpu_usage_percentage pt (ip_pid (pr_process (hd p))) (pt_nb_cores pt);
               p_record = last p
           in bind_res (IProcess_exe pt (pr_process p_record)) (\<lambda>exe.
                let process_exe = (case exe of Some x \<Rightarrow> x | None \<Rightarrow> []);
                    process_cmdline = (case IProcess_cmdline pt (pr_process p_record) of Some c \<Rightarrow> c | None \<Rightarrow> [])
                in if is_match process_exe \<or> is_match (concat process_cmdline)
                   then Inr (sort_by higher_first (consumers @ [(pr_process p_record, diff)]))
                   else Inr consumers)
         else Inr consumers) (pt_procs pt) []"

text \<open>The loop over \<open>0..(procs.len() - 1)\<close> whose bound is fixed before the first removal.\<close>

function drop_empty_loop :: "nat \<Rightarrow> nat \<Rightarrow> 'a list list \<Rightarrow> 'a list list" where
  "drop_empty_loop i n procs =
     (if i < n then
        drop_empty_loop (Suc i) n
          (case get_vec procs i of
             Some v \<Rightarrow> (if v = [] then take i procs @ drop (Suc i) procs else procs)
           | None \<Rightarrow> procs)
      else procs)"
  by pat_completeness auto

termination
  by (relation "measure (\<lambda>(i, n, _). n - i)") auto

declare drop_empty_loop.simps [simp del]

definition drop_empty_process_records_vectors :: "ProcessTracker \<Rightarrow> ProcessTracker" where
  "drop_empty_process_records_vectors pt =
     (if pt_procs pt \<noteq> [] then pt\<lparr>pt_procs := drop_empty_loop 0 (length (pt_procs pt) - 1) (pt_procs pt)\<rparr>
      else pt)"

definition clean_terminated_process_records_vectors :: "ProcessTracker \<Rightarrow> ProcessTracker" where
  "clean_terminated_process_records_vectors pt =
     drop_empty_process_records_vectors
       (pt\<lparr>pt_procs := map (\<lambda>v.
          if v \<noteq> [] then
            (case hm_get (sys_processes (pt_sysinfo pt)) (ip_pid (pr_process (hd v))) of
               Some p \<Rightarrow> (if sp_status p = Stop then [] else v)
             | None \<Rightarrow> [])
          else v) (pt_procs pt)\<rparr>)"

section \<open>Searching and updating vectors\<close>

lemma update_first_None: "update_first P f xs = None \<longleftrightarrow> (\<forall>x \<in> set xs. \<not> P x)"
  by (induction xs) auto

lemma update_first_Some:
  assumes "update_first P f xs = Some ys"
  shows "\<exists>a x b. xs = a @ x # b \<and> P x \<and> (\<forall>y \<in> set a. \<not> P y) \<and> ys = a @ f x # b"
  using assms
proof (induction xs arbitrary: ys)
  case (Cons z zs)
  show ?case
  proof (cases "P z")
    case True
    then show ?thesis using Cons.prems by (intro exI [of _ "[]"]) auto
  next
    case False
    then obtain ws where "update_first P f zs = Some ws" "ys = z # ws" using Cons.prems by auto
    then obtain a x b where "zs = a @ x # b" "P x" "\<forall>y \<in> set a. \<not> P y" "ys = z # a @ f x # b"
      using Cons.IH by blast
    then show ?thesis using False by (intro exI [of _ "z # a"]) auto
  qed
qed simp

lemma find_last_fold:
  "fold (\<lambda>v refer. if P v then Some v else refer) xs acc =
     (if filter P xs = [] then acc else Some (last (filter P xs)))"
  by (induction xs arbitrary: acc) auto

lemma find_records_filter:
  "find_records pt pid =
     (case filter (has_pid pid) (pt_procs pt) of [] \<Rightarrow> None | vs \<Rightarrow> Some (last vs))"
  by (simp add: find_records_def find_last_fold split: list.split)

lemma has_pid_iff: "has_pid pid v \<longleftrightarrow> v \<noteq> [] \<and> ip_pid (pr_process (hd v)) = pid"
  by (cases v) (auto simp: has_pid_def)

section \<open>The invariant of the tracker\<close>

text \<open>
  At most one history per identifier; a history is of one process (identifier and executable),
  newest record first, and no longer than the maximum.
\<close>

definition history_ok :: "u16 \<Rightarrow> ProcessRecord list \<Rightarrow> bool" where
  "history_ok mx v \<longleftrightarrow>
     (\<forall>r \<in> set v. ip_pid (pr_process r) = ip_pid (pr_process (hd v)) \<and>
                 ip_comm (pr_process r) = ip_comm (pr_process (hd v))) \<and>
     sorted_wrt newer_first v \<and> length v \<le> unat mx"

definition tracker_inv :: "ProcessTracker \<Rightarrow> bool" where
  "tracker_inv pt \<longleftrightarrow>
     0 < unat (pt_max_records_per_process pt) \<and> distinct (get_all_pids pt) \<and>
     (\<forall>v \<in> set (pt_procs pt). history_ok (pt_max_records_per_process pt) v)"

text \<open>The clock has not gone back behind a record of the tracker.\<close>

definition clock_after :: "env \<Rightarrow> ProcessTracker \<Rightarrow> bool" where
  "clock_after e pt \<longleftrightarrow> (\<forall>v \<in> set (pt_procs pt). \<forall>r \<in> set v. pr_timestamp r \<le> e_now e)"

definition history :: "ProcessTracker \<Rightarrow> Pid \<Rightarrow> ProcessRecord list" where
  "history pt pid = (case find_records pt pid of None \<Rightarrow> [] | Some v \<Rightarrow> v)"

lemma sort_and_pop_sorted:
  "sorted_wrt newer_first rs \<Longrightarrow> sort_and_pop n rs = take (length rs - n) rs"
proof (induction n arbitrary: rs)
  case (Suc n)
  have "sorted_wrt newer_first (butlast rs)"
    using Suc.prems by (simp add: butlast_conv_take sorted_wrt_take)
  then show ?case using Suc by (simp add: sort_by_sorted butlast_conv_take)
qed simp

lemma clean_old_sorted:
  "sorted_wrt newer_first rs \<Longrightarrow> clean_old_process_records rs mx = take (unat mx) rs"
  by (auto simp: clean_old_process_records_def sort_and_pop_sorted)

lemma push_record_sorted:
  assumes "sorted_wrt newer_first (r # v)"
  shows "push_record mx r v =
    take (unat mx) (r # (if v \<noteq> [] \<and> ip_comm (pr_process r) \<noteq> ip_comm (pr_process (hd v)) then [] else v))"
  using assms by (simp add: push_record_def clean_old_sorted)

lemma push_record_ok:
  assumes "history_ok mx v" "\<forall>x \<in> set v. newer_first r x" "0 < unat mx"
    and "v \<noteq> [] \<longrightarrow> ip_pid (pr_process (hd v)) = ip_pid (pr_process r)"
  shows "history_ok mx (push_record mx r v)" "\<exists>t. push_record mx r v = r # t \<and> set t \<subseteq> set v"
proof -
  have p: "push_record mx r v =
      take (unat mx) (r # (if v \<noteq> [] \<and> ip_comm (pr_process r) \<noteq> ip_comm (pr_process (hd v)) then [] else v))"
    using assms(1,2) by (intro push_record_sorted) (auto simp: history_ok_def)
  obtain k where k: "unat mx = Suc k" using assms(3) by (cases "unat mx") auto
  show "\<exists>t. push_record mx r v = r # t \<and> set t \<subseteq> set v" using p k by (auto dest: in_set_takeD)
  define w where "w = (if v \<noteq> [] \<and> ip_comm (pr_process r) \<noteq> ip_comm (pr_process (hd v)) then [] else v)"
  have same: "ip_pid (pr_process x) = ip_pid (pr_process r) \<and> ip_comm (pr_process x) = ip_comm (pr_process r)"
    if "x \<in> set w" for x
  proof -
    have x: "x \<in> set v" "v \<noteq> []" "ip_comm (pr_process r) = ip_comm (pr_process (hd v))"
      using that by (auto simp: w_def split: if_splits)
    then have "ip_pid (pr_process x) = ip_pid (pr_process (hd v)) \<and>
        ip_comm (pr_process x) = ip_comm (pr_process (hd v))"
      using assms(1) unfolding history_ok_def by blast
    then show ?thesis using x(2,3) assms(4) by simp
  qed
  have w: "sorted_wrt newer_first w" "\<forall>x \<in> set w. newer_first r x"
    using assms(1,2) by (auto simp: w_def history_ok_def)
  have "push_record mx r v = r # take k w" unfolding p w_def k by simp
  moreover have "sorted_wrt newer_first (r # take k w)"
    using w sorted_wrt_take [OF w(1), of k] by (auto dest: in_set_takeD)
  ultimately show "history_ok mx (push_record mx r v)"
    using same k unfolding history_ok_def by (auto dest: in_set_takeD)
qed

lemma tracker_find:
  assumes "tracker_inv pt" "pt_procs pt = a @ v # b" "has_pid pid v"
  shows "find_records pt pid = Some v" "\<forall>x \<in> set a \<union> set b. \<not> has_pid pid x"
proof -
  have "v \<noteq> []" "ip_pid (pr_process (hd v)) = pid" using assms(3) by (auto simp: has_pid_iff)
  then show n: "\<forall>x \<in> set a \<union> set b. \<not> has_pid pid x"
    using assms(1,2) by (auto simp: tracker_inv_def get_all_pids_def has_pid_iff image_iff)
  then have "filter (has_pid pid) a = []" "filter (has_pid pid) b = []" by (auto simp: filter_empty_conv)
  then show "find_records pt pid = Some v" using assms(2,3) by (simp add: find_records_filter)
qed

lemma find_records_None: "find_records pt pid = None \<longleftrightarrow> (\<forall>v \<in> set (pt_procs pt). \<not> has_pid pid v)"
proof -
  have "find_records pt pid = None \<longleftrightarrow> filter (has_pid pid) (pt_procs pt) = []"
    by (simp add: find_records_filter split: list.split)
  then show ?thesis by (simp add: filter_empty_conv)
qed


lemma get_all_pids_split:
  "pt_procs pt = a @ v # b \<Longrightarrow> v \<noteq> [] \<Longrightarrow> v' \<noteq> [] \<Longrightarrow>
   ip_pid (pr_process (hd v')) = ip_pid (pr_process (hd v)) \<Longrightarrow>
   get_all_pids (pt\<lparr>pt_procs := a @ v' # b\<rparr>) = get_all_pids pt"
  by (simp add: get_all_pids_def)

lemma add_process_record_cases:
  assumes "tracker_inv pt" "clock_after e pt"
  obtains (old) a v b where "pt_procs pt = a @ v # b" "has_pid (ip_pid p) v"
      "find_records pt (ip_pid p) = Some v"
      "add_process_record e p pt =
         pt\<lparr>pt_procs := a @ push_record (pt_max_records_per_process pt) (ProcessRecord_new e p) v # b\<rparr>"
    | (new) "find_records pt (ip_pid p) = None"
      "add_process_record e p pt = pt\<lparr>pt_procs := pt_procs pt @ [[ProcessRecord_new e p]]\<rparr>"
proof (cases "update_first (has_pid (ip_pid p))
    (push_record (pt_max_records_per_process pt) (ProcessRecord_new e p)) (pt_procs pt)")
  case None
  then have "find_records pt (ip_pid p) = None" by (simp add: update_first_None find_records_None)
  then show ?thesis using None new by (simp add: add_process_record_def)
next
  case (Some ys)
  then obtain a v b where s: "pt_procs pt = a @ v # b" "has_pid (ip_pid p) v"
    "ys = a @ push_record (pt_max_records_per_process pt) (ProcessRecord_new e p) v # b"
    using update_first_Some [OF Some] by blast
  then show ?thesis using old [OF s(1,2) tracker_find(1) [OF assms(1) s(1,2)]] Some
    by (simp add: add_process_record_def)
qed

lemma pushed_history:
  assumes "tracker_inv pt" "clock_after e pt" "pt_procs pt = a @ v # b" "has_pid (ip_pid p) v"
  defines "v' \<equiv> push_record (pt_max_records_per_process pt) (ProcessRecord_new e p) v"
  shows "history_ok (pt_max_records_per_process pt) v'" "\<exists>t. v' = ProcessRecord_new e p # t \<and> set t \<subseteq> set v"
proof -
  have v: "history_ok (pt_max_records_per_process pt) v" "\<forall>x \<in> set v. newer_first (ProcessRecord_new e p) x"
    "0 < unat (pt_max_records_per_process pt)" "v \<noteq> [] \<longrightarrow> ip_pid (pr_process (hd v)) = ip_pid (pr_process (ProcessRecord_new e p))"
    using assms by (auto simp: tracker_inv_def clock_after_def has_pid_iff ProcessRecord_new_def
        current_system_time_since_epoch_def)
  show "history_ok (pt_max_records_per_process pt) v'" "\<exists>t. v' = ProcessRecord_new e p # t \<and> set t \<subseteq> set v"
    unfolding v'_def using push_record_ok [OF v] by blast+
qed

lemma add_process_record_inv:
  assumes "tracker_inv pt" "clock_after e pt"
  shows "tracker_inv (add_process_record e p pt)"
  using assms
proof (cases rule: add_process_record_cases [where p = p])
  case (old a v b)
  let ?v = "push_record (pt_max_records_per_process pt) (ProcessRecord_new e p) v"
  note h = pushed_history [OF assms old(1,2)]
  have "get_all_pids (pt\<lparr>pt_procs := a @ ?v # b\<rparr>) = get_all_pids pt"
    using h(2) old(2) by (intro get_all_pids_split [OF old(1)]) (auto simp: has_pid_iff ProcessRecord_new_def)
  then show ?thesis using old assms(1) h(1) by (auto simp: tracker_inv_def)
next
  case new
  have "ip_pid p \<notin> set (get_all_pids pt)"
    using new(1) by (auto simp: find_records_None get_all_pids_def has_pid_iff)
  moreover have "0 < unat (pt_max_records_per_process pt)"
    using assms(1) by (simp add: tracker_inv_def)
  ultimately show ?thesis using new assms(1)
    by (auto simp: tracker_inv_def get_all_pids_def history_ok_def ProcessRecord_new_def)
qed

lemma history_add_same:
  assumes "tracker_inv pt" "clock_after e pt"
  shows "history (add_process_record e p pt) (ip_pid p) =
    take (unat (pt_max_records_per_process pt)) (ProcessRecord_new e p #
      (if history pt (ip_pid p) \<noteq> [] \<and> ip_comm (pr_process (hd (history pt (ip_pid p)))) \<noteq> ip_comm p
       then [] else history pt (ip_pid p)))"
  using assms
proof (cases rule: add_process_record_cases [where p = p])
  case (old a v b)
  let ?v = "push_record (pt_max_records_per_process pt) (ProcessRecord_new e p) v"
  note h = pushed_history [OF assms old(1,2)]
  have inv: "tracker_inv (add_process_record e p pt)" using assms by (rule add_process_record_inv)
  have "has_pid (ip_pid p) ?v" using h(2) by (auto simp: has_pid_iff ProcessRecord_new_def)
  then have "find_records (add_process_record e p pt) (ip_pid p) = Some ?v"
    using old(4) by (intro tracker_find(1) [OF inv, of a _ b]) simp
  moreover have "sorted_wrt newer_first (ProcessRecord_new e p # v)"
    using assms old(1) by (auto simp: tracker_inv_def history_ok_def clock_after_def ProcessRecord_new_def
        current_system_time_since_epoch_def)
  moreover have "ip_comm (pr_process (ProcessRecord_new e p)) = ip_comm p" by (simp add: ProcessRecord_new_def)
  ultimately show ?thesis using old(3) by (auto simp: history_def push_record_sorted)
next
  case new
  have inv: "tracker_inv (add_process_record e p pt)" using assms by (rule add_process_record_inv)
  have "find_records (add_process_record e p pt) (ip_pid p) = Some [ProcessRecord_new e p]"
    using new(2) by (intro tracker_find(1) [OF inv, of "pt_procs pt" _ "[]"])
      (auto simp: has_pid_iff ProcessRecord_new_def)
  moreover obtain k where "unat (pt_max_records_per_process pt) = Suc k"
    using assms(1) unfolding tracker_inv_def gr0_conv_Suc by blast
  ultimately show ?thesis using new(1) by (simp add: history_def)
qed

lemma history_add_other:
  assumes "tracker_inv pt" "clock_after e pt" "q \<noteq> ip_pid p"
  shows "history (add_process_record e p pt) q = history pt q"
  using assms(1,2)
proof (cases rule: add_process_record_cases [where p = p])
  case (old a v b)
  note h = pushed_history [OF assms(1,2) old(1,2)]
  have "\<not> has_pid q v" "\<not> has_pid q (push_record (pt_max_records_per_process pt) (ProcessRecord_new e p) v)"
    using h(2) old(2) assms(3) by (auto simp: has_pid_iff ProcessRecord_new_def)
  then show ?thesis using old(1,4) by (simp add: history_def find_records_filter)
next
  case new
  have "\<not> has_pid q [ProcessRecord_new e p]" using assms(3) by (simp add: has_pid_iff ProcessRecord_new_def)
  then show ?thesis using new(2) by (simp add: history_def find_records_filter)
qed

lemma clock_after_add:
  assumes "tracker_inv pt" "clock_after e pt" "e_now e \<le> e_now e'"
  shows "clock_after e' (add_process_record e p pt)"
  using assms(1,2)
proof (cases rule: add_process_record_cases [where p = p])
  case (old a v b)
  obtain t where t: "push_record (pt_max_records_per_process pt) (ProcessRecord_new e p) v = ProcessRecord_new e p # t"
    "set t \<subseteq> set v" using pushed_history(2) [OF assms(1,2) old(1,2)] by blast
  show ?thesis using assms(2,3) old t unfolding clock_after_def
    by (fastforce simp: ProcessRecord_new_def current_system_time_since_epoch_def)
next
  case new
  then show ?thesis using assms(2,3)
    by (fastforce simp: clock_after_def ProcessRecord_new_def current_system_time_since_epoch_def)
qed

section \<open>The contract of a store of histories\<close>

text \<open>
  \<open>ready e s\<close> says that an observation may be added to the store now, \<open>later\<close> orders the
  observations in time.
\<close>

locale pid_store =
  fixes inv :: "'s \<Rightarrow> bool"
    and hist :: "'s \<Rightarrow> 'k \<Rightarrow> 'r list"
    and add :: "'e \<Rightarrow> 'p \<Rightarrow> 's \<Rightarrow> 's"
    and key :: "'p \<Rightarrow> 'k"
    and mk :: "'e \<Rightarrow> 'p \<Rightarrow> 'r"
    and ready :: "'e \<Rightarrow> 's \<Rightarrow> bool"
    and later :: "'e \<Rightarrow> 'e \<Rightarrow> bool"
  assumes add_inv: "inv s \<Longrightarrow> ready e s \<Longrightarrow> inv (add e p s)"
    and hist_head: "inv s \<Longrightarrow> ready e s \<Longrightarrow> \<exists>t. hist (add e p s) (key p) = mk e p # t"
    and hist_other: "inv s \<Longrightarrow> ready e s \<Longrightarrow> k \<noteq> key p \<Longrightarrow> hist (add e p s) k = hist s k"
    and ready_add: "inv s \<Longrightarrow> ready e s \<Longrightarrow> later e e' \<Longrightarrow> ready e' (add e p s)"
begin

lemma add_all:
  assumes "inv s" "\<forall>(e, p) \<in> set eps. ready e s" "sorted_wrt (\<lambda>(e, _) (e', _). later e e') eps"
    and "distinct (map (key \<circ> snd) eps)"
  shows "inv (fold (\<lambda>(e, p). add e p) eps s) \<and>
    (\<forall>(e, p) \<in> set eps. \<exists>t. hist (fold (\<lambda>(e, p). add e p) eps s) (key p) = mk e p # t) \<and>
    (\<forall>k. k \<notin> (key \<circ> snd) ` set eps \<longrightarrow> hist (fold (\<lambda>(e, p). add e p) eps s) k = hist s k)"
  using assms
proof (induction eps arbitrary: s)
  case (Cons ep eps)
  obtain e p where ep: "ep = (e, p)" by (cases ep)
  let ?t = "add e p s" and ?fin = "fold (\<lambda>(e, p). add e p) eps (add e p s)"
  have r: "ready e s" using Cons.prems(2) ep by simp
  have "inv ?t" using add_inv [OF Cons.prems(1) r] .
  moreover have "\<forall>(e', p') \<in> set eps. ready e' ?t"
    using Cons.prems(1,3) ep ready_add [OF _ r] by fastforce
  ultimately have IH: "inv ?fin \<and>
      (\<forall>(e, p) \<in> set eps. \<exists>t. hist ?fin (key p) = mk e p # t) \<and>
      (\<forall>k. k \<notin> (key \<circ> snd) ` set eps \<longrightarrow> hist ?fin k = hist ?t k)"
    using Cons.IH [of ?t] Cons.prems(3,4) ep by simp
  have "key p \<notin> (key \<circ> snd) ` set eps" using Cons.prems(4) ep by simp
  then have "hist ?fin (key p) = hist ?t (key p)" using IH by blast
  then have "\<exists>t. hist ?fin (key p) = mk e p # t" using hist_head [OF Cons.prems(1) r] by simp
  moreover have "hist ?fin k = hist s k" if "k \<notin> (key \<circ> snd) ` set (ep # eps)" for k
    using that IH hist_other [OF Cons.prems(1) r, of k] ep by simp
  ultimately show ?case using IH ep by simp
qed simp

lemma add_all_ready:
  assumes "inv s" "\<forall>(e, p) \<in> set eps. ready e s" "sorted_wrt (\<lambda>(e, _) (e', _). later e e') eps"
    and "\<forall>(e, p) \<in> set eps. later e f" "ready f s"
  shows "inv (fold (\<lambda>(e, p). add e p) eps s) \<and> ready f (fold (\<lambda>(e, p). add e p) eps s)"
  using assms
proof (induction eps arbitrary: s)
  case (Cons ep eps)
  obtain e p where ep: "ep = (e, p)" by (cases ep)
  have r: "ready e s" "later e f" using Cons.prems(2,4) ep by simp_all
  have "inv (add e p s)" using add_inv [OF Cons.prems(1) r(1)] .
  moreover have "\<forall>(e', p') \<in> set eps. ready e' (add e p s)"
    using Cons.prems(1,3) ep ready_add [OF _ r(1)] by fastforce
  moreover have "ready f (add e p s)" using ready_add [OF Cons.prems(1) r] .
  ultimately show ?case using Cons.IH [of "add e p s"] Cons.prems(3,4) ep by simp
qed simp

end

interpretation tracker: pid_store tracker_inv history add_process_record ip_pid ProcessRecord_new
  clock_after "\<lambda>e e'. e_now e \<le> e_now e'"
proof
  fix pt e p k e'
  show "tracker_inv pt \<Longrightarrow> clock_after e pt \<Longrightarrow> tracker_inv (add_process_record e p pt)"
    by (rule add_process_record_inv)
  show "\<exists>t. history (add_process_record e p pt) (ip_pid p) = ProcessRecord_new e p # t"
    if h: "tracker_inv pt" "clock_after e pt"
  proof -
    obtain m where "unat (pt_max_records_per_process pt) = Suc m"
      using h(1) unfolding tracker_inv_def gr0_conv_Suc by blast
    then show ?thesis by (simp add: history_add_same [OF h])
  qed
  show "tracker_inv pt \<Longrightarrow> clock_after e pt \<Longrightarrow> k \<noteq> ip_pid p \<Longrightarrow>
      history (add_process_record e p pt) k = history pt k"
    by (rule history_add_other)
  show "tracker_inv pt \<Longrightarrow> clock_after e pt \<Longrightarrow> e_now e \<le> e_now e' \<Longrightarrow>
      clock_after e' (add_process_record e p pt)"
    by (rule clock_after_add)
qed

section \<open>Properties of the tracker\<close>

text \<open>
  C14. Adding the record of a process keeps the invariant of the tracker: one history per process
  identifier, each of a single executable, newest record first, never longer than the maximum.
\<close>

theorem add_process_record_keeps_inv:
  assumes "tracker_inv pt" "clock_after e pt"
  shows "tracker_inv (add_process_record e p pt)"
  using assms by (rule tracker.add_inv)

definition example_process :: "Pid \<Rightarrow> string \<Rightarrow> IProcess" where
  "example_process pid comm =
     \<lparr>ip_pid = pid, ip_owner = 0, ip_comm = comm, ip_cmdline = [], ip_cpu_busy_time = 0,
      ip_node_busy_time = 0, ip_core_busy_times = None, ip_cpu_usage_percentage = f_zero,
      ip_virtual_memory = 0, ip_memory = 0, ip_disk_read = 0, ip_disk_written = 0,
      ip_total_disk_read = 0, ip_total_disk_written = 0, ip_stime = 0, ip_utime = 0\<rparr>"

lemma new_tracker_inv:
  "0 < unat mx \<Longrightarrow> tracker_inv (ProcessTracker_new e mx b)" "clock_after e' (ProcessTracker_new e mx b)"
  "history (ProcessTracker_new e mx b) pid = []"
  by (simp_all add: tracker_inv_def ProcessTracker_new_def get_all_pids_def clock_after_def
      history_def find_records_def Let_def)

lemma add_process_record_keeps_inv_witness:
  "tracker_inv (add_process_record env0 (example_process 7 ''sh'') (ProcessTracker_new env0 5 False))"
  by (rule add_process_record_keeps_inv) (simp_all add: new_tracker_inv)

text \<open>
  C15. What adding a record does to every history: that of the process starts with the new record,
  followed by its old records unless the identifier was reused by another executable, cut to the
  maximum; the histories of the other processes do not change.
\<close>

theorem history_after_add:
  assumes "tracker_inv pt" "clock_after e pt"
  shows "history (add_process_record e p pt) q =
    (if q = ip_pid p then
       take (unat (pt_max_records_per_process pt)) (ProcessRecord_new e p #
         (if history pt q \<noteq> [] \<and> ip_comm (pr_process (hd (history pt q))) \<noteq> ip_comm p then []
          else history pt q))
     else history pt q)"
  using history_add_same [OF assms, of p] history_add_other [OF assms, of q p] by simp

lemma history_after_add_witness:
  "history (add_process_record env0 (example_process 7 ''sh'') (ProcessTracker_new env0 5 False)) 7 =
     [ProcessRecord_new env0 (example_process 7 ''sh'')]"
proof -
  have "pt_max_records_per_process (ProcessTracker_new env0 5 False) = 5" "ip_pid (example_process 7 ''sh'') = 7"
    by (simp_all add: ProcessTracker_new_def example_process_def Let_def)
  then show ?thesis
    using history_after_add [of "ProcessTracker_new env0 5 False" env0 "example_process 7 ''sh''" 7]
    by (simp add: new_tracker_inv)
qed

section \<open>Dropping empty histories\<close>

lemma drop_empty_loop_filter:
  "filter (\<lambda>v. v \<noteq> []) (drop_empty_loop i n vs) = filter (\<lambda>v. v \<noteq> []) vs"
proof (induction i n vs rule: drop_empty_loop.induct)
  case (1 i n vs)
  show ?case
  proof (cases "i < n")
    case True
    let ?vs = "case get_vec vs i of Some v \<Rightarrow> (if v = [] then take i vs @ drop (Suc i) vs else vs) | None \<Rightarrow> vs"
    have "filter (\<lambda>v. v \<noteq> []) ?vs = filter (\<lambda>v. v \<noteq> []) vs"
    proof (cases "i < length vs \<and> vs ! i = []")
      case e: True
      then have "vs = take i vs @ [] # drop (Suc i) vs" by (metis id_take_nth_drop)
      then have "filter (\<lambda>v. v \<noteq> []) vs = filter (\<lambda>v. v \<noteq> []) (take i vs @ [] # drop (Suc i) vs)" by simp
      then show ?thesis using e by (simp add: get_vec_def)
    qed (auto simp: get_vec_def)
    then show ?thesis using 1 [OF True] True by (subst drop_empty_loop.simps) simp
  qed (simp add: drop_empty_loop.simps)
qed

lemma drop_empty_set:
  "v \<noteq> [] \<Longrightarrow> v \<in> set (drop_empty_loop i n vs) \<longleftrightarrow> v \<in> set vs"
  using arg_cong [OF drop_empty_loop_filter [of i n vs], of set] by auto

text \<open>
  Dropping empty histories never drops, duplicates or reorders a history that holds records.
\<close>

theorem drop_empty_keeps_histories:
  "filter (\<lambda>v. v \<noteq> []) (pt_procs (drop_empty_process_records_vectors pt)) =
     filter (\<lambda>v. v \<noteq> []) (pt_procs pt)"
  by (simp add: drop_empty_process_records_vectors_def drop_empty_loop_filter)

lemma drop_empty_loop_replicate:
  "drop_empty_loop i n (replicate m ([] :: 'a list)) = replicate (m - min (n - i) ((m + 1 - i) div 2)) []"
proof (induction "n - i" arbitrary: i m)
  case 0
  then show ?case by (simp add: drop_empty_loop.simps)
next
  case (Suc d)
  then have i: "i < n" "d = n - Suc i" by simp_all
  show ?case
  proof (cases "i < m")
    case True
    have "(m + 1 - i) div 2 = Suc ((m - 1 - i) div 2)" using True by (cases "m - i") auto
    moreover have "take i (replicate m ([] :: 'a list)) @ drop (Suc i) (replicate m []) = replicate (m - 1) []"
      using True by (simp flip: replicate_add)
    ultimately show ?thesis using True i Suc.hyps(1) [of "Suc i" "m - 1"] Suc.hyps(2)
      by (subst drop_empty_loop.simps) (auto simp: get_vec_def min_def)
  next
    case False
    then show ?thesis using i Suc.hyps(1) [of "Suc i" m]
      by (subst drop_empty_loop.simps) (simp add: get_vec_def)
  qed
qed

text \<open>
  It does not drop all of the empty ones: the loop stops before the last vector and skips the
  one that moves into the place of a removed one, so half of a row of empty vectors stays.
\<close>

theorem drop_empty_leaves_empty:
  "pt_procs (drop_empty_process_records_vectors (pt\<lparr>pt_procs := replicate (Suc k) []\<rparr>)) =
     replicate (max 1 ((k + 1) div 2)) []"
proof -
  have "Suc k - min k ((Suc k + 1) div 2) = max 1 ((k + 1) div 2)" by (cases "k \<le> 1") auto
  then show ?thesis
    using drop_empty_loop_replicate [of 0 k "Suc k", where ?'a = ProcessRecord]
    by (simp add: drop_empty_process_records_vectors_def del: replicate_Suc)
qed


section \<open>Terminated processes\<close>

definition still_tracked :: "ProcessTracker \<Rightarrow> Pid \<Rightarrow> bool" where
  "still_tracked pt pid \<longleftrightarrow>
     (case hm_get (sys_processes (pt_sysinfo pt)) pid of Some p \<Rightarrow> sp_status p \<noteq> Stop | None \<Rightarrow> False)"

lemma clean_terminated_filter:
  "filter (\<lambda>v. v \<noteq> []) (pt_procs (clean_terminated_process_records_vectors pt)) =
     filter (\<lambda>v. v \<noteq> [] \<and> still_tracked pt (ip_pid (pr_process (hd v)))) (pt_procs pt)"
proof -
  let ?f = "\<lambda>v. if v \<noteq> [] then
      (case hm_get (sys_processes (pt_sysinfo pt)) (ip_pid (pr_process (hd v))) of
         Some p \<Rightarrow> (if sp_status p = Stop then [] else v) | None \<Rightarrow> []) else v"
  have "filter (\<lambda>v. v \<noteq> []) (map ?f vs) =
      filter (\<lambda>v. v \<noteq> [] \<and> still_tracked pt (ip_pid (pr_process (hd v)))) vs" for vs :: "ProcessRecord list list"
    by (induction vs) (auto simp: still_tracked_def split: option.split)
  then show ?thesis
    by (simp add: clean_terminated_process_records_vectors_def drop_empty_process_records_vectors_def
        drop_empty_loop_filter)
qed

lemma find_records_nonempty:
  "find_records pt pid =
     (case filter (has_pid pid) (filter (\<lambda>v. v \<noteq> []) (pt_procs pt)) of [] \<Rightarrow> None | vs \<Rightarrow> Some (last vs))"
proof -
  have "filter (has_pid pid) (filter (\<lambda>v. v \<noteq> []) (pt_procs pt)) = filter (has_pid pid) (pt_procs pt)"
    by (auto simp: has_pid_iff intro: filter_cong)
  then show ?thesis by (simp add: find_records_filter)
qed

text \<open>
  C27. Cleaning removes exactly the histories of the processes that sysinfo no longer lists or
  lists as stopped; every other history is kept as it is. A dead process that is still listed
  keeps its history.
\<close>

theorem history_after_clean_terminated:
  "history (clean_terminated_process_records_vectors pt) pid =
     (if still_tracked pt pid then history pt pid else [])"
proof -
  let ?vs = "filter (\<lambda>v. v \<noteq> []) (pt_procs pt)"
  have "filter (has_pid pid) (filter (\<lambda>v. v \<noteq> []) (pt_procs (clean_terminated_process_records_vectors pt))) =
      (if still_tracked pt pid then filter (has_pid pid) ?vs else [])"
    unfolding clean_terminated_filter by (auto simp: has_pid_iff filter_empty_conv intro: filter_cong)
  then show ?thesis unfolding history_def find_records_nonempty by simp
qed

section \<open>Consumers\<close>

lemma of_le_total: "of_le a b \<or> of_le b a"
  by (cases a; cases b) (auto simp: of_le_def)

lemma of_le_trans: "of_le a b \<Longrightarrow> of_le b c \<Longrightarrow> of_le a c"
  by (cases a; cases b; cases c) (auto simp: of_le_def)

lemma higher_first_order: "transp higher_first" "higher_first x y \<or> higher_first y x"
  using of_le_trans of_le_total by (auto intro: transpI)

lemma consider_consumer_ok:
  assumes "consider_consumer w pt top_n ip cs = Inr cs'" "length cs \<le> unat top_n" "sorted_wrt higher_first cs"
  shows "length cs' \<le> unat top_n \<and> sorted_wrt higher_first cs'"
proof -
  have "cs' = cs \<or> (\<exists>c. cs' = push_consumer top_n c cs)"
    using assms(1) by (cases ip)
      (auto simp: consider_consumer_def Let_def bind_res_eq_Inr split: if_splits option.splits)
  moreover have "length (push_consumer top_n c cs) \<le> unat top_n" for c
    using assms(2) by (simp add: push_consumer_def Let_def)
  moreover have "sorted_wrt higher_first (push_consumer top_n c cs)" for c
    using sorted_sort_by [OF higher_first_order, of "cs @ [c]"]
    by (simp add: push_consumer_def Let_def butlast_conv_take sorted_wrt_take)
  ultimately show ?thesis using assms(2,3) by auto
qed

text \<open>
  The list of top consumers holds at most as many processes as asked for, by decreasing
  consumption.
\<close>

theorem top_consumers_bounded_sorted:
  assumes "get_top_consumers w pt top_n = Inr cs"
  shows "length cs \<le> unat top_n \<and> sorted_wrt (\<lambda>x y. of_le (snd y) (snd x)) cs"
  using assms unfolding get_top_consumers_def
  by (rule fold_res_invariant [where P = "\<lambda>cs. length cs \<le> unat top_n \<and> sorted_wrt higher_first cs"])
    (auto dest: consider_consumer_ok)

text \<open>
  The share of the node's busy time a process used between its last two records is a
  percentage: when the process was not busier than the node the value, if there is one, lies
  between 0 and 100, and there is none exactly when the node's busy time did not advance.
\<close>

theorem process_percentage_bounds:
  assumes "history pt pid = l # prev # rest"
    and "saturating_sub (ip_cpu_busy_time (pr_process l)) (ip_cpu_busy_time (pr_process prev))
      \<le> saturating_sub (ip_node_busy_time (pr_process l)) (ip_node_busy_time (pr_process prev))"
  shows "case get_process_cpu_time_delta_as_percentage pt pid of
      None \<Rightarrow> ip_node_busy_time (pr_process l) \<le> ip_node_busy_time (pr_process prev)
    | Some p \<Rightarrow> is_fin p \<and> 0 \<le> fin_val p \<and> fin_val p \<le> 100"
proof -
  have "find_records pt pid = Some (l # prev # rest)"
    using assms(1) by (auto simp: history_def split: option.splits)
  moreover have "saturating_sub a b = 0 \<longleftrightarrow> a \<le> b" for a b
    by (auto simp: saturating_sub_def)
  ultimately show ?thesis using f64_percentage [OF assms(2)]
    by (simp add: get_process_cpu_time_delta_as_percentage_def get_vec_def Let_def)
qed

definition example_history :: ProcessTracker where
  "example_history = (ProcessTracker_new env0 5 False)\<lparr>pt_procs :=
     [[\<lparr>pr_process = (example_process 7 ''sh'')\<lparr>ip_cpu_busy_time := 30, ip_node_busy_time := 90\<rparr>,
        pr_timestamp = Duration 2 0\<rparr>,
       \<lparr>pr_process = (example_process 7 ''sh'')\<lparr>ip_cpu_busy_time := 10, ip_node_busy_time := 40\<rparr>,
        pr_timestamp = Duration 1 0\<rparr>]]\<rparr>"

end
