(* ===== verification/Containers.thy ===== *)
theory Containers
  imports Process_Tracker
begin

text \<open>
  \<open>sensors/utils.rs\<close>, \<open>get_process_container_description\<close>: the labels of a process that runs in a
  container, from its cgroup paths and the containers and pods known to docker and kubernetes.
\<close>

section \<open>Data and operations\<close>

text \<open>The parts of \<open>docker_sync::Container\<close> and \<open>k8s_sync::Pod\<close> the sources read.\<close>

record Container =
  c_Id :: string
  c_Names :: "string list"
  c_Labels :: "(string, string) hmap option"

record Pod =
  pod_name :: "string option"
  pod_namespace :: "string option"
  pod_node_name :: "string option option"
  pod_container_ids :: "string option list option option"

text \<open>
  The regular expressions of the tracker: the tests for docker, kubernetes and containerd paths, and
  the first match of \<open>[[:alnum:]]{12,}\<close>.
\<close>

record cgroup_regexes =
  regex_cgroup_docker :: "string \<Rightarrow> bool"
  regex_cgroup_kubernetes :: "string \<Rightarrow> bool"
  regex_cgroup_containerd :: "string \<Rightarrow> bool"
  regex_clean_container_id :: "string \<Rightarrow> string option"

definition extract_pod_id_from_cgroup_path :: "string \<Rightarrow> string" where
  "extract_pod_id_from_cgroup_path pathname =
     (let container_id = last (split_char CHR ''/'' pathname);
          container_id = (case strip_prefix container_id ''docker-'' of Some x \<Rightarrow> x | None \<Rightarrow> container_id);
          container_id = (case strip_suffix container_id ''.scope'' of Some x \<Rightarrow> x | None \<Rightarrow> container_id)
      in if contains container_id ''cri-containerd'' then last (split_char CHR '':'' container_id)
         else container_id)"

definition escape_label :: "string \<Rightarrow> string" where
  "escape_label k =
     replace_char CHR '' '' ''_'' (replace_char CHR '':'' ''_''
       (replace_char CHR ''.'' ''_'' (replace_char CHR ''-'' ''_'' k)))"

definition insert_labels :: "(string, string) hmap \<Rightarrow> (string, string) hmap \<Rightarrow> (string, string) hmap" where
  "insert_labels labels description =
     fold (\<lambda>(k, v). hm_insert (''container_label_'' @ escape_label k) v) labels description"

definition describe_container :: "string \<Rightarrow> Container \<Rightarrow> (string, string) hmap \<Rightarrow> (string, string) hmap" where
  "describe_container docker_version container description =
     (let names = concat (map (\<lambda>n. replace_char CHR ''/'' [] (trim n)) (c_Names container));
          description = hm_insert ''container_names'' names description;
          description = hm_insert ''container_docker_version'' docker_version description
      in case c_Labels container of
           Some labels \<Rightarrow> insert_labels labels description
         | None \<Rightarrow> description)"

definition pod_runs_container :: "string \<Rightarrow> Pod \<Rightarrow> bool" where
  "pod_runs_container container_id pod =
     (case pod_container_ids pod of
        Some (Some ids) \<Rightarrow>
          list_ex (\<lambda>y. case y of
              Some i \<Rightarrow>
                (case strip_prefix i ''docker://'' of
                   Some final_id \<Rightarrow> final_id = container_id
                 | None \<Rightarrow> (case strip_prefix i ''containerd://'' of
                       Some final_id \<Rightarrow> final_id = container_id
                     | None \<Rightarrow> False))
            | None \<Rightarrow> False) ids
      | _ \<Rightarrow> False)"

definition describe_pod :: "Pod \<Rightarrow> (string, string) hmap \<Rightarrow> (string, string) hmap" where
  "describe_pod pod description =
     (let description = hm_insert ''container_scheduler'' ''kubernetes'' description;
          description = (case pod_name pod of
                           Some n \<Rightarrow> hm_insert ''kubernetes_pod_name'' n description | None \<Rightarrow> description);
          description = (case pod_namespace pod of
                           Some n \<Rightarrow> hm_insert ''kubernetes_pod_namespace'' n description | None \<Rightarrow> description)
      in case pod_node_name pod of
           Some (Some n) \<Rightarrow> hm_insert ''kubernetes_node_name'' n description
         | _ \<Rightarrow> description)"

text \<open>One turn of the loop over the cgroups; the second component is \<open>found\<close>.\<close>

definition describe_cgroup ::
  "cgroup_regexes \<Rightarrow> Container list \<Rightarrow> string \<Rightarrow> Pod list \<Rightarrow> string \<Rightarrow>
   (string, string) hmap \<Rightarrow> (string, string) hmap \<times> bool"
where
  "describe_cgroup re containers docker_version pods pathname description =
     (if regex_cgroup_docker re pathname then
        let description = hm_insert ''container_scheduler'' ''docker'' description
        in case regex_clean_container_id re pathname of
             Some container_id \<Rightarrow>
               let description = hm_insert ''container_id'' container_id description
               in (case find (\<lambda>x. c_Id x = container_id) containers of
                     Some container \<Rightarrow> describe_container docker_version container description
                   | None \<Rightarrow> description, True)
           | None \<Rightarrow> (description, False)
      else if regex_cgroup_containerd re pathname \<or> regex_cgroup_kubernetes re pathname then
        let description = (if regex_cgroup_containerd re pathname
                           then hm_insert ''container_runtime'' ''containerd'' description else description);
            container_id = extract_pod_id_from_cgroup_path pathname;
            description = hm_insert ''container_id'' container_id description
        in (case find (pod_runs_container container_id) pods of
              Some pod \<Rightarrow> describe_pod pod description
            | None \<Rightarrow> description, True)
      else (description, False))"

fun describe_cgroups ::
  "cgroup_regexes \<Rightarrow> Container list \<Rightarrow> string \<Rightarrow> Pod list \<Rightarrow> string list \<Rightarrow>
   (string, string) hmap \<Rightarrow> (string, string) hmap"
where
  "describe_cgroups re containers docker_version pods [] description = description"
| "describe_cgroups re containers docker_version pods (cg # cgs) description =
     (case describe_cgroup re containers docker_version pods cg description of
        (d, True) \<Rightarrow> d
      | (d, False) \<Rightarrow> describe_cgroups re containers docker_version pods cgs d)"

definition get_process_container_description ::
  "cgroup_regexes \<Rightarrow> env \<Rightarrow> ProcessTracker \<Rightarrow> Pid \<Rightarrow> Container list \<Rightarrow> string \<Rightarrow> Pod list \<Rightarrow>
   (string, string) hmap res"
where
  "get_process_container_description re e pt pid containers docker_version pods =
     (if filter (has_pid pid) (pt_procs pt) = [] then Inl Unwrap_None
      else Inr (case e_proc_cgroups e pid of
                  Some cgroups \<Rightarrow> describe_cgroups re containers docker_version pods cgroups []
                | None \<Rightarrow> []))"

section \<open>Container identifiers\<close>

lemma strip_prefix_append [simp]: "strip_prefix (p @ s) p = Some s"
  by (simp add: strip_prefix_def starts_with_iff)

lemma strip_suffix_append [simp]: "strip_suffix (s @ p) p = Some s"
  by (simp add: strip_suffix_def)

lemma split_char_at: "split_char c (s @ c # w) = split_char c s @ split_char c w"
proof (induction s)
  case (Cons x xs)
  show ?case
  proof (cases "split_char c xs")
    case Nil
    then show ?thesis using split_char_nonempty by blast
  qed (use Cons in auto)
qed simp

lemma last_split_char: "c \<notin> set w \<Longrightarrow> last (split_char c (s @ c # w)) = w"
  by (simp add: split_char_at split_char_id)

text \<open>
  The container identifier is read back from the cgroup path of a docker scope, whatever
  slice the scope is in.
\<close>

theorem extract_docker_scope:
  assumes "CHR ''/'' \<notin> set i" and "\<not> contains i ''cri-containerd''"
  shows "extract_pod_id_from_cgroup_path (sl @ ''/docker-'' @ i @ ''.scope'') = i"
proof -
  have "last (split_char CHR ''/'' (sl @ CHR ''/'' # (''docker-'' @ i @ ''.scope''))) = ''docker-'' @ i @ ''.scope''"
    using assms(1) by (intro last_split_char) auto
  then have "last (split_char CHR ''/'' (sl @ ''/docker-'' @ i @ ''.scope'')) = ''docker-'' @ i @ ''.scope''"
    by simp
  moreover have "strip_prefix (''docker-'' @ i @ ''.scope'') ''docker-'' = Some (i @ ''.scope'')"
    by (rule strip_prefix_append)
  ultimately show ?thesis using assms(2) strip_suffix_append [of i "''.scope''"]
    unfolding extract_pod_id_from_cgroup_path_def Let_def by simp
qed

section \<open>Labels\<close>

lemma escape_label_clean: "set (escape_label k) \<inter> {CHR ''-'', CHR ''.'', CHR '':'', CHR '' ''} = {}"
  by (auto simp: escape_label_def replace_char_def)

lemma insert_labels_get:
  "hm_get (insert_labels labels d) k =
     (case hm_get (rev (map (\<lambda>(k, v). (''container_label_'' @ escape_label k, v)) labels)) k of
        Some v \<Rightarrow> Some v | None \<Rightarrow> hm_get d k)"
proof (induction labels arbitrary: d)
  case (Cons kv labels)
  obtain x v where "kv = (x, v)" by (cases kv)
  then show ?case using Cons [of "hm_insert (''container_label_'' @ escape_label x) v d"]
    by (simp add: insert_labels_def map_add_def split: option.split)
qed (simp add: insert_labels_def)

text \<open>
  The loop stops at the first cgroup that names a container: the cgroups after it do not
  change the description, and a process none of whose cgroups matches has an empty one.
\<close>

theorem description_first_match:
  assumes "\<forall>cg \<in> set before. \<not> regex_cgroup_docker re cg \<and> \<not> regex_cgroup_containerd re cg \<and>
      \<not> regex_cgroup_kubernetes re cg"
  shows "describe_cgroups re cs ver pods before d = d \<and>
    (snd (describe_cgroup re cs ver pods cg d) \<longrightarrow>
     describe_cgroups re cs ver pods (before @ cg # rest) d = fst (describe_cgroup re cs ver pods cg d))"
proof -
  have b: "describe_cgroups re cs ver pods (before @ t) d = describe_cgroups re cs ver pods t d" for t
    using assms by (induction before) (simp_all add: describe_cgroup_def)
  then show ?thesis using b [of "[]"] by (cases "describe_cgroup re cs ver pods cg d") simp
qed

end
