(* ===== verification/Ebpf.thy ===== *)
theory Ebpf
  imports Environment
begin

text \<open>
  The kernel side (\<open>scaphandre-ebpf/src/main.rs\<close>): the four programs that account CPU time per
  process and per CPU and that watch which CPUs of a socket are active. The per-CPU hash maps are
  the kernel's; the programs take their operations as an argument, and the locale \<open>percpu_map\<close>
  states what the kernel documents of them.
\<close>

section \<open>State\<close>

definition MAX_KEYS :: nat where "MAX_KEYS = 32768"
definition MAX_CPU :: nat where "MAX_CPU = 256"
definition MAX_SOCKET :: nat where "MAX_SOCKET = 64"

text \<open>\<open>get_ptr\<close> and the writes through \<open>get_ptr_mut\<close> see the slot of the running CPU.\<close>

record 'm percpu_ops =
  pc_get :: "'m \<Rightarrow> nat \<Rightarrow> u32 \<Rightarrow> u64 option"
  pc_write :: "nat \<Rightarrow> u32 \<Rightarrow> u64 \<Rightarrow> 'm \<Rightarrow> 'm"
  pc_insert :: "nat \<Rightarrow> u32 \<Rightarrow> u64 \<Rightarrow> 'm \<Rightarrow> 'm"
  pc_remove :: "u32 \<Rightarrow> 'm \<Rightarrow> 'm"

record 'm kstate =
  PID_TIMES :: 'm
  PID_LAST :: 'm
  CPU_TIME :: "u64 list"
  CPU_SNAPSHOT :: "u64 list"
  CPU_STATE_EVENTS :: "CpuStateEvent list"
  CPU_TO_SOCKET :: "u16 list"

section \<open>Programs\<close>

definition add_pid_time :: "'m percpu_ops \<Rightarrow> nat \<Rightarrow> u32 \<Rightarrow> u64 \<Rightarrow> 'm kstate \<Rightarrow> 'm kstate" where
  "add_pid_time ops cpu pid delta st =
     (case pc_get ops (PID_TIMES st) cpu pid of
        Some p_time \<Rightarrow> st\<lparr>PID_TIMES := pc_write ops cpu pid (p_time + delta) (PID_TIMES st)\<rparr>
      | None \<Rightarrow> st\<lparr>PID_TIMES := pc_insert ops cpu pid delta (PID_TIMES st)\<rparr>)"

definition add_cpu_time :: "nat \<Rightarrow> u64 \<Rightarrow> 'm kstate \<Rightarrow> 'm kstate" where
  "add_cpu_time cpu delta st =
     (if cpu < length (CPU_TIME st) then st\<lparr>CPU_TIME := (CPU_TIME st)[cpu := CPU_TIME st ! cpu + delta]\<rparr>
      else st)"

text \<open>The reads of the task structures may fail (\<open>None\<close>), which ends the program.\<close>

definition try_sched_switch ::
  "'m percpu_ops \<Rightarrow> u64 \<Rightarrow> nat \<Rightarrow> u32 option \<Rightarrow> u32 option \<Rightarrow> u32 option \<Rightarrow> 'm kstate \<Rightarrow> 'm kstate"
where
  "try_sched_switch ops now cpu prev_tgid next_tgid prev_tid st =
     (case (prev_tgid, next_tgid, prev_tid) of
        (Some prev, Some nxt, Some tid) \<Rightarrow>
          let st = (if prev \<noteq> 0 \<and> tid \<noteq> 0 then
                      (case pc_get ops (PID_LAST st) cpu prev of
                         Some last_timestamp \<Rightarrow>
                           let delta = now - last_timestamp;
                               st = add_pid_time ops cpu prev delta st;
                               st = st\<lparr>PID_LAST := pc_remove ops prev (PID_LAST st)\<rparr>
                           in add_cpu_time cpu delta st
                       | None \<Rightarrow> st)
                    else st)
          in st\<lparr>PID_LAST := pc_insert ops cpu nxt now (PID_LAST st)\<rparr>
      | _ \<Rightarrow> st)"

definition sample_tick :: "'m percpu_ops \<Rightarrow> u64 \<Rightarrow> nat \<Rightarrow> u32 \<Rightarrow> u32 \<Rightarrow> 'm kstate \<Rightarrow> 'm kstate" where
  "sample_tick ops now cpu pid tid st =
     (if pid = 0 \<or> tid = 0 then st
      else (case pc_get ops (PID_LAST st) cpu pid of
              Some p \<Rightarrow>
                let delta = now - p;
                    st = add_pid_time ops cpu pid delta st;
                    st = add_cpu_time cpu delta st
                in st\<lparr>PID_LAST := pc_write ops cpu pid now (PID_LAST st)\<rparr>
            | None \<Rightarrow> st\<lparr>PID_LAST := pc_insert ops cpu pid now (PID_LAST st)\<rparr>))"

text \<open>\<open>args\<close> is the thread identifier and \<open>group_dead\<close>, if the tracepoint record could be read.\<close>

definition try_process_exit ::
  "'m percpu_ops \<Rightarrow> u64 \<Rightarrow> nat \<Rightarrow> u32 \<Rightarrow> (u32 \<times> u32) option \<Rightarrow> 'm kstate \<Rightarrow> 'm kstate"
where
  "try_process_exit ops now cpu tgid args st =
     (case args of
        None \<Rightarrow> st
      | Some (tid, group_dead) \<Rightarrow>
          let st = (if tgid \<noteq> 0 \<and> tid \<noteq> 0 then
                      (case pc_get ops (PID_LAST st) cpu tgid of
                         Some l \<Rightarrow>
                           let delta = now - l;
                               st = add_pid_time ops cpu tgid delta st;
                               st = add_cpu_time cpu delta st
                           in st\<lparr>PID_LAST := pc_remove ops tgid (PID_LAST st)\<rparr>
                       | None \<Rightarrow> st)
                    else st)
          in if group_dead \<noteq> 0 then
               st\<lparr>PID_TIMES := pc_remove ops tgid (PID_TIMES st), PID_LAST := pc_remove ops tgid (PID_LAST st)\<rparr>
             else st)"

text \<open>
  Counting the active CPUs of each socket: a \<open>None\<close> is the \<open>u32::MAX\<close> that marks a socket without
  CPUs. The loop ends at the first CPU without a socket.
\<close>

fun count_active :: "'m kstate \<Rightarrow> nat list \<Rightarrow> nat option list \<Rightarrow> nat option list" where
  "count_active st [] counts = counts"
| "count_active st (cpu # cpus) counts =
     (case (get_vec (CPU_SNAPSHOT st) cpu, get_vec (CPU_TIME st) cpu, get_vec (CPU_TO_SOCKET st) cpu) of
        (Some old, Some new, Some socket) \<Rightarrow>
          if socket = 0 then counts
          else (let i = unat socket - 1
                in count_active st cpus
                     (case get_vec counts i of
                        Some active_cpus \<Rightarrow>
                          counts[i := Some ((case active_cpus of None \<Rightarrow> 0 | Some n \<Rightarrow> n)
                                            + (if new - old \<noteq> 0 then 1 else 0))]
                      | None \<Rightarrow> counts))
      | _ \<Rightarrow> count_active st cpus counts)"

text \<open>The ring buffer may be full: \<open>room\<close> tells whether a reservation succeeds.\<close>

definition submit :: "(CpuStateEvent list \<Rightarrow> bool) \<Rightarrow> CpuStateEvent \<Rightarrow> 'm kstate \<Rightarrow> 'm kstate" where
  "submit room ev st =
     (if room (CPU_STATE_EVENTS st) then st\<lparr>CPU_STATE_EVENTS := CPU_STATE_EVENTS st @ [ev]\<rparr> else st)"

fun emit_events :: "(CpuStateEvent list \<Rightarrow> bool) \<Rightarrow> nat \<Rightarrow> nat option list \<Rightarrow> 'm kstate \<Rightarrow> 'm kstate" where
  "emit_events room socket [] st = st"
| "emit_events room socket (None # counts) st = st"
| "emit_events room socket (Some active_cpus # counts) st =
     emit_events room (Suc socket) counts
       (if active_cpus = 0 then submit room \<lparr>ev_socket_id = of_nat socket, ev_event_type = IdleEvent\<rparr> st
        else if active_cpus = 1 then submit room \<lparr>ev_socket_id = of_nat socket, ev_event_type = ActivationEvent\<rparr> st
        else st)"

definition snapshot_times :: "'m kstate \<Rightarrow> 'm kstate" where
  "snapshot_times st =
     st\<lparr>CPU_SNAPSHOT := fold (\<lambda>cpu snap. case get_vec (CPU_TIME st) cpu of
           Some c_time \<Rightarrow> (if cpu < length snap then snap[cpu := c_time] else snap)
         | None \<Rightarrow> snap) [0..<MAX_CPU] (CPU_SNAPSHOT st)\<rparr>"

definition cpu_state_tick :: "(CpuStateEvent list \<Rightarrow> bool) \<Rightarrow> 'm kstate \<Rightarrow> 'm kstate" where
  "cpu_state_tick room st =
     snapshot_times (emit_events room 0 (count_active st [0..<MAX_CPU] (replicate MAX_SOCKET None)) st)"

lemma emit_events_frame:
  "PID_TIMES (emit_events room i counts st) = PID_TIMES st"
  "CPU_TIME (emit_events room i counts st) = CPU_TIME st"
  "CPU_SNAPSHOT (emit_events room i counts st) = CPU_SNAPSHOT st"
  by (induction room i counts st rule: emit_events.induct) (simp_all add: submit_def)

lemma cpu_state_tick_frame:
  "PID_TIMES (cpu_state_tick room st) = PID_TIMES st" "CPU_TIME (cpu_state_tick room st) = CPU_TIME st"
  by (simp_all add: cpu_state_tick_def snapshot_times_def emit_events_frame)

section \<open>Runs\<close>

text \<open>The time of a process on a CPU, and the time of processes that have exited, per CPU.\<close>

definition slot :: "'m percpu_ops \<Rightarrow> 'm \<Rightarrow> nat \<Rightarrow> u32 \<Rightarrow> u64" where
  "slot ops m c k = (case pc_get ops m c k of None \<Rightarrow> 0 | Some v \<Rightarrow> v)"

definition retired_after ::
  "'m percpu_ops \<Rightarrow> u64 \<Rightarrow> nat \<Rightarrow> u32 \<Rightarrow> (u32 \<times> u32) option \<Rightarrow> 'm kstate \<Rightarrow> (nat \<Rightarrow> u64) \<Rightarrow> nat \<Rightarrow> u64"
where
  "retired_after ops now cpu tgid args st r c =
     (case args of
        Some (tid, dead) \<Rightarrow>
          if dead \<noteq> 0
          then r c + slot ops (PID_TIMES (try_process_exit ops now cpu tgid (Some (tid, 0)) st)) c tgid
          else r c
      | None \<Rightarrow> r c)"

text \<open>
  The states the kernel can reach by running the programs in any order and on any CPUs, each
  program to its end, with the time of exited processes beside.
\<close>

inductive kreach ::
  "'m percpu_ops \<Rightarrow> u32 set \<Rightarrow> (CpuStateEvent list \<Rightarrow> bool) \<Rightarrow> 'm kstate \<Rightarrow> (nat \<Rightarrow> u64) \<Rightarrow> bool"
  for ops :: "'m percpu_ops" and K :: "u32 set" and room :: "CpuStateEvent list \<Rightarrow> bool"
where
  boot: "\<lbrakk>\<And>c k. pc_get ops (PID_TIMES st) c k = None; CPU_TIME st = replicate MAX_CPU 0\<rbrakk> \<Longrightarrow>
    kreach ops K room st (\<lambda>_. 0)"
| switch: "\<lbrakk>kreach ops K room st r; \<forall>x. prev = Some x \<longrightarrow> x \<in> K\<rbrakk> \<Longrightarrow>
    kreach ops K room (try_sched_switch ops now cpu prev nxt tid st) r"
| sample: "\<lbrakk>kreach ops K room st r; pid \<in> K\<rbrakk> \<Longrightarrow>
    kreach ops K room (sample_tick ops now cpu pid tid st) r"
| process_exit: "\<lbrakk>kreach ops K room st r; tgid \<in> K\<rbrakk> \<Longrightarrow>
    kreach ops K room (try_process_exit ops now cpu tgid args st) (retired_after ops now cpu tgid args st r)"
| state_tick: "kreach ops K room st r \<Longrightarrow> kreach ops K room (cpu_state_tick room st) r"

text \<open>The balance of a CPU: its time is that of its live processes and of the exited ones.\<close>

definition balanced :: "'m percpu_ops \<Rightarrow> u32 set \<Rightarrow> (nat \<Rightarrow> u64) \<Rightarrow> 'm kstate \<Rightarrow> bool" where
  "balanced ops K r st \<longleftrightarrow>
     (\<forall>c < length (CPU_TIME st). CPU_TIME st ! c = (\<Sum>k\<in>K. slot ops (PID_TIMES st) c k) + r c)"

lemma balanced_PID_LAST [simp]: "balanced ops K r (s\<lparr>PID_LAST := m\<rparr>) = balanced ops K r s"
  by (simp add: balanced_def)

section \<open>What the kernel documents of a per-CPU hash map\<close>

text \<open>
  A key has one slot per CPU. A write changes the slot of one CPU. Inserting a new key sets the slot
  of the inserting CPU and zeroes the others; inserting an existing one changes the slot of the
  inserting CPU. Removing a key removes it for every CPU. Insertion works for the keys of \<open>K\<close>, a set
  no larger than the map.
\<close>

locale percpu_map =
  fixes ops :: "'m percpu_ops" and K :: "u32 set"
  assumes K: "finite K" "card K \<le> MAX_KEYS"
    and get_write: "pc_get ops m c k = Some v' \<Longrightarrow> pc_get ops (pc_write ops c k v m) c' k' =
          (if k' = k \<and> c' = c then Some v else pc_get ops m c' k')"
    and get_insert: "k \<in> K \<Longrightarrow> pc_get ops (pc_insert ops c k v m) c' k' =
          (if k' = k then if c' = c then Some v
             else (case pc_get ops m c' k of None \<Rightarrow> Some 0 | Some x \<Rightarrow> Some x)
           else pc_get ops m c' k')"
    and get_remove: "pc_get ops (pc_remove ops k m) c' k' = (if k' = k then None else pc_get ops m c' k')"
    and same_keys: "pc_get ops m c k = None \<longleftrightarrow> pc_get ops m c' k = None"
begin

lemma slot_add_pid_time:
  assumes "pid \<in> K"
  shows "slot ops (PID_TIMES (add_pid_time ops cpu pid delta st)) c k =
    slot ops (PID_TIMES st) c k + (if c = cpu \<and> k = pid then delta else 0)"
proof (cases "pc_get ops (PID_TIMES st) cpu pid")
  case None
  then have "pc_get ops (PID_TIMES st) c' pid = None" for c' using same_keys by blast
  then show ?thesis using None assms by (simp add: add_pid_time_def slot_def get_insert)
next
  case (Some v)
  then show ?thesis by (simp add: add_pid_time_def slot_def get_write [OF Some])
qed

lemma sum_add_pid_time:
  assumes "pid \<in> K"
  shows "(\<Sum>k\<in>K. slot ops (PID_TIMES (add_pid_time ops cpu pid delta st)) c k) =
    (\<Sum>k\<in>K. slot ops (PID_TIMES st) c k) + (if c = cpu then delta else 0)"
proof -
  have "(\<Sum>k\<in>K. if c = cpu \<and> k = pid then delta else 0) = (if c = cpu then delta else 0)"
    using K(1) assms by (cases "c = cpu") simp_all
  then show ?thesis by (simp add: slot_add_pid_time [OF assms] sum.distrib)
qed

text \<open>Charging a process and its CPU with the same time keeps the balance of the CPU.\<close>

lemma charge_balanced:
  assumes "pid \<in> K" "balanced ops K r st"
  shows "balanced ops K r (add_cpu_time cpu delta (add_pid_time ops cpu pid delta st))"
proof -
  have t: "CPU_TIME (add_pid_time ops cpu pid delta st) = CPU_TIME st"
    by (simp add: add_pid_time_def split: option.split)
  have p: "PID_TIMES (add_cpu_time cpu delta s) = PID_TIMES s" for s :: "'m kstate"
    by (simp add: add_cpu_time_def)
  show ?thesis using assms(2) unfolding balanced_def p sum_add_pid_time [OF assms(1)]
    by (auto simp: add_cpu_time_def t nth_list_update)
qed

lemma sum_remove:
  assumes "pid \<in> K"
  shows "(\<Sum>k\<in>K. slot ops (pc_remove ops pid m) c k) = (\<Sum>k\<in>K. slot ops m c k) - slot ops m c pid"
proof -
  have "(\<Sum>k\<in>K. slot ops m c k) = slot ops m c pid + (\<Sum>k\<in>K - {pid}. slot ops m c k)"
    using K(1) assms by (simp add: sum.remove)
  moreover have "(\<Sum>k\<in>K. slot ops (pc_remove ops pid m) c k) = (\<Sum>k\<in>K - {pid}. slot ops m c k)"
    using K(1) assms by (simp add: sum.remove slot_def get_remove)
  ultimately show ?thesis by simp
qed

lemma exit_alive_balanced:
  assumes "tgid \<in> K" "balanced ops K r st"
  shows "balanced ops K r (try_process_exit ops now cpu tgid (Some (tid, 0)) st)"
  using assms charge_balanced [OF assms, of cpu]
  by (auto simp: try_process_exit_def Let_def split: option.split)

lemma exit_balanced:
  assumes "tgid \<in> K" "balanced ops K r st"
  shows "balanced ops K (retired_after ops now cpu tgid args st r) (try_process_exit ops now cpu tgid args st)"
proof (cases args)
  case None
  then show ?thesis using assms(2) by (simp add: try_process_exit_def retired_after_def balanced_def)
next
  case (Some a)
  obtain tid dead where a: "a = (tid, dead)" by (cases a)
  let ?st = "try_process_exit ops now cpu tgid (Some (tid, 0)) st"
  have b: "balanced ops K r ?st" using exit_alive_balanced [OF assms] .
  show ?thesis
  proof (cases "dead = 0")
    case True
    then show ?thesis using b Some a by (simp add: balanced_def retired_after_def)
  next
    case False
    then have "try_process_exit ops now cpu tgid args st =
        ?st\<lparr>PID_TIMES := pc_remove ops tgid (PID_TIMES ?st), PID_LAST := pc_remove ops tgid (PID_LAST ?st)\<rparr>"
      using Some a by (simp add: try_process_exit_def Let_def)
    then show ?thesis using b Some a False
      by (simp add: balanced_def retired_after_def sum_remove [OF assms(1)] algebra_simps)
  qed
qed

lemma switch_balanced:
  assumes "\<forall>x. prev = Some x \<longrightarrow> x \<in> K" "balanced ops K r st"
  shows "balanced ops K r (try_sched_switch ops now cpu prev nxt tid st)"
proof -
  have "add_cpu_time cpu d (s\<lparr>PID_LAST := m\<rparr>) = (add_cpu_time cpu d s)\<lparr>PID_LAST := m\<rparr>"
    for d m and s :: "'m kstate" by (simp add: add_cpu_time_def)
  then show ?thesis using assms charge_balanced [of _ r st cpu]
    by (auto simp: try_sched_switch_def Let_def split: option.split)
qed

lemma sample_balanced:
  assumes "pid \<in> K" "balanced ops K r st"
  shows "balanced ops K r (sample_tick ops now cpu pid tid st)"
  using assms(2) charge_balanced [OF assms]
  by (auto simp: sample_tick_def Let_def split: option.split)

lemma kreach_balanced: "kreach ops K room st r \<Longrightarrow> balanced ops K r st"
proof (induction rule: kreach.induct)
  case (boot st)
  then show ?case by (simp add: balanced_def slot_def)
next
  case (state_tick st r)
  then show ?case by (simp add: balanced_def cpu_state_tick_frame)
qed (auto intro: switch_balanced sample_balanced exit_balanced)

lemma switch_in:
  "PID_LAST (try_sched_switch ops now cpu (Some 0) (Some n) (Some 0) st) = pc_insert ops cpu n now (PID_LAST st)"
  "PID_TIMES (try_sched_switch ops now cpu (Some 0) (Some n) (Some 0) st) = PID_TIMES st"
  by (simp_all add: try_sched_switch_def)

lemma add_cpu_time_frame:
  "PID_LAST (add_cpu_time cpu d s) = PID_LAST s" "PID_TIMES (add_cpu_time cpu d s) = PID_TIMES s"
  by (simp_all add: add_cpu_time_def)

lemma switch_out:
  assumes "p \<noteq> 0" "tid \<noteq> 0" "pc_get ops (PID_LAST st) cpu p = Some l" "p \<in> K"
  shows "PID_LAST (try_sched_switch ops now cpu (Some p) (Some n) (Some tid) st) =
      pc_insert ops cpu n now (pc_remove ops p (PID_LAST st))"
    and "slot ops (PID_TIMES (try_sched_switch ops now cpu (Some p) (Some n) (Some tid) st)) c k =
      slot ops (PID_TIMES st) c k + (if c = cpu \<and> k = p then now - l else 0)"
proof -
  have "PID_LAST (add_pid_time ops cpu p d st) = PID_LAST st" for d
    by (simp add: add_pid_time_def split: option.split)
  then show "PID_LAST (try_sched_switch ops now cpu (Some p) (Some n) (Some tid) st) =
      pc_insert ops cpu n now (pc_remove ops p (PID_LAST st))"
    "slot ops (PID_TIMES (try_sched_switch ops now cpu (Some p) (Some n) (Some tid) st)) c k =
      slot ops (PID_TIMES st) c k + (if c = cpu \<and> k = p then now - l else 0)"
    using assms by (simp_all add: try_sched_switch_def Let_def add_cpu_time_frame slot_add_pid_time)
qed

lemma two_threads:
  assumes "p \<in> K" "0 \<in> K" "p \<noteq> 0" "ta \<noteq> 0" "tb \<noteq> 0" "ca \<noteq> cb"
    and "\<And>c k. pc_get ops (PID_TIMES st) c k = None" "\<And>c k. pc_get ops (PID_LAST st) c k = None"
  shows "slot ops (PID_TIMES
     (try_sched_switch ops t5 cb (Some p) (Some 0) (Some tb)
     (try_sched_switch ops t4 ca (Some 0) (Some p) (Some 0)
     (try_sched_switch ops t3 ca (Some p) (Some 0) (Some ta)
     (try_sched_switch ops t2 cb (Some 0) (Some p) (Some 0)
     (try_sched_switch ops t1 ca (Some 0) (Some p) (Some 0) st)))))) cb p = t5"
proof -
  let ?s2 = "try_sched_switch ops t2 cb (Some 0) (Some p) (Some 0)
      (try_sched_switch ops t1 ca (Some 0) (Some p) (Some 0) st)"
  let ?s3 = "try_sched_switch ops t3 ca (Some p) (Some 0) (Some ta) ?s2"
  let ?s4 = "try_sched_switch ops t4 ca (Some 0) (Some p) (Some 0) ?s3"
  have "pc_get ops (PID_LAST ?s2) ca p = Some t1"
    using assms by (simp add: switch_in get_insert)
  note s3 = switch_out [OF assms(3,4) this assms(1), of t3 0]
  have "pc_get ops (PID_LAST ?s4) cb p = Some 0"
    using assms by (simp add: switch_in s3 get_insert get_remove)
  note s5 = switch_out(2) [OF assms(3,5) this assms(1), of t5 0 cb p]
  have "slot ops (PID_TIMES st) cb p = 0" using assms(7) by (simp add: slot_def)
  then show ?thesis unfolding s5 using assms(6) by (simp add: switch_in s3)
qed

end

section \<open>A reference per-CPU hash map\<close>

text \<open>A key is mapped to its slots, one for each CPU.\<close>

definition fun_ops :: "(u32 \<Rightarrow> (nat \<Rightarrow> u64) option) percpu_ops" where
  "fun_ops = \<lparr>pc_get = (\<lambda>m c k. map_option (\<lambda>f. f c) (m k)),
     pc_write = (\<lambda>c k v m. m(k := map_option (\<lambda>f. f(c := v)) (m k))),
     pc_insert = (\<lambda>c k v m. m(k := Some ((case m k of Some f \<Rightarrow> f | None \<Rightarrow> (\<lambda>_. 0))(c := v)))),
     pc_remove = (\<lambda>k m. m(k := None))\<rparr>"

lemma fun_ops_percpu_map:
  assumes "finite K" "card K \<le> MAX_KEYS"
  shows "percpu_map fun_ops K"
  using assms by unfold_locales (auto simp: fun_ops_def split: option.split)

interpretation fun_map: percpu_map fun_ops "{0, 1, 2, 3}"
  by (rule fun_ops_percpu_map) (simp_all add: MAX_KEYS_def)

section \<open>Properties\<close>

text \<open>
  C4. The accounting loses and invents no time: in every state the kernel can reach, the time of
  each CPU is the sum of the times its live processes used on it and of the times of the processes
  that exited, as long as the maps hold all the processes.
\<close>

theorem cpu_time_balanced:
  assumes "percpu_map ops K" "kreach ops K room st r" "c < length (CPU_TIME st)"
  shows "CPU_TIME st ! c = (\<Sum>k\<in>K. slot ops (PID_TIMES st) c k) + r c"
  using percpu_map.kreach_balanced [OF assms(1,2)] assms(3) by (simp add: balanced_def)

definition empty_kstate :: "(u32 \<Rightarrow> (nat \<Rightarrow> u64) option) kstate" where
  "empty_kstate = \<lparr>PID_TIMES = (\<lambda>_. None), PID_LAST = (\<lambda>_. None), CPU_TIME = replicate MAX_CPU 0,
     CPU_SNAPSHOT = replicate MAX_CPU 0, CPU_STATE_EVENTS = [], CPU_TO_SOCKET = replicate MAX_CPU 0\<rparr>"

definition example_switches :: "(u32 \<Rightarrow> (nat \<Rightarrow> u64) option) kstate" where
  "example_switches = try_sched_switch fun_ops 130 0 (Some 1) (Some 0) (Some 1)
     (try_sched_switch fun_ops 100 0 (Some 0) (Some 1) (Some 0) empty_kstate)"

lemma cpu_time_balanced_witness: "CPU_TIME example_switches ! 0 = 30"
proof -
  have "kreach fun_ops {0, 1, 2, 3} (\<lambda>_. True) empty_kstate (\<lambda>_. 0)"
    by (rule kreach.boot) (simp_all add: fun_ops_def empty_kstate_def)
  then have "kreach fun_ops {0, 1, 2, 3} (\<lambda>_. True) example_switches (\<lambda>_. 0)"
    unfolding example_switches_def by (intro kreach.switch) auto
  from cpu_time_balanced [OF fun_map.percpu_map_axioms this, of 0] show ?thesis
    by (simp add: example_switches_def empty_kstate_def try_sched_switch_def fun_ops_def slot_def
        add_pid_time_def add_cpu_time_def MAX_CPU_def)
qed

text \<open>
  C24. Two threads of one process on two CPUs are accounted wrongly: when the first is switched out
  and in again while the second runs, its removal drops the start time of the second, its return
  puts a zero there, and the second is charged the time since boot instead of the time it ran.
\<close>

theorem two_threads_charged_since_boot:
  assumes "percpu_map ops K" "p \<in> K" "0 \<in> K" "p \<noteq> 0" "ta \<noteq> 0" "tb \<noteq> 0" "ca \<noteq> cb"
    and "\<And>c k. pc_get ops (PID_TIMES st) c k = None" "\<And>c k. pc_get ops (PID_LAST st) c k = None"
  shows "slot ops (PID_TIMES
     (try_sched_switch ops t5 cb (Some p) (Some 0) (Some tb)
     (try_sched_switch ops t4 ca (Some 0) (Some p) (Some 0)
     (try_sched_switch ops t3 ca (Some p) (Some 0) (Some ta)
     (try_sched_switch ops t2 cb (Some 0) (Some p) (Some 0)
     (try_sched_switch ops t1 ca (Some 0) (Some p) (Some 0) st)))))) cb p = t5"
  using assms by (rule percpu_map.two_threads)

lemma two_threads_charged_since_boot_witness:
  "slot fun_ops (PID_TIMES
     (try_sched_switch fun_ops 5000 1 (Some 2) (Some 0) (Some 8)
     (try_sched_switch fun_ops 4900 0 (Some 0) (Some 2) (Some 0)
     (try_sched_switch fun_ops 4800 0 (Some 2) (Some 0) (Some 7)
     (try_sched_switch fun_ops 4700 1 (Some 0) (Some 2) (Some 0)
     (try_sched_switch fun_ops 4600 0 (Some 0) (Some 2) (Some 0) empty_kstate)))))) 1 2 = 5000"
  by (rule two_threads_charged_since_boot [OF fun_map.percpu_map_axioms])
    (simp_all add: empty_kstate_def fun_ops_def)

section \<open>Idle and activation events\<close>

text \<open>The CPUs of a socket, and those of them whose time moved since the last tick.\<close>

definition cpus_of :: "'m kstate \<Rightarrow> nat list \<Rightarrow> nat \<Rightarrow> nat list" where
  "cpus_of st cpus s = filter (\<lambda>cpu. unat (CPU_TO_SOCKET st ! cpu) = Suc s) cpus"

definition active_of :: "'m kstate \<Rightarrow> nat list \<Rightarrow> nat \<Rightarrow> nat list" where
  "active_of st cpus s = filter (\<lambda>cpu. CPU_TIME st ! cpu \<noteq> CPU_SNAPSHOT st ! cpu) (cpus_of st cpus s)"

definition tables_ok :: "'m kstate \<Rightarrow> bool" where
  "tables_ok st \<longleftrightarrow> length (CPU_TIME st) = MAX_CPU \<and> length (CPU_SNAPSHOT st) = MAX_CPU \<and>
     length (CPU_TO_SOCKET st) = MAX_CPU"

lemma count_active_append:
  assumes "tables_ok st" "\<forall>cpu \<in> set cpus. cpu < MAX_CPU \<and> CPU_TO_SOCKET st ! cpu \<noteq> 0"
  shows "count_active st (cpus @ rest) counts = count_active st rest (count_active st cpus counts)"
  using assms(2)
proof (induction cpus arbitrary: counts)
  case (Cons cpu cpus)
  then show ?case using assms(1) by (simp add: tables_ok_def get_vec_def Let_def)
qed simp

lemma count_active_nth:
  assumes "tables_ok st" "\<forall>cpu \<in> set cpus. cpu < MAX_CPU \<and> CPU_TO_SOCKET st ! cpu \<noteq> 0" "s < length counts"
  shows "length (count_active st cpus counts) = length counts \<and>
    count_active st cpus counts ! s =
      (if cpus_of st cpus s = [] then counts ! s
       else Some ((case counts ! s of None \<Rightarrow> 0 | Some n \<Rightarrow> n) + length (active_of st cpus s)))"
  using assms(2,3)
proof (induction cpus arbitrary: counts)
  case Nil
  then show ?case by (simp add: cpus_of_def)
next
  case (Cons cpu cpus)
  define i where "i = unat (CPU_TO_SOCKET st ! cpu) - 1"
  have nz: "CPU_TO_SOCKET st ! cpu \<noteq> 0" "cpu < MAX_CPU" using Cons.prems(1) by auto
  then have Si: "unat (CPU_TO_SOCKET st ! cpu) = Suc i" by (simp add: i_def unat_gt_0)
  define counts' where "counts' = (case get_vec counts i of
      Some a \<Rightarrow> counts[i := Some ((case a of None \<Rightarrow> 0 | Some n \<Rightarrow> n)
        + (if CPU_TIME st ! cpu \<noteq> CPU_SNAPSHOT st ! cpu then 1 else 0))] | None \<Rightarrow> counts)"
  have "count_active st (cpu # cpus) counts = count_active st cpus counts'"
    using assms(1) nz by (simp add: tables_ok_def get_vec_def counts'_def i_def Let_def)
  moreover have len: "length counts' = length counts" by (simp add: counts'_def split: option.split)
  moreover have "counts' ! s = (if s = i then Some ((case counts ! s of None \<Rightarrow> 0 | Some n \<Rightarrow> n)
        + (if CPU_TIME st ! cpu \<noteq> CPU_SNAPSHOT st ! cpu then 1 else 0)) else counts ! s)"
    using Cons.prems(2) by (auto simp: counts'_def get_vec_def)
  ultimately show ?case using Cons.IH [of counts'] Cons.prems Si
    by (auto simp: cpus_of_def active_of_def)
qed


definition socket_events :: "nat \<Rightarrow> nat \<Rightarrow> CpuStateEvent list" where
  "socket_events s active =
     (if active = 0 then [\<lparr>ev_socket_id = of_nat s, ev_event_type = IdleEvent\<rparr>]
      else if active = 1 then [\<lparr>ev_socket_id = of_nat s, ev_event_type = ActivationEvent\<rparr>] else [])"

lemma emit_events_prefix:
  "CPU_STATE_EVENTS (emit_events (\<lambda>_. True) i (map Some ns @ rest) st) =
     CPU_STATE_EVENTS (emit_events (\<lambda>_. True) (i + length ns) rest
       (st\<lparr>CPU_STATE_EVENTS := CPU_STATE_EVENTS st @ concat (map (\<lambda>(s, a). socket_events s a) (enumerate i ns))\<rparr>))"
proof (induction ns arbitrary: i st)
  case (Cons a ns)
  show ?case by (auto simp: Cons submit_def socket_events_def)
qed simp

lemma count_active_all:
  assumes "tables_ok st" "n \<le> MAX_CPU" "\<forall>cpu < n. CPU_TO_SOCKET st ! cpu \<noteq> 0"
    and "n < MAX_CPU \<Longrightarrow> CPU_TO_SOCKET st ! n = 0"
  shows "count_active st [0..<MAX_CPU] counts = count_active st [0..<n] counts"
proof (cases "n = MAX_CPU")
  case False
  then have n: "n < MAX_CPU" using assms(2) by simp
  have "[0..<MAX_CPU] = [0..<n] @ [n..<MAX_CPU]"
    using n upt_add_eq_append [of 0 n "MAX_CPU - n"] by simp
  also have "[n..<MAX_CPU] = n # [Suc n..<MAX_CPU]" using n by (rule upt_conv_Cons)
  finally have "[0..<MAX_CPU] = [0..<n] @ n # [Suc n..<MAX_CPU]" .
  then have "count_active st [0..<MAX_CPU] counts =
      count_active st (n # [Suc n..<MAX_CPU]) (count_active st [0..<n] counts)"
    using count_active_append [OF assms(1), of "[0..<n]"] assms(3) n by simp
  then show ?thesis using assms(1,4) n by (simp add: tables_ok_def get_vec_def)
qed simp

lemma snapshot_all:
  assumes "tables_ok st"
  shows "CPU_SNAPSHOT (snapshot_times st) = CPU_TIME st"
proof -
  let ?f = "\<lambda>cpu snap. case get_vec (CPU_TIME st) cpu of
      Some c_time \<Rightarrow> (if cpu < length snap then snap[cpu := c_time] else snap) | None \<Rightarrow> snap"
  have "fold ?f [0..<n] snap = take n (CPU_TIME st) @ drop n snap"
    if "n \<le> MAX_CPU" "length snap = MAX_CPU" for n snap
    using that
  proof (induction n)
    case (Suc n)
    have l: "length (take n (CPU_TIME st)) = n" using Suc.prems assms by (simp add: tables_ok_def)
    have "fold ?f [0..<n] snap = take n (CPU_TIME st) @ drop n snap" using Suc by simp
    then have "fold ?f [0..<Suc n] snap = ?f n (take n (CPU_TIME st) @ drop n snap)"
      by (simp only: upt_Suc fold_append if_True zero_le comp_apply fold_simps)
    also have "\<dots> = (take n (CPU_TIME st) @ drop n snap)[n := CPU_TIME st ! n]"
      using Suc.prems assms by (simp add: get_vec_def tables_ok_def)
    also have "\<dots> = take n (CPU_TIME st) @ (CPU_TIME st ! n) # drop (Suc n) snap"
      using Suc.prems l by (simp add: list_update_append Cons_nth_drop_Suc [symmetric])
    also have "\<dots> = take (Suc n) (CPU_TIME st) @ drop (Suc n) snap"
      using Suc.prems assms by (simp add: take_Suc_conv_app_nth tables_ok_def)
    finally show ?case .
  qed simp
  then show ?thesis using assms by (simp add: snapshot_times_def tables_ok_def)
qed

text \<open>
  C23. On a machine whose online CPUs come first and whose sockets are numbered from zero without a
  gap, a tick sends one event for every socket with no or one active CPU, idle or activation, and
  none for the busier ones, in the order of the sockets; it then takes the times as the new
  snapshot, so that the next tick compares with this one.
\<close>

theorem cpu_state_tick_events:
  assumes "tables_ok st" "n \<le> MAX_CPU" "\<forall>cpu < n. CPU_TO_SOCKET st ! cpu \<noteq> 0"
    and "n < MAX_CPU \<Longrightarrow> CPU_TO_SOCKET st ! n = 0"
    and "S \<le> MAX_SOCKET" "\<forall>s < S. cpus_of st [0..<n] s \<noteq> []"
    and "\<forall>s. S \<le> s \<and> s < MAX_SOCKET \<longrightarrow> cpus_of st [0..<n] s = []"
  shows "CPU_STATE_EVENTS (cpu_state_tick (\<lambda>_. True) st) = CPU_STATE_EVENTS st @
      concat (map (\<lambda>s. socket_events s (length (active_of st [0..<n] s))) [0..<S]) \<and>
    CPU_SNAPSHOT (cpu_state_tick (\<lambda>_. True) st) = CPU_TIME st"
proof
  let ?a = "\<lambda>s. length (active_of st [0..<n] s)"
  let ?c = "count_active st [0..<n] (replicate MAX_SOCKET None)"
  have cpus: "\<forall>cpu \<in> set [0..<n]. cpu < MAX_CPU \<and> CPU_TO_SOCKET st ! cpu \<noteq> 0" using assms(2,3) by auto
  have nth: "length ?c = MAX_SOCKET" "s < MAX_SOCKET \<Longrightarrow> ?c ! s = (if cpus_of st [0..<n] s = [] then None else Some (?a s))" for s
    using count_active_nth [OF assms(1) cpus, of _ "replicate MAX_SOCKET None"] by (force simp: MAX_SOCKET_def)+
  have c: "?c = map Some (map ?a [0..<S]) @ replicate (MAX_SOCKET - S) None"
    by (rule nth_equalityI) (use nth assms(5-7) in \<open>auto simp: nth_append\<close>)
  have e1: "CPU_STATE_EVENTS (emit_events (\<lambda>_. True) i (replicate k None) s) = CPU_STATE_EVENTS s" for i k s
    by (cases k) simp_all
  have e2: "enumerate 0 (map ?a [0..<S]) = map (\<lambda>s. (s, ?a s)) [0..<S]"
    by (simp add: enumerate_eq_zip zip_map2 zip_same_conv_map)
  have "CPU_STATE_EVENTS (emit_events (\<lambda>_. True) 0 ?c st) = CPU_STATE_EVENTS st @
      concat (map (\<lambda>s. socket_events s (?a s)) [0..<S])"
    unfolding c emit_events_prefix e1 e2 by (simp add: comp_def)
  then show "CPU_STATE_EVENTS (cpu_state_tick (\<lambda>_. True) st) = CPU_STATE_EVENTS st @
      concat (map (\<lambda>s. socket_events s (?a s)) [0..<S])"
    by (simp add: cpu_state_tick_def snapshot_times_def count_active_all [OF assms(1-4)])
  have "CPU_TO_SOCKET (emit_events r i c s) = CPU_TO_SOCKET s" for r i c and s :: "'a kstate"
    by (induction r i c s rule: emit_events.induct) (simp_all add: submit_def)
  then show "CPU_SNAPSHOT (cpu_state_tick (\<lambda>_. True) st) = CPU_TIME st"
    unfolding cpu_state_tick_def using assms(1)
    by (subst snapshot_all) (simp_all add: tables_ok_def emit_events_frame)
qed

lemma cpu_state_tick_events_witness:
  "CPU_STATE_EVENTS (cpu_state_tick (\<lambda>_. True)
      (empty_kstate\<lparr>CPU_TO_SOCKET := [1, 2] @ replicate 254 0, CPU_TIME := 7 # replicate 255 0\<rparr>)) =
     [\<lparr>ev_socket_id = 0, ev_event_type = ActivationEvent\<rparr>, \<lparr>ev_socket_id = 1, ev_event_type = IdleEvent\<rparr>]"
proof -
  let ?st = "empty_kstate\<lparr>CPU_TO_SOCKET := [1, 2] @ replicate 254 0, CPU_TIME := 7 # replicate 255 0\<rparr>"
  have up: "[0..<2] = [0, 1 :: nat]" by (simp add: upt_rec)
  have c: "cpus_of ?st [0..<2] 0 = [0]" "cpus_of ?st [0..<2] 1 = [1]"
    "2 \<le> s \<Longrightarrow> cpus_of ?st [0..<2] s = []" for s
    by (auto simp: cpus_of_def up)
  moreover have "active_of ?st [0..<2] 0 = [0]" "active_of ?st [0..<2] 1 = []"
    unfolding active_of_def c by (simp_all add: empty_kstate_def MAX_CPU_def)
  moreover have "s < 2 \<longleftrightarrow> s = 0 \<or> s = 1" for s :: nat by auto
  moreover have "tables_ok ?st" by (simp add: tables_ok_def empty_kstate_def MAX_CPU_def)
  moreover have "CPU_TO_SOCKET ?st ! 0 \<noteq> 0" "CPU_TO_SOCKET ?st ! 1 \<noteq> 0" "CPU_TO_SOCKET ?st ! 2 = 0"
    "CPU_STATE_EVENTS ?st = []"
    by (simp_all add: empty_kstate_def nth_Cons numeral_2_eq_2)
  moreover have "2 \<le> MAX_CPU" "2 \<le> MAX_SOCKET" by (simp_all add: MAX_CPU_def MAX_SOCKET_def)
  ultimately have "CPU_STATE_EVENTS (cpu_state_tick (\<lambda>_. True) ?st) = CPU_STATE_EVENTS ?st @
      concat (map (\<lambda>s. socket_events s (length (active_of ?st [0..<2] s))) [0..<2])"
    by (intro cpu_state_tick_events [THEN conjunct1]) auto
  then show ?thesis using \<open>active_of ?st [0..<2] 0 = [0]\<close> \<open>active_of ?st [0..<2] 1 = []\<close> \<open>CPU_STATE_EVENTS ?st = []\<close>
    by (simp add: socket_events_def up)
qed

end
