(* ===== verification/Domain.thy ===== *)
theory Domain
  imports Records
begin

text \<open>
  A RAPL domain (\<open>sensors/mod.rs\<close>, \<open>Domain\<close>; its reader is in \<open>sensors/powercap_rapl.rs\<close>): an
  energy counter file, a bounded buffer of the values read from it, and the power between the last
  two of them.
\<close>

section \<open>Data and operations\<close>

datatype DomainResource = Memory | CPU | GPU

fun DomainResource_to_string :: "DomainResource \<Rightarrow> string" where
  "DomainResource_to_string CPU = ''core''"
| "DomainResource_to_string GPU = ''uncore''"
| "DomainResource_to_string Memory = ''dram''"

definition DomainResource_parse :: "string \<Rightarrow> DomainResource res" where
  "DomainResource_parse name =
     (if name = ''core'' then Inr CPU
      else if name = ''uncore'' then Inr GPU
      else if name = ''dram'' then Inr Memory
      else Inl (Explicit_Panic (''Unsupported resource: '' @ name)))"

record Domain =
  dom_id :: u16
  dom_name :: string
  dom_counter_uj_path :: string
  dom_record_buffer :: "Record list"
  dom_buffer_max_kbytes :: u16
  dom_rapl_max_uj :: u64
  dom_background_power_uw :: f64
  dom_sensor_data :: "(string, string) hmap"

text \<open>The same expression reads the counter range of a domain and of a socket.\<close>

definition rapl_max_of :: "(string, string) hmap \<Rightarrow> u64" where
  "rapl_max_of sensor_data =
     (case hm_get sensor_data ''max_energy_range_uj'' of
        None \<Rightarrow> u64_max
      | Some v \<Rightarrow> (case parse_u64 (trim v) of None \<Rightarrow> u64_max | Some m \<Rightarrow> m))"

definition Domain_new :: "u16 \<Rightarrow> string \<Rightarrow> string \<Rightarrow> u16 \<Rightarrow> (string, string) hmap \<Rightarrow> Domain" where
  "Domain_new i name path kb sensor_data =
     \<lparr>dom_id = i, dom_name = name, dom_counter_uj_path = path, dom_record_buffer = [],
      dom_buffer_max_kbytes = kb, dom_rapl_max_uj = rapl_max_of sensor_data,
      dom_background_power_uw = f_zero, dom_sensor_data = sensor_data\<rparr>"

definition Domain_fmt :: "Domain \<Rightarrow> string" where
  "Domain_fmt d = ''Domain: '' @ dom_name d"

text \<open>\<open>Err\<close> of the reader is \<open>None\<close>; the \<open>unwrap\<close> of the missing key is a panic.\<close>

definition Domain_read_record :: "env \<Rightarrow> Domain \<Rightarrow> Record option res" where
  "Domain_read_record e d =
     bind_res (unwrap_opt (hm_get (dom_sensor_data d) ''source_file'')) (\<lambda>source_file.
       Inr (case e_read_to_string e source_file of
              Some result \<Rightarrow>
                Some \<lparr>timestamp = current_system_time_since_epoch e, rec_value = result,
                      rec_unit = MicroJoule\<rparr>
            | None \<Rightarrow> None))"

definition Domain_clean_old_records :: "nat \<Rightarrow> Domain \<Rightarrow> Domain res" where
  "Domain_clean_old_records rsz d =
     bind_res (index_vec (dom_record_buffer d) 0) (\<lambda>_.
       Inr (d\<lparr>dom_record_buffer :=
                clean_front rsz (dom_buffer_max_kbytes d) (dom_record_buffer d)\<rparr>))"

definition Domain_refresh_record :: "nat \<Rightarrow> env \<Rightarrow> Domain \<Rightarrow> Domain res" where
  "Domain_refresh_record rsz e d =
     bind_res (Domain_read_record e d) (\<lambda>r.
       let d = (case r of
                  Some rc \<Rightarrow> d\<lparr>dom_record_buffer := dom_record_buffer d @ [rc]\<rparr>
                | None \<Rightarrow> d)
       in if dom_record_buffer d \<noteq> [] then Domain_clean_old_records rsz d else Inr d)"

definition Domain_get_records_passive :: "Domain \<Rightarrow> Record list" where
  "Domain_get_records_passive d =
     map (\<lambda>r. Record_new (timestamp r) (rec_value r) MicroJoule) (dom_record_buffer d)"

text \<open>
  The energy between two readings of a counter with range \<open>rapl_max\<close>, and the power over the time
  between two timestamps; a domain and a socket compute them the same way.
\<close>

definition microjoules_between :: "u64 \<Rightarrow> u64 \<Rightarrow> u64 \<Rightarrow> u64" where
  "microjoules_between rapl_max previous_microjoules last_microjoules =
     (if last_microjoules \<ge> previous_microjoules then last_microjoules - previous_microjoules
      else saturating_add (saturating_sub rapl_max previous_microjoules) last_microjoules)"

definition microwatts_over :: "u64 \<Rightarrow> duration \<Rightarrow> duration \<Rightarrow> f64" where
  "microwatts_over microjoules previous_ts last_ts =
     (let time_diff = f64_sub (as_secs_f64 last_ts) (as_secs_f64 previous_ts)
      in f64_div (u64_as_f64 microjoules) time_diff)"

definition Domain_get_records_diff_power_microwatts :: "Domain \<Rightarrow> Record option" where
  "Domain_get_records_diff_power_microwatts d =
     (case last_two (dom_record_buffer d) of
        None \<Rightarrow> None
      | Some (previous_record, last_record) \<Rightarrow>
          (case (parse_u64 (trim (rec_value last_record)),
                 parse_u64 (trim (rec_value previous_record))) of
             (Some last_microjoules, Some previous_microjoules) \<Rightarrow>
               let microjoules = microjoules_between (dom_rapl_max_uj d)
                                   previous_microjoules last_microjoules;
                   microwatts = microwatts_over microjoules
                                  (timestamp previous_record) (timestamp last_record)
               in Some (Record_new (timestamp last_record)
                    (show_u64 (saturating_sub (f64_as_u64 microwatts)
                                 (f64_as_u64 (dom_background_power_uw d))))
                    MicroWatt)
           | _ \<Rightarrow> None))"

definition Domain_get_rapl_mmio_energy_microjoules :: "env \<Rightarrow> Domain \<Rightarrow> Record option" where
  "Domain_get_rapl_mmio_energy_microjoules e d =
     (case hm_get (dom_sensor_data d) ''mmio'' of
        None \<Rightarrow> None
      | Some mmio \<Rightarrow>
          (case e_read_to_string e mmio of
             Some v \<Rightarrow> Some (Record_new (current_system_time_since_epoch e) v MicroJoule)
           | None \<Rightarrow> None))"

section \<open>Names of resources\<close>

lemma DomainResource_to_string_inj: "DomainResource_to_string a = DomainResource_to_string b \<longleftrightarrow> a = b"
  by (cases a; cases b) simp_all

lemma DomainResource_parse_to_string: "DomainResource_parse (DomainResource_to_string r) = Inr r"
  by (cases r) (simp_all add: DomainResource_parse_def)

lemma DomainResource_parse_Inr:
  "DomainResource_parse name = Inr r \<longleftrightarrow> name = DomainResource_to_string r"
  by (cases r) (auto simp: DomainResource_parse_def)

section \<open>The buffer\<close>

lemma Domain_refresh_cases:
  assumes "0 < rsz" "Domain_read_record e d = Inr x"
    and "rsz * Suc (length (dom_record_buffer d)) < 2 ^ 24"
  shows "Domain_refresh_record rsz e d =
    Inr (d\<lparr>dom_record_buffer := keep_last (capacity rsz (dom_buffer_max_kbytes d))
       (dom_record_buffer d @ (case x of None \<Rightarrow> [] | Some r \<Rightarrow> [r]))\<rparr>)"
proof (cases x)
  case None
  have "rsz * length (dom_record_buffer d) < 2 ^ 24" using assms(3) by (simp add: algebra_simps)
  then show ?thesis using assms(1,2) None
    by (simp add: Domain_refresh_record_def Domain_clean_old_records_def clean_front_keep_last
        index_vec_def)
next
  case (Some r)
  then show ?thesis using assms
    by (simp add: Domain_refresh_record_def Domain_clean_old_records_def clean_front_keep_last
        index_vec_def)
qed

lemma Domain_clean_sensor_data:
  "Domain_clean_old_records rsz d = Inr d' \<Longrightarrow> dom_sensor_data d' = dom_sensor_data d"
  by (auto simp: Domain_clean_old_records_def bind_res_eq_Inr)

lemma Domain_refresh_sensor_data:
  "Domain_refresh_record rsz e d = Inr d' \<Longrightarrow> dom_sensor_data d' = dom_sensor_data d"
  by (auto simp: Domain_refresh_record_def bind_res_eq_Inr Let_def
      dest!: Domain_clean_sensor_data split: if_splits option.splits)

interpretation domain_gen: record_generator dom_record_buffer dom_buffer_max_kbytes
  Domain_read_record "Domain_refresh_record rsz" rsz "2 ^ 24" for rsz
proof
  fix e :: env and d d' :: Domain and x p e'
  show "\<lbrakk>0 < rsz; Domain_read_record e d = Inr x; rsz * Suc (length (dom_record_buffer d)) < 2 ^ 24\<rbrakk> \<Longrightarrow>
      \<exists>s'. Domain_refresh_record rsz e d = Inr s' \<and>
        dom_buffer_max_kbytes s' = dom_buffer_max_kbytes d \<and>
        dom_record_buffer s' = keep_last (capacity rsz (dom_buffer_max_kbytes d))
          (dom_record_buffer d @ (case x of None \<Rightarrow> [] | Some r \<Rightarrow> [r]))"
    by (simp add: Domain_refresh_cases)
  show "Domain_read_record e d = Inl p \<Longrightarrow> Domain_refresh_record rsz e d = Inl p"
    by (simp add: Domain_refresh_record_def)
  show "Domain_refresh_record rsz e d = Inr d' \<Longrightarrow> Domain_read_record e' d' = Domain_read_record e' d"
    by (simp add: Domain_read_record_def Domain_refresh_sensor_data)
qed

section \<open>Power\<close>

lemma microwatts_over_whole_seconds:
  assumes "t < t'" "unat t' < 2 ^ 53" "unat mj < 2 ^ 53"
  shows "f64_as_u64 (microwatts_over mj (Duration t 0) (Duration t' 0)) =
    of_nat (unat mj div (unat t' - unat t))"
proof -
  obtain m n k where mn: "unat t = m" "unat t' = n" "unat mj = k" by blast
  have tt: "m < n" "n < 2 ^ 53" "k < 2 ^ 53" using assms mn by (simp_all add: word_less_nat_alt)
  have e: "as_secs_f64 (Duration t 0) = Fin False (of_nat m)"
      "as_secs_f64 (Duration t' 0) = Fin False (of_nat n)"
      "u64_as_f64 mj = Fin False (of_nat k)"
    using tt mn by (simp_all add: as_secs_f64_whole u64_as_f64_def f64_exact)
  have d: "f64_sub (Fin False (of_nat n)) (Fin False (of_nat m)) = Fin False (of_nat (n - m))"
    using tt by (intro f64_sub_nat) simp_all
  have "f_to_nat (2 ^ 64) (f64_div (Fin False (of_nat k)) (Fin False (of_nat (n - m)))) = k div (n - m)"
    using tt by (intro f_to_nat_fdiv) simp_all
  then show ?thesis unfolding microwatts_over_def Let_def f64_as_u64_def e d mn by simp
qed

lemma microwatts_over_bounds:
  fixes p l :: duration
  defines "\<tau> \<equiv> seconds_of l - seconds_of p"
  assumes "unat (as_secs p) < 2 ^ 32" "unat (subsec_nanos p) < 10 ^ 9"
    and "unat (as_secs l) < 2 ^ 32" "unat (subsec_nanos l) < 10 ^ 9"
    and "1 / 2 ^ 19 \<le> \<tau>" "unat mj < 2 ^ 53" "of_nat (unat mj) \<le> 2 ^ 52 * \<tau>"
  shows "of_nat (unat mj) / (\<tau> + 1 / 2 ^ 20) - 1 \<le> of_nat (unat (f64_as_u64 (microwatts_over mj p l)))"
    and "of_nat (unat (f64_as_u64 (microwatts_over mj p l))) \<le> of_nat (unat mj) / (\<tau> - 1 / 2 ^ 20) + 1"
proof -
  define k where "k = (of_nat (unat mj) :: rat)"
  have k: "0 \<le> k" "k \<le> 2 ^ 52 * \<tau>" using assms(8) by (simp_all only: k_def of_nat_0_le_iff)
  obtain x where x: "as_secs_f64 p = Fin False x" "\<bar>x - seconds_of p\<bar> \<le> 1 / 2 ^ 22 + 1 / 2 ^ 54" "0 \<le> x" "x \<le> 2 ^ 32"
    using as_secs_f64_error [OF assms(2,3)] by blast
  obtain y where y: "as_secs_f64 l = Fin False y" "\<bar>y - seconds_of l\<bar> \<le> 1 / 2 ^ 22 + 1 / 2 ^ 54" "0 \<le> y" "y \<le> 2 ^ 32"
    using as_secs_f64_error [OF assms(4,5)] by blast
  define D where "D = rnd f64_format (y - x)"
  have xy: "\<bar>y - x\<bar> \<le> 2 powi 32" using x y by (simp add: abs_le_iff)
  then have "\<bar>D - (y - x)\<bar> \<le> 1 / 2 ^ 22"
    using rnd_abs_error [of "y - x" 32 f64_format] by (simp add: D_def power_int_def power_one_over)
  then have "\<bar>D - \<tau>\<bar> \<le> 1 / 2 ^ 22 + 2 * (1 / 2 ^ 22 + 1 / 2 ^ 54)"
    unfolding \<tau>_def by (rule distance_of_differences [OF _ y(2) x(2)])
  then have D: "\<bar>D - \<tau>\<bar> \<le> 1 / 2 ^ 20" by (rule order_trans) simp
  have \<tau>: "1 / 2 ^ 20 < \<tau>" using assms(6) by simp
  note q = nearby_quotient [OF k(1) D \<tau>]
  have "k / (\<tau> - 1 / 2 ^ 20) \<le> 2 ^ 53"
    using k(2) assms(6) by (simp add: pos_divide_le_eq)
  then have kD: "0 \<le> k / D" "k / D \<le> 2 ^ 53" using q k(1) by (simp, linarith)
  note fl = rnd_between_integers [of "k / D" f64_format, unfolded format_simps, OF kD]
  have yx: "y - x \<noteq> 0" using q(3) by (auto simp: D_def)
  have "\<bar>y - x\<bar> \<le> 2 ^ 53" using xy by simp
  then have sub: "f64_sub (Fin False y) (Fin False x) = Fin (y < x) D"
    using yx f64_fl_bounded [of "y - x" False] by (simp add: fsub_def D_def)
  have "u64_as_f64 mj = Fin False k" using assms(7) by (simp add: u64_as_f64_def f64_exact k_def del: of_nat_unat)
  moreover have "\<bar>k / D\<bar> \<le> 2 ^ 53" using kD by simp
  ultimately obtain s where "microwatts_over mj p l = Fin s (rnd f64_format (k / D))"
    using q(3) f64_fl_bounded [of "k / D"] unfolding microwatts_over_def Let_def x(1) y(1) sub by simp
  moreover have "\<lfloor>rnd f64_format (k / D)\<rfloor> \<le> 2 ^ 53" using fl(4) by (simp add: floor_le_iff)
  then have "nat \<lfloor>rnd f64_format (k / D)\<rfloor> \<le> nat (2 ^ 53)" by (rule nat_mono)
  then have "nat \<lfloor>rnd f64_format (k / D)\<rfloor> \<le> 2 ^ 64 - 1" by (rule order_trans) simp
  ultimately have "f_to_nat (2 ^ 64) (microwatts_over mj p l) = nat \<lfloor>rnd f64_format (k / D)\<rfloor>" (is "_ = ?n")
    by (simp add: min_absorb1)
  moreover have "?n < 2 ^ 64" using \<open>?n \<le> 2 ^ 64 - 1\<close> by simp
  ultimately have "unat (f64_as_u64 (microwatts_over mj p l)) = ?n"
    unfolding f64_as_u64_def by (simp only: unat_of_nat_64)
  then have v: "(of_nat (unat (f64_as_u64 (microwatts_over mj p l))) :: rat) = of_int \<lfloor>rnd f64_format (k / D)\<rfloor>"
    using fl(3) by (simp only: of_nat_nat)
  show "of_nat (unat mj) / (\<tau> + 1 / 2 ^ 20) - 1 \<le> of_nat (unat (f64_as_u64 (microwatts_over mj p l)))"
    "of_nat (unat (f64_as_u64 (microwatts_over mj p l))) \<le> of_nat (unat mj) / (\<tau> - 1 / 2 ^ 20) + 1"
    unfolding v k_def [symmetric] using q fl by linarith+
qed

lemma microjoules_between_counter:
  assumes "unat c < unat R" "En < unat R" and c': "c' = of_nat ((unat c + En) mod unat R)"
  shows "unat (microjoules_between R c c') = En"
proof -
  have R: "unat R < 2 ^ 64" by (rule unat_lt_64)
  have u: "unat c' = (unat c + En) mod unat R"
  proof -
    have "(unat c + En) mod unat R < unat R" using assms(1) by simp
    then have "(unat c + En) mod unat R < 2 ^ 64" using R by linarith
    then show ?thesis unfolding c' by (rule unat_of_nat_64)
  qed
  show ?thesis
  proof (cases "unat c + En < unat R")
    case True
    then have "unat c' = unat c + En" using u by simp
    then show ?thesis by (simp add: microjoules_between_def word_le_nat_alt unat_sub)
  next
    case False
    then have "(unat c + En) mod unat R = unat c + En - unat R"
      using assms(1,2) by (simp add: mod_if)
    moreover have "\<not> unat c \<le> unat c + En - unat R" using False assms(1,2) by linarith
    ultimately show ?thesis using u False assms(1,2) R by (simp add: microjoules_between_def word_le_nat_alt)
  qed
qed

text \<open>
  The power between two readings of a counter of range \<open>R\<close> that advanced by \<open>En\<close>: the quotient of
  energy and exact time, up to the rounding of the times (less than a microsecond) and of the
  truncation (less than one microwatt either way), and the integer quotient at whole seconds.
\<close>

lemma counter_power:
  fixes p l :: duration
  defines "\<tau> \<equiv> seconds_of l - seconds_of p"
  assumes "unat c < unat R" "En < unat R" "En < 2 ^ 53" "c' = of_nat ((unat c + En) mod unat R)"
    and "unat (as_secs p) < 2 ^ 32" "unat (subsec_nanos p) < 10 ^ 9"
    and "unat (as_secs l) < 2 ^ 32" "unat (subsec_nanos l) < 10 ^ 9"
    and "1 / 2 ^ 19 \<le> \<tau>" "of_nat En \<le> 2 ^ 52 * \<tau>"
  obtains v where "f64_as_u64 (microwatts_over (microjoules_between R c c') p l) = of_nat v" "v < 2 ^ 64"
    "of_nat En / (\<tau> + 1 / 2 ^ 20) - 1 \<le> of_nat v" "of_nat v \<le> of_nat En / (\<tau> - 1 / 2 ^ 20) + 1"
    "subsec_nanos p = 0 \<and> subsec_nanos l = 0 \<longrightarrow> v = En div (unat (as_secs l) - unat (as_secs p))"
proof -
  let ?e = "microjoules_between R c c'" and ?v = "unat (f64_as_u64 (microwatts_over (microjoules_between R c c') p l))"
  have e: "unat ?e = En" using assms(2,3,5) by (rule microjoules_between_counter)
  note b = microwatts_over_bounds [OF assms(6-9), of ?e, unfolded e, folded \<tau>_def, OF assms(10,4,11)]
  have "?v = En div (unat (as_secs l) - unat (as_secs p))" if "subsec_nanos p = 0 \<and> subsec_nanos l = 0"
  proof -
    have pl: "p = Duration (as_secs p) 0" "l = Duration (as_secs l) 0" using that by (metis duration.collapse)+
    have "as_secs p < as_secs l"
    proof (rule ccontr)
      assume "\<not> as_secs p < as_secs l"
      then have "unat (as_secs l) \<le> unat (as_secs p)" by (simp add: word_less_nat_alt)
      then have "(of_nat (unat (as_secs l)) :: rat) \<le> of_nat (unat (as_secs p))" by (simp only: of_nat_le_iff)
      then have "\<tau> \<le> 0" using that by (simp add: \<tau>_def seconds_of_def del: of_nat_unat)
      then show False using assms(10) by simp
    qed
    then have "f64_as_u64 (microwatts_over ?e (Duration (as_secs p) 0) (Duration (as_secs l) 0)) =
        of_nat (En div (unat (as_secs l) - unat (as_secs p)))"
      using microwatts_over_whole_seconds [of "as_secs p" "as_secs l" ?e] assms(4,8) e by simp
    moreover have "En div (unat (as_secs l) - unat (as_secs p)) < 2 ^ 64"
      by (rule le_less_trans [OF div_le_dividend]) (use assms(4) in simp)
    ultimately show ?thesis using pl by (simp add: unat_of_nat_64)
  qed
  then show thesis using that [of ?v] b by (simp add: unat_lt_64 [simplified])
qed

text \<open>
  C7. A domain's power is right across a wrap of the counter, at any timestamps. If the counter
  advanced by \<open>En\<close> microjoules modulo its range between the last two records, \<open>\<tau>\<close> seconds apart
  (seconds and nanoseconds, at least two microseconds, clocks below \<open>2 ^ 32\<close> seconds, at most
  \<open>2 ^ 52\<close> microwatts), the power reported at the time of the last record is a number \<open>v\<close> of
  microwatts less the background power of the domain, and never below zero: \<open>v\<close> is \<open>En\<close> divided by
  \<open>\<tau>\<close>, up to \<open>2 ^ -20\<close> seconds in the time and one microwatt in the result. When both timestamps
  are whole seconds it is the integer quotient exactly.
\<close>

theorem Domain_power_across_wrap:
  fixes p l :: Record
  defines "\<tau> \<equiv> seconds_of (timestamp l) - seconds_of (timestamp p)"
  assumes "dom_record_buffer d = h @ [p, l]"
    and "parse_u64 (trim (rec_value p)) = Some c" "unat c < unat (dom_rapl_max_uj d)"
    and "En < unat (dom_rapl_max_uj d)" "En < 2 ^ 53"
    and "parse_u64 (trim (rec_value l)) = Some (of_nat ((unat c + En) mod unat (dom_rapl_max_uj d)))"
    and "unat (as_secs (timestamp p)) < 2 ^ 32" "unat (subsec_nanos (timestamp p)) < 10 ^ 9"
    and "unat (as_secs (timestamp l)) < 2 ^ 32" "unat (subsec_nanos (timestamp l)) < 10 ^ 9"
    and "1 / 2 ^ 19 \<le> \<tau>" "of_nat En \<le> 2 ^ 52 * \<tau>"
  shows "\<exists>v. Domain_get_records_diff_power_microwatts d =
      Some (Record_new (timestamp l)
        (show_nat (v - unat (f64_as_u64 (dom_background_power_uw d)))) MicroWatt) \<and>
    of_nat En / (\<tau> + 1 / 2 ^ 20) - 1 \<le> of_nat v \<and> of_nat v \<le> of_nat En / (\<tau> - 1 / 2 ^ 20) + 1 \<and>
    (subsec_nanos (timestamp p) = 0 \<and> subsec_nanos (timestamp l) = 0 \<longrightarrow>
       v = En div (unat (as_secs (timestamp l)) - unat (as_secs (timestamp p))))"
proof -
  obtain v where "f64_as_u64 (microwatts_over (microjoules_between (dom_rapl_max_uj d) c
      (of_nat ((unat c + En) mod unat (dom_rapl_max_uj d)))) (timestamp p) (timestamp l)) = of_nat v"
      "v < 2 ^ 64"
    and "of_nat En / (\<tau> + 1 / 2 ^ 20) - 1 \<le> of_nat v" "of_nat v \<le> of_nat En / (\<tau> - 1 / 2 ^ 20) + 1"
      "subsec_nanos (timestamp p) = 0 \<and> subsec_nanos (timestamp l) = 0 \<longrightarrow>
        v = En div (unat (as_secs (timestamp l)) - unat (as_secs (timestamp p)))"
    using counter_power [OF assms(4-6) refl assms(8-11), folded \<tau>_def, OF assms(12,13)] .
  moreover from this(1,2) have "Domain_get_records_diff_power_microwatts d =
      Some (Record_new (timestamp l)
        (show_nat (v - unat (f64_as_u64 (dom_background_power_uw d)))) MicroWatt)"
    using assms(2,3,7)
    by (simp add: Domain_get_records_diff_power_microwatts_def Let_def show_u64_def unat_of_nat_64)
  ultimately show ?thesis by blast
qed

definition wrap_domain :: Domain where
  "wrap_domain = (Domain_new 0 ''core'' ''f'' 1 [(''max_energy_range_uj'', ''1000'')])
     \<lparr>dom_record_buffer := [Record_new (Duration 10 300000000) (show_nat 900 @ [CHR 0x0A]) MicroJoule,
                           Record_new (Duration 11 100000000) (show_nat 100 @ [CHR 0x0A]) MicroJoule]\<rparr>"

lemma Domain_power_across_wrap_witness:
  "\<exists>v. Domain_get_records_diff_power_microwatts wrap_domain =
     Some (Record_new (Duration 11 100000000) (show_nat v) MicroWatt) \<and> v \<in> {249, 250, 251}"
proof -
  have R: "dom_rapl_max_uj wrap_domain = 1000"
    by (simp add: wrap_domain_def Domain_new_def rapl_max_of_def text_eval)
  have p: "parse_u64 (show_nat 900) = Some 900" "parse_u64 (show_nat 100) = Some 100"
    using parse_u64_show_u64 [of 900] parse_u64_show_u64 [of 100] by (simp_all add: show_u64_def)
  obtain v where "Domain_get_records_diff_power_microwatts wrap_domain =
      Some (Record_new (Duration 11 100000000) (show_nat v) MicroWatt)"
    "200 / (8 / 10 + 1 / 2 ^ 20) - 1 \<le> (of_nat v :: rat)" "(of_nat v :: rat) \<le> 200 / (8 / 10 - 1 / 2 ^ 20) + 1"
    using Domain_power_across_wrap [of wrap_domain "[]"
        "Record_new (Duration 10 300000000) (show_nat 900 @ [CHR 0x0A]) MicroJoule"
        "Record_new (Duration 11 100000000) (show_nat 100 @ [CHR 0x0A]) MicroJoule" 900 200] R p
    by (auto simp: wrap_domain_def Domain_new_def Record_new_def f64_as_u64_def seconds_of_def)
  moreover from this(2,3) have "(of_nat 248 :: rat) < of_nat v" "(of_nat v :: rat) < of_nat 252" by simp_all
  then have "248 < v" "v < 252" by (simp_all only: of_nat_less_iff)
  then have "v \<in> {249, 250, 251}" by auto
  ultimately show ?thesis by blast
qed

text \<open>
  C16. However often a domain is refreshed, no refresh panics once the source file is configured,
  and the buffer is the window of the newest \<open>capacity\<close> records read: nothing is lost before
  that many newer records arrived, and failed reads leave no trace.
\<close>

theorem Domain_buffer_window:
  assumes "0 < rsz" "3 * rsz + 2 ^ 16 < 2 ^ 24"
    and "hm_get (dom_sensor_data d) ''source_file'' = Some f" and "dom_record_buffer d = []"
  shows "\<exists>d'. fold_res (Domain_refresh_record rsz) es d = Inr d' \<and>
    dom_record_buffer d' = keep_last (capacity rsz (dom_buffer_max_kbytes d))
      (read_records Domain_read_record d es) \<and>
    read_records Domain_read_record d es =
      concat (map (\<lambda>e. case e_read_to_string e f of
                         Some v \<Rightarrow> [Record_new (e_now e) v MicroJoule] | None \<Rightarrow> []) es)"
proof -
  have "rsz * Suc (capacity rsz (dom_buffer_max_kbytes d)) < 2 ^ 24"
    by (rule capacity_bytes_less) (use assms(1,2) in auto)
  moreover have rd: "Domain_read_record e d =
      Inr (map_option (\<lambda>v. Record_new (e_now e) v MicroJoule) (e_read_to_string e f))" for e
    using assms(3) by (simp add: Domain_read_record_def Record_new_def
        current_system_time_since_epoch_def split: option.split)
  moreover have "read_records Domain_read_record d es =
      concat (map (\<lambda>e. case e_read_to_string e f of
                         Some v \<Rightarrow> [Record_new (e_now e) v MicroJoule] | None \<Rightarrow> []) es)"
    unfolding read_records_def rd
    by (intro arg_cong [where f = concat] map_cong) (auto split: option.split)
  ultimately show ?thesis
    using domain_gen.run_window [of rsz d es] assms(1,4) by auto
qed

lemma Domain_buffer_window_witness:
  "\<exists>d'. fold_res (Domain_refresh_record 48) [env0, env0\<lparr>e_read_to_string := \<lambda>_. Some ''5''\<rparr>]
       (Domain_new 0 ''core'' ''f'' 1 [(''source_file'', ''f'')]) = Inr d' \<and>
     dom_record_buffer d' = [Record_new (Duration 0 0) ''5'' MicroJoule]"
  using Domain_buffer_window [of 48 "Domain_new 0 ''core'' ''f'' 1 [(''source_file'', ''f'')]" "''f''"
      "[env0, env0\<lparr>e_read_to_string := \<lambda>_. Some ''5''\<rparr>]"]
  by (auto simp: Domain_new_def env0_def capacity_def)

end
