(* ===== verification/Core.thy ===== *)
theory Core
  imports Records
begin

text \<open>
  A logical CPU (\<open>sensors/mod.rs\<close>, \<open>CPUCore\<close>): its ten-valued records of idle time, APERF, MPERF,
  TSC, busy time, instructions and cycles, and the metrics between the last two of them.
\<close>

section \<open>Data and operations\<close>

record CPUCore =
  core_id :: u16
  core_attributes :: "(string, string) hmap"
  core_record_buffer :: "MultiValuedRecord list"
  core_buffer_max_kbytes :: u16
  core_instructions :: "Counter option"
  core_cycles :: "Counter option"

definition CPUCore_clone :: "CPUCore \<Rightarrow> CPUCore" where
  "CPUCore_clone c = c\<lparr>core_instructions := None, core_cycles := None\<rparr>"

definition CPUCore_new :: "env \<Rightarrow> u16 \<Rightarrow> (string, string) hmap \<Rightarrow> CPUCore" where
  "CPUCore_new e i attributes =
     (let cpu_id = unat i;
          open_counter = (\<lambda>h. if e_perf_open e (h, cpu_id) then Some (h, cpu_id) else None)
      in \<lparr>core_id = i, core_attributes = attributes, core_record_buffer = [],
          core_buffer_max_kbytes = 1, core_instructions = open_counter INSTRUCTIONS,
          core_cycles = open_counter CPU_CYCLES\<rparr>)"

text \<open>
  The sum over the \<open>cpuidle\<close> states other than \<open>state0\<close>. The sum of the \<open>u64\<close> times wraps. The
  file name of an entry is UTF-8 here.
\<close>

definition idle_time_of_entry :: "env \<Rightarrow> string \<Rightarrow> string option \<Rightarrow> u64" where
  "idle_time_of_entry e base_path entry =
     (case entry of
        None \<Rightarrow> 0
      | Some name \<Rightarrow>
          let state_path = path_join base_path name
          in if e_is_dir e state_path \<and> name \<noteq> ''state0'' then
               (case e_read_to_string e (path_join state_path ''time'') of
                  None \<Rightarrow> 0
                | Some time_str \<Rightarrow> (case parse_u64 (trim time_str) of None \<Rightarrow> 0 | Some t \<Rightarrow> t))
             else 0)"

definition total_idle_us :: "env \<Rightarrow> u16 \<Rightarrow> u64" where
  "total_idle_us e i =
     (let base_path = ''/sys/devices/system/cpu/cpu'' @ show_u16 i @ ''/cpuidle''
      in case e_read_dir e base_path of
           None \<Rightarrow> 0
         | Some entries \<Rightarrow> foldl (\<lambda>total en. total + idle_time_of_entry e base_path en) 0 entries)"

text \<open>\<open>u64::from_le_bytes\<close> of a buffer of eight zero bytes the read filled from the start.\<close>

definition from_le_bytes :: "u8 list \<Rightarrow> u64" where
  "from_le_bytes bs = of_nat (foldr (\<lambda>b acc. unat b + 256 * acc) bs 0)"

definition read_msr :: "env \<Rightarrow> u16 \<Rightarrow> u64 \<Rightarrow> u64 option" where
  "read_msr e i msr =
     (case e_read_at e (''/dev/cpu/'' @ show_u16 i @ ''/msr'') msr of
        None \<Rightarrow> None
      | Some bs \<Rightarrow> Some (from_le_bytes (take 8 (bs @ replicate 8 0))))"

definition cputime_total :: "CpuTime \<Rightarrow> u64" where
  "cputime_total t =
     ct_user t + ct_nice t + ct_system t + ct_idle t + or_zero (ct_iowait t) + or_zero (ct_irq t)
       + or_zero (ct_softirq t) + or_zero (ct_steal t) + or_zero (ct_guest t)
       + or_zero (ct_guest_nice t)"

definition cputime_busy :: "CpuTime \<Rightarrow> u64" where
  "cputime_busy t = cputime_total t - ct_idle t - or_zero (ct_iowait t)"

definition core_times :: "env \<Rightarrow> u16 \<Rightarrow> u64 \<times> u64 \<times> u64 \<times> u64" where
  "core_times e i =
     (case e_kernel_stats e of
        None \<Rightarrow> (0, 0, 0, 0)
      | Some ks \<Rightarrow>
          (case get_vec (ks_cpu_time ks) (unat i) of
             None \<Rightarrow> (0, 0, 0, 0)
           | Some ct \<Rightarrow> (cputime_busy ct, cputime_total ct, cputime_busy (ks_total ks),
                         cputime_total (ks_total ks))))"

definition scaled_count :: "env \<Rightarrow> Counter option \<Rightarrow> f64" where
  "scaled_count e counter =
     (case counter of
        None \<Rightarrow> f_zero
      | Some c \<Rightarrow>
          (case e_perf_read e c of
             None \<Rightarrow> f_zero
           | Some r \<Rightarrow>
               if pc_time_running r > 0 then
                 f64_mul (u64_as_f64 (pc_count r))
                   (f64_div (u64_as_f64 (pc_time_enabled r)) (u64_as_f64 (pc_time_running r)))
               else f_zero))"

definition CPUCore_read_record :: "env \<Rightarrow> CPUCore \<Rightarrow> MultiValuedRecord option res" where
  "CPUCore_read_record e c =
     (let mperf = or_zero (read_msr e (core_id c) 0xE7);
          aperf = or_zero (read_msr e (core_id c) 0xE8);
          tsc = or_zero (read_msr e (core_id c) 0x10);
          (core_busy, core_total, node_busy, node_total) = core_times e (core_id c);
          instr_scaled = scaled_count e (core_instructions c);
          cyc_scaled = scaled_count e (core_cycles c)
      in Inr (Some (MultiValuedRecord_new (current_system_time_since_epoch e)
           [show_u64 (total_idle_us e (core_id c)), show_u64 mperf, show_u64 aperf,
            show_u64 core_busy, show_u64 core_total, show_u64 node_busy, show_u64 node_total,
            show_f64 instr_scaled, show_f64 cyc_scaled, show_u64 tsc]
           [MicroSeconds, Cycles, Cycles, Numeric, Numeric, Numeric, Numeric, Numeric, Numeric,
            Cycles])))"

definition CPUCore_clean_old_records :: "nat \<Rightarrow> CPUCore \<Rightarrow> CPUCore" where
  "CPUCore_clean_old_records rsz c =
     (if core_record_buffer c = [] then c
      else c\<lparr>core_record_buffer :=
               clean_front rsz (core_buffer_max_kbytes c) (core_record_buffer c)\<rparr>)"

definition CPUCore_refresh_record :: "nat \<Rightarrow> env \<Rightarrow> CPUCore \<Rightarrow> CPUCore res" where
  "CPUCore_refresh_record rsz e c =
     bind_res (CPUCore_read_record e c) (\<lambda>r.
       let c = (case r of
                  Some rc \<Rightarrow> c\<lparr>core_record_buffer := core_record_buffer c @ [rc]\<rparr>
                | None \<Rightarrow> c)
       in Inr (if core_record_buffer c \<noteq> [] then CPUCore_clean_old_records rsz c else c))"

definition CPUCore_get_records_passive :: "CPUCore \<Rightarrow> MultiValuedRecord list" where
  "CPUCore_get_records_passive c =
     map (\<lambda>r. MultiValuedRecord_new (mv_timestamp r) (mv_values r) (mv_units r)) (core_record_buffer c)"

text \<open>
  \<open>read_stats\<close> removes the entry of the core from the vector of procfs, which panics when the
  vector is shorter.
\<close>

definition CPUCore_read_stats :: "env \<Rightarrow> CPUCore \<Rightarrow> CPUStat option res" where
  "CPUCore_read_stats e c =
     (case e_kernel_stats e of
        None \<Rightarrow> Inr None
      | Some ks \<Rightarrow>
          map_res (\<lambda>ct. Some (from_procfs_cputime ct)) (index_vec (ks_cpu_time ks) (unat (core_id c))))"

record CPUCoreMetrics =
  cm_cpu_time_percentage :: f64
  cm_aperf :: u64
  cm_mperf :: u64
  cm_tsc :: u64
  cm_inst :: f64
  cm_cyc :: f64
  cm_ipc :: f64

definition parse_u64_or_0 :: "string \<Rightarrow> u64" where
  "parse_u64_or_0 s = or_zero (parse_u64 (trim s))"

definition parse_f64_or_0 :: "string \<Rightarrow> f64" where
  "parse_f64_or_0 s = (case parse_f64 (trim s) of None \<Rightarrow> f_zero | Some v \<Rightarrow> v)"

definition get_core_metrics_delta :: "CPUCore \<Rightarrow> CPUCoreMetrics option" where
  "get_core_metrics_delta c =
     (case last_two (core_record_buffer c) of
        None \<Rightarrow> None
      | Some (previous, l) \<Rightarrow>
          if length (mv_values l) \<ge> 10 \<and> length (mv_values previous) \<ge> 10 then
            let delta = (\<lambda>k. saturating_sub (parse_u64_or_0 (mv_values l ! k))
                               (parse_u64_or_0 (mv_values previous ! k)));
                aperf_delta = delta 2;
                mperf_delta = delta 1;
                tsc_delta = delta 9;
                core_busy_delta = delta 3;
                node_busy_delta = delta 5;
                inst = f64_sub (parse_f64_or_0 (mv_values l ! 7))
                         (parse_f64_or_0 (mv_values previous ! 7));
                cyc = f64_sub (parse_f64_or_0 (mv_values l ! 8))
                        (parse_f64_or_0 (mv_values previous ! 8))
            in Some \<lparr>cm_cpu_time_percentage =
                       (if node_busy_delta \<noteq> 0 then
                          f64_mul (f64_div (u64_as_f64 core_busy_delta) (u64_as_f64 node_busy_delta))
                            (f64_lit 100)
                        else f_zero),
                     cm_aperf = aperf_delta, cm_mperf = mperf_delta, cm_tsc = tsc_delta,
                     cm_inst = inst, cm_cyc = cyc,
                     cm_ipc = (if flt f_zero cyc then f64_div inst cyc else f_zero)\<rparr>
          else None)"

section \<open>The buffer\<close>

lemma CPUCore_refresh_cases:
  assumes "0 < rsz" "CPUCore_read_record e c = Inr x"
    and "rsz * Suc (length (core_record_buffer c)) < 2 ^ 24"
  shows "CPUCore_refresh_record rsz e c =
    Inr (c\<lparr>core_record_buffer := keep_last (capacity rsz (core_buffer_max_kbytes c))
       (core_record_buffer c @ (case x of None \<Rightarrow> [] | Some r \<Rightarrow> [r]))\<rparr>)"
proof (cases x)
  case None
  have "rsz * length (core_record_buffer c) < 2 ^ 24" using assms(3) by (simp add: algebra_simps)
  then show ?thesis using assms(1,2) None
    by (simp add: CPUCore_refresh_record_def CPUCore_clean_old_records_def clean_front_keep_last)
next
  case (Some r)
  then show ?thesis using assms
    by (simp add: CPUCore_refresh_record_def CPUCore_clean_old_records_def clean_front_keep_last)
qed

lemma CPUCore_refresh_source:
  assumes "CPUCore_refresh_record rsz e c = Inr c'"
  shows "core_id c' = core_id c" "core_instructions c' = core_instructions c"
    "core_cycles c' = core_cycles c"
  using assms by (auto simp: CPUCore_refresh_record_def bind_res_eq_Inr Let_def
      CPUCore_clean_old_records_def split: if_splits option.splits)

interpretation core_gen: record_generator core_record_buffer core_buffer_max_kbytes
  CPUCore_read_record "CPUCore_refresh_record rsz" rsz "2 ^ 24" for rsz
proof
  fix e :: env and c c' :: CPUCore and x p e'
  show "\<lbrakk>0 < rsz; CPUCore_read_record e c = Inr x; rsz * Suc (length (core_record_buffer c)) < 2 ^ 24\<rbrakk> \<Longrightarrow>
      \<exists>s'. CPUCore_refresh_record rsz e c = Inr s' \<and>
        core_buffer_max_kbytes s' = core_buffer_max_kbytes c \<and>
        core_record_buffer s' = keep_last (capacity rsz (core_buffer_max_kbytes c))
          (core_record_buffer c @ (case x of None \<Rightarrow> [] | Some r \<Rightarrow> [r]))"
    by (simp add: CPUCore_refresh_cases)
  show "CPUCore_read_record e c = Inl p \<Longrightarrow> CPUCore_refresh_record rsz e c = Inl p"
    by (simp add: CPUCore_refresh_record_def)
  show "CPUCore_refresh_record rsz e c = Inr c' \<Longrightarrow> CPUCore_read_record e' c' = CPUCore_read_record e' c"
    by (simp add: CPUCore_read_record_def CPUCore_refresh_source)
qed

section \<open>Metrics\<close>

lemma scaled_count_valid [simp]: "valid_f f64_format (scaled_count e k)"
  by (auto simp: scaled_count_def valid_f_ops simp del: valid_f.simps split: option.split)

lemma parse_or_0_show [simp]:
  "parse_u64_or_0 (show_u64 w) = w"
  "valid_f f64_format v \<Longrightarrow> parse_f64_or_0 (show_f64 v) = v"
  by (simp_all add: parse_u64_or_0_def parse_f64_or_0_def)

lemma CPUCore_read_record_ok: "\<exists>r. CPUCore_read_record e c = Inr (Some r)"
  by (simp add: CPUCore_read_record_def Let_def split: prod.split)

lemma core_two_refreshes:
  assumes "0 < rsz" "rsz * Suc (capacity rsz (core_buffer_max_kbytes c)) < 2 ^ 24"
    and "0 < max_bytes (core_buffer_max_kbytes c)"
    and "length (core_record_buffer c) \<le> capacity rsz (core_buffer_max_kbytes c)"
  shows "\<exists>c' p l. fold_res (CPUCore_refresh_record rsz) [e1, e2] c = Inr c' \<and>
    CPUCore_read_record e1 c = Inr (Some p) \<and> CPUCore_read_record e2 c = Inr (Some l) \<and>
    last_two (core_record_buffer c') = Some (p, l)"
proof -
  obtain p where p: "CPUCore_read_record e1 c = Inr (Some p)" using CPUCore_read_record_ok by blast
  obtain l where l: "CPUCore_read_record e2 c = Inr (Some l)" using CPUCore_read_record_ok by blast
  let ?k = "capacity rsz (core_buffer_max_kbytes c)"
  obtain c' where c': "fold_res (CPUCore_refresh_record rsz) [e1, e2] c = Inr c'"
    "core_record_buffer c' = keep_last ?k (core_record_buffer c @ read_records CPUCore_read_record c [e1, e2])"
    using core_gen.run_window [OF assms(1,2,4), of "[e1, e2]"] p l by auto
  moreover have "read_records CPUCore_read_record c [e1, e2] = [p, l]"
    using p l by (simp add: read_records_def)
  ultimately have "last_two (core_record_buffer c') = Some (p, l)"
    by (simp add: last_two_keep_last [OF capacity_ge_2 [OF assms(1,3)]])
  then show ?thesis using c' p l by blast
qed

text \<open>
  C20. What the two last refreshes of a core measured comes back from the printed records without
  loss: the metrics are the saturating differences of the APERF, MPERF and TSC registers, the
  share of the node's busy time in percent, and instructions per cycle of the scaled counters.
\<close>

theorem core_metrics_of_two_refreshes:
  assumes "0 < rsz" "rsz * Suc (capacity rsz (core_buffer_max_kbytes c)) < 2 ^ 24"
    and "0 < max_bytes (core_buffer_max_kbytes c)"
    and "length (core_record_buffer c) \<le> capacity rsz (core_buffer_max_kbytes c)"
    and "core_times e1 (core_id c) = (b1, w1, nb1, nw1)" "core_times e2 (core_id c) = (b2, w2, nb2, nw2)"
  shows "\<exists>c' m. fold_res (CPUCore_refresh_record rsz) [e1, e2] c = Inr c' \<and>
    get_core_metrics_delta c' = Some m \<and>
    cm_aperf m = saturating_sub (or_zero (read_msr e2 (core_id c) 0xE8)) (or_zero (read_msr e1 (core_id c) 0xE8)) \<and>
    cm_mperf m = saturating_sub (or_zero (read_msr e2 (core_id c) 0xE7)) (or_zero (read_msr e1 (core_id c) 0xE7)) \<and>
    cm_tsc m = saturating_sub (or_zero (read_msr e2 (core_id c) 0x10)) (or_zero (read_msr e1 (core_id c) 0x10)) \<and>
    cm_cpu_time_percentage m =
      (if nb2 \<le> nb1 then f_zero
       else f64_mul (f64_div (u64_as_f64 (saturating_sub b2 b1)) (u64_as_f64 (nb2 - nb1))) (f64_lit 100)) \<and>
    cm_inst m = f64_sub (scaled_count e2 (core_instructions c)) (scaled_count e1 (core_instructions c)) \<and>
    cm_cyc m = f64_sub (scaled_count e2 (core_cycles c)) (scaled_count e1 (core_cycles c)) \<and>
    cm_ipc m = (if flt f_zero (cm_cyc m) then f64_div (cm_inst m) (cm_cyc m) else f_zero)"
proof -
  obtain c' p l where c': "fold_res (CPUCore_refresh_record rsz) [e1, e2] c = Inr c'"
    and pl: "CPUCore_read_record e1 c = Inr (Some p)" "CPUCore_read_record e2 c = Inr (Some l)"
    and lt: "last_two (core_record_buffer c') = Some (p, l)"
    using core_two_refreshes [OF assms(1-4)] by blast
  have sub: "saturating_sub nb2 nb1 \<noteq> 0 \<longleftrightarrow> \<not> nb2 \<le> nb1" "\<not> nb2 \<le> nb1 \<Longrightarrow> saturating_sub nb2 nb1 = nb2 - nb1"
    by (auto simp: saturating_sub_def)
  have p: "mv_values p = [show_u64 (total_idle_us e1 (core_id c)),
      show_u64 (or_zero (read_msr e1 (core_id c) 0xE7)), show_u64 (or_zero (read_msr e1 (core_id c) 0xE8)),
      show_u64 b1, show_u64 w1, show_u64 nb1, show_u64 nw1,
      show_f64 (scaled_count e1 (core_instructions c)), show_f64 (scaled_count e1 (core_cycles c)),
      show_u64 (or_zero (read_msr e1 (core_id c) 0x10))]"
    using pl(1) assms(5) by (auto simp: CPUCore_read_record_def MultiValuedRecord_new_def)
  have l: "mv_values l = [show_u64 (total_idle_us e2 (core_id c)),
      show_u64 (or_zero (read_msr e2 (core_id c) 0xE7)), show_u64 (or_zero (read_msr e2 (core_id c) 0xE8)),
      show_u64 b2, show_u64 w2, show_u64 nb2, show_u64 nw2,
      show_f64 (scaled_count e2 (core_instructions c)), show_f64 (scaled_count e2 (core_cycles c)),
      show_u64 (or_zero (read_msr e2 (core_id c) 0x10))]"
    using pl(2) assms(6) by (auto simp: CPUCore_read_record_def MultiValuedRecord_new_def)
  show ?thesis using c' lt p l sub
    by (simp add: get_core_metrics_delta_def Let_def)
qed

lemma core_metrics_of_two_refreshes_witness:
  "\<exists>c' m. fold_res (CPUCore_refresh_record 64)
       [env0\<lparr>e_read_at := \<lambda>_ _. Some [5, 1, 0, 0, 0, 0, 0, 0]\<rparr>, env0\<lparr>e_read_at := \<lambda>_ _. Some [7, 2, 0, 0, 0, 0, 0, 0]\<rparr>]
       (CPUCore_new env0 3 []) = Inr c' \<and> get_core_metrics_delta c' = Some m \<and> cm_aperf m = 258"
  using core_metrics_of_two_refreshes [of 64 "CPUCore_new env0 3 []"
      "env0\<lparr>e_read_at := \<lambda>_ _. Some [5, 1, 0, 0, 0, 0, 0, 0]\<rparr>" 0 0 0 0 "env0\<lparr>e_read_at := \<lambda>_ _. Some [7, 2, 0, 0, 0, 0, 0, 0]\<rparr>" 0 0 0 0]
  by (auto simp: CPUCore_new_def env0_def capacity_def max_bytes_def core_times_def read_msr_def
      from_le_bytes_def saturating_sub_def)

end
