(* ===== verification/Float_Sum.thy ===== *)
theory Float_Sum
  imports Rust_Float
begin

text \<open>
  How far a rounded sum of non-negative floats is from the exact sum, and how far the shares of a
  rounded total are from adding up to one.
\<close>

text \<open>Adding representable values rounds with a relative error only: tiny sums are exact.\<close>

lemma representable_grid:
  assumes "representable fmt x"
  shows "\<exists>k. x = of_int k * 2 powi emin fmt"
proof -
  obtain m e where m: "x = of_int m * 2 powi e" "emin fmt \<le> e" using assms by (auto simp: representable_def)
  then have "(2 :: rat) powi e = 2 ^ nat (e - emin fmt) * 2 powi emin fmt"
    by (metis (no_types) add.commute diff_add_cancel le_iff_diff_le_0 nat_0_le diff_ge_0_iff_ge power_int_add power_int_of_nat zero_neq_numeral)
  then have "x = of_int (m * 2 ^ nat (e - emin fmt)) * 2 powi emin fmt" using m by simp
  then show ?thesis by blast
qed

lemma rnd_add_rel_error:
  assumes "representable fmt x" "representable fmt y" "0 < prec fmt"
  shows "\<bar>rnd fmt (x + y) - (x + y)\<bar> \<le> \<bar>x + y\<bar> / 2 ^ prec fmt"
proof (cases "2 powi (emin fmt + int (prec fmt) - 1) \<le> \<bar>x + y\<bar>")
  case True
  then show ?thesis by (rule rnd_rel_error)
next
  case False
  obtain j where j: "x = of_int j * 2 powi emin fmt" using representable_grid [OF assms(1)] by blast
  obtain k where k: "y = of_int k * 2 powi emin fmt" using representable_grid [OF assms(2)] by blast
  have e: "x + y = of_int (j + k) * 2 powi emin fmt" using j k by (simp add: algebra_simps)
  have "(2 :: rat) powi (emin fmt + int (prec fmt) - 1) = 2 ^ (prec fmt - 1) * 2 powi emin fmt"
    using assms(3) by (simp add: power_int_add of_nat_diff flip: power_int_of_nat add_diff_eq)
  then have "\<bar>of_int (j + k)\<bar> * 2 powi emin fmt < (2 :: rat) ^ (prec fmt - 1) * 2 powi emin fmt"
    using False e by (simp add: abs_mult)
  then have "\<bar>of_int (j + k)\<bar> < (2 :: rat) ^ (prec fmt - 1)" by (simp add: mult_less_cancel_right)
  also have "\<dots> \<le> 2 ^ prec fmt" by (intro power_increasing) auto
  finally have "\<bar>j + k\<bar> \<le> 2 ^ prec fmt" by (metis (no_types, opaque_lifting) less_imp_le of_int_abs of_int_less_iff of_int_numeral of_int_power)
  then have "representable fmt (x + y)" unfolding representable_def using e by blast
  then show ?thesis using assms(3) by (simp add: rnd_exact)
qed

text \<open>The rounded sum of non-negative values against the exact sum.\<close>

definition exact_sum :: "fval list \<Rightarrow> rat" where
  "exact_sum vs = sum_list (map fin_val vs)"

lemma exact_sum_nonneg: "\<forall>v \<in> set vs. nonneg_fin fmt v \<Longrightarrow> 0 \<le> exact_sum vs"
proof -
  assume h: "\<forall>v \<in> set vs. nonneg_fin fmt v"
  have "0 \<le> fin_val v" if "v \<in> set vs" for v using h that by (cases v) auto
  then show ?thesis unfolding exact_sum_def by (intro sum_list_nonneg) auto
qed

lemma foldl_fadd_error:
  assumes "is_fin (foldl (fadd fmt) a vs)" "nonneg_fin fmt a" "\<forall>v \<in> set vs. nonneg_fin fmt v" "0 < prec fmt"
  defines "u \<equiv> 1 / 2 ^ prec fmt"
  shows "(1 - u) ^ length vs * (fin_val a + exact_sum vs) \<le> fin_val (foldl (fadd fmt) a vs)"
    and "fin_val (foldl (fadd fmt) a vs) \<le> (1 + u) ^ length vs * (fin_val a + exact_sum vs)"
proof -
  have u: "0 < u" "u \<le> 1" by (simp_all add: u_def)
  have "(1 - u) ^ length vs * (fin_val a + exact_sum vs) \<le> fin_val (foldl (fadd fmt) a vs) \<and>
      fin_val (foldl (fadd fmt) a vs) \<le> (1 + u) ^ length vs * (fin_val a + exact_sum vs)"
    using assms(1-3)
  proof (induction vs arbitrary: a)
    case Nil
    then show ?case by (simp add: exact_sum_def)
  next
    case (Cons v vs)
    have fin: "is_fin (fadd fmt a v)" using Cons.prems(1) foldl_fadd_not_fin by auto
    note s = fadd_nonneg_fin [OF Cons.prems(2) _ fin assms(4)]
    have v: "nonneg_fin fmt v" using Cons.prems(3) by simp
    obtain x y where xy: "fin_val a = x" "fin_val v = y" by blast
    have r: "representable fmt x" "representable fmt y" "0 \<le> x" "0 \<le> y"
      using Cons.prems(2) v xy by (cases a; cases v; auto)+
    have b: "(1 - u) * (x + y) \<le> fin_val (fadd fmt a v)" "fin_val (fadd fmt a v) \<le> (1 + u) * (x + y)"
      using rnd_add_rel_error [OF r(1,2) assms(4)] r(3,4) s(4) [OF v] xy
      by (simp_all add: u_def abs_le_iff algebra_simps)
    let ?S = "exact_sum vs"
    have S: "0 \<le> ?S" using exact_sum_nonneg [of vs fmt] Cons.prems(3) by simp
    have IH: "(1 - u) ^ length vs * (fin_val (fadd fmt a v) + ?S) \<le> fin_val (foldl (fadd fmt) (fadd fmt a v) vs)"
      "fin_val (foldl (fadd fmt) (fadd fmt a v) vs) \<le> (1 + u) ^ length vs * (fin_val (fadd fmt a v) + ?S)"
      using Cons.IH [of "fadd fmt a v"] Cons.prems s(1) [OF v] by auto
    have "(1 - u) * (x + y + ?S) \<le> fin_val (fadd fmt a v) + ?S"
    proof -
      have "0 \<le> u * ?S" using S u by (intro mult_nonneg_nonneg) auto
      then show ?thesis using b(1) unfolding left_diff_distrib mult_1 distrib_left by linarith
    qed
    then have "(1 - u) ^ length vs * ((1 - u) * (x + y + ?S)) \<le> (1 - u) ^ length vs * (fin_val (fadd fmt a v) + ?S)"
      using u by (intro mult_left_mono) auto
    moreover have "fin_val (fadd fmt a v) + ?S \<le> (1 + u) * (x + y + ?S)"
    proof -
      have "0 \<le> u * ?S" using S u by (intro mult_nonneg_nonneg) auto
      then show ?thesis using b(2) unfolding distrib_right mult_1 distrib_left by linarith
    qed
    then have "(1 + u) ^ length vs * (fin_val (fadd fmt a v) + ?S) \<le> (1 + u) ^ length vs * ((1 + u) * (x + y + ?S))"
      using u by (intro mult_left_mono) auto
    ultimately show ?case using IH xy by (simp add: exact_sum_def mult.assoc add.assoc mult.left_commute)
  qed
  then show "(1 - u) ^ length vs * (fin_val a + exact_sum vs) \<le> fin_val (foldl (fadd fmt) a vs)"
    "fin_val (foldl (fadd fmt) a vs) \<le> (1 + u) ^ length vs * (fin_val a + exact_sum vs)" by auto
qed

lemma rnd_mixed_error: "\<bar>rnd fmt x - x\<bar> \<le> \<bar>x\<bar> / 2 ^ prec fmt + 2 powi emin fmt"
proof (cases "2 powi (emin fmt + int (prec fmt) - 1) \<le> \<bar>x\<bar>")
  case True
  have "(0 :: rat) \<le> 2 powi emin fmt" by simp
  then show ?thesis using rnd_rel_error [OF True] by linarith
next
  case False
  have p: "(0 :: rat) < 2 powi emin fmt" by simp
  show ?thesis
  proof (cases "x = 0")
    case True
    then show ?thesis using p by (simp add: rnd_def)
  next
    case nz: False
    have "ulp_exp fmt x = emin fmt"
    proof (rule ccontr)
      assume ne: "ulp_exp fmt x \<noteq> emin fmt"
      then have "emin fmt < ulp_exp fmt x" by (simp add: ulp_exp_def)
      then have "(2 :: rat) powi (emin fmt + int (prec fmt) - 1) \<le> 2 powi (ulp_exp fmt x + int (prec fmt) - 1)"
        by (intro two_powi_mono) simp
      then show False using ulp_exp_cases(2) [OF nz, of fmt] ne False by auto
    qed
    then have "\<bar>rnd fmt x - x\<bar> \<le> 2 powi emin fmt / 2" using rnd_error [OF nz, of fmt] by simp
    moreover have "0 \<le> \<bar>x\<bar> / 2 ^ prec fmt" by simp
    ultimately show ?thesis using p by linarith
  qed
qed

lemma sum_list_close:
  assumes "\<And>x. x \<in> set xs \<Longrightarrow> \<bar>f x - g x\<bar> \<le> k * g x + (d :: rat)"
  shows "\<bar>sum_list (map f xs) - sum_list (map g xs)\<bar> \<le> k * sum_list (map g xs) + of_nat (length xs) * d"
  using assms
proof (induction xs)
  case (Cons x xs)
  have "\<bar>f x - g x\<bar> \<le> k * g x + d" using Cons.prems by simp
  moreover have "\<bar>sum_list (map f xs) - sum_list (map g xs)\<bar> \<le> k * sum_list (map g xs) + of_nat (length xs) * d"
    using Cons.IH Cons.prems by simp
  ultimately show ?case by (simp add: algebra_simps abs_le_iff)
qed simp

lemma sum_list_div: "sum_list (map (\<lambda>x. f x / (t :: rat)) xs) = sum_list (map f xs) / t"
  by (induction xs) (auto simp: add_divide_distrib)

lemma whole_over_rounded_sum:
  assumes "0 \<le> u" "of_nat n * u \<le> (1 / 2 :: rat)" "0 \<le> S" "0 < T"
    and "(1 - u) ^ n * S \<le> T" "T \<le> (1 + u) ^ n * S" "u \<le> 1"
  shows "\<bar>S / T - 1\<bar> \<le> 2 * of_nat n * u"
proof -
  have b: "1 - of_nat n * u \<le> (1 - u) ^ n" using Bernoulli_inequality [of "- u" n] assms(1,7) by simp
  have "(1 - u) ^ n * (1 + u) ^ n \<le> 1"
  proof -
    have "(1 - u) ^ n * (1 + u) ^ n = (1 - u * u) ^ n" by (simp add: algebra_simps flip: power_mult_distrib)
    also have "\<dots> \<le> 1" using assms(1,7) by (intro power_le_one) (auto simp: mult_le_one)
    finally show ?thesis .
  qed
  moreover have "(1 - u) ^ n * T \<le> (1 - u) ^ n * ((1 + u) ^ n * S)" using assms by (intro mult_left_mono) auto
  ultimately have "(1 - u) ^ n * T \<le> S"
    using assms(3) mult_right_mono [of "(1 - u) ^ n * (1 + u) ^ n" 1 S] by (simp add: mult.assoc)
  then have lo: "(1 - of_nat n * u) * T \<le> S" using b assms(4) mult_right_mono [OF b, of T] by linarith
  have hi: "(1 - of_nat n * u) * S \<le> T" using b assms(3,5) mult_right_mono [OF b, of S] by linarith
  have "S \<le> 2 * T"
  proof -
    have "1 / 2 * S \<le> (1 - of_nat n * u) * S" using assms(2,3) by (intro mult_right_mono) auto
    then show ?thesis using hi by linarith
  qed
  then have "of_nat n * u * S \<le> of_nat n * u * (2 * T)" using assms(1) by (intro mult_left_mono) auto
  then have "S \<le> T + 2 * of_nat n * u * T" using hi by (simp add: algebra_simps)
  moreover have "T - 2 * of_nat n * u * T \<le> S"
  proof -
    have "0 \<le> of_nat n * u * T" using assms(1,4) by simp
    then show ?thesis using lo by (simp add: algebra_simps)
  qed
  ultimately have "\<bar>S - T\<bar> \<le> 2 * of_nat n * u * T" by (simp add: abs_le_iff algebra_simps)
  then have "\<bar>S - T\<bar> / T \<le> 2 * of_nat n * u" using assms(4) by (simp add: pos_divide_le_eq)
  moreover have "\<bar>S / T - 1\<bar> = \<bar>S - T\<bar> / T" using assms(4) by (simp add: abs_divide field_simps)
  ultimately show ?thesis by simp
qed

lemma f64_shares_sum:
  assumes "\<forall>v \<in> set vs. nonneg_fin f64_format v" "is_fin (f64_sum vs)" "fin_val (f64_sum vs) \<noteq> 0"
    and n: "length vs \<le> 2 ^ 50"
  shows "\<bar>exact_sum (map (\<lambda>c. f64_div c (f64_sum vs)) vs) - 1\<bar> \<le> (2 * of_nat (length vs) + 3) / 2 ^ 53"
proof -
  define T where "T = fin_val (f64_sum vs)"
  define S where "S = exact_sum vs"
  define u :: rat where "u = 1 / 2 ^ 53"
  note nn = fsum_nonneg [OF assms(2,1)]
  have T: "0 < T" using nn(1) assms(3) by (cases "f64_sum vs") (auto simp: T_def)
  have S: "0 \<le> S" using exact_sum_nonneg [OF assms(1)] by (simp add: S_def)
  have z: "nonneg_fin f64_format (Fin True 0)"
    using representable_of_int [of 0 f64_format] by simp
  have e: "(1 - u) ^ length vs * S \<le> T" "T \<le> (1 + u) ^ length vs * S"
    using foldl_fadd_error [OF _ z assms(1)] assms(2) by (simp_all add: T_def S_def u_def fsum_def)
  have "(of_nat (length vs) :: rat) \<le> of_nat (2 ^ 50)" using n by (simp only: of_nat_le_iff)
  then have nu: "of_nat (length vs) * u \<le> 1 / 8" by (simp add: u_def)
  have close: "\<bar>S / T - 1\<bar> \<le> 2 * of_nat (length vs) * u"
    by (rule whole_over_rounded_sum) (use e S T nu in \<open>auto simp: u_def\<close>)
  have q: "\<bar>fin_val (f64_div c (f64_sum vs)) - fin_val c / T\<bar> \<le> u * (fin_val c / T) + 2 powi (- 1074)"
    if c: "c \<in> set vs" for c
  proof -
    have "nonneg_fin f64_format c" using assms(1) c by blast
    moreover have "fin_val c \<le> T" using nn(2) c by (simp add: T_def)
    ultimately have "fin_val (f64_div c (f64_sum vs)) = rnd f64_format (fin_val c / T)"
      using nn(1) assms(3) unfolding T_def by (intro fdiv_part_whole(4)) auto
    moreover have "0 \<le> fin_val c / T" using T \<open>nonneg_fin f64_format c\<close> by (cases c) auto
    ultimately show ?thesis using rnd_mixed_error [of f64_format "fin_val c / T"] by (simp add: u_def)
  qed
  have "\<bar>exact_sum (map (\<lambda>c. f64_div c (f64_sum vs)) vs) - S / T\<bar> \<le> u * (S / T) + of_nat (length vs) * 2 powi (- 1074)"
    using sum_list_close [of vs "\<lambda>c. fin_val (f64_div c (f64_sum vs))" "\<lambda>c. fin_val c / T" u "2 powi (- 1074)"] q
    by (simp add: exact_sum_def S_def sum_list_div comp_def)
  moreover have "S / T \<le> 2" using close nu by linarith
  then have "u * (S / T) \<le> u * 2" by (intro mult_left_mono) (auto simp: u_def)
  moreover have "of_nat (length vs) * 2 powi (- 1074) \<le> u"
  proof -
    have "(2 :: rat) powi (- 1074) \<le> 2 powi (- 106)" by (rule power_int_increasing) auto
    also have "\<dots> = u * u" by (simp add: u_def power_int_minus)
    finally have "(2 :: rat) powi (- 1074) \<le> u * u" .
    then have "of_nat (length vs) * 2 powi (- 1074) \<le> of_nat (length vs) * (u * u)" by (intro mult_left_mono) auto
    also have "\<dots> \<le> u" using mult_right_mono [OF nu, of u] by (simp add: u_def)
    finally show ?thesis .
  qed
  ultimately have "\<bar>exact_sum (map (\<lambda>c. f64_div c (f64_sum vs)) vs) - 1\<bar> \<le> 2 * of_nat (length vs) * u + 3 * u"
    using close by linarith
  then show ?thesis by (simp add: u_def add_divide_distrib)
qed

section \<open>Sums of parts\<close>

text \<open>Sums of non-negative values are monotone, also after rounding.\<close>

lemma fadd_mono:
  assumes "nonneg_fin fmt a" "nonneg_fin fmt b" "nonneg_fin fmt a'" "nonneg_fin fmt b'" "0 < prec fmt"
    and "fin_val a \<le> fin_val a'" "fin_val b \<le> fin_val b'" "is_fin (fadd fmt a' b')"
  shows "nonneg_fin fmt (fadd fmt a b) \<and> fin_val (fadd fmt a b) \<le> fin_val (fadd fmt a' b')"
proof -
  obtain s x t y where ab: "a = Fin s x" "b = Fin t y" "0 \<le> x" "0 \<le> y"
    using assms(1,2) by (cases a; cases b) auto
  obtain s' x' t' y' where ab': "a' = Fin s' x'" "b' = Fin t' y'" "x \<le> x'" "y \<le> y'"
    using assms(3,4,6,7) ab by (cases a'; cases b') auto
  have v: "fin_val (fadd fmt a' b') = rnd fmt (x' + y')" "\<bar>rnd fmt (x' + y')\<bar> < 2 powi emax fmt"
    using assms(8) fl_Fin_val fl_is_fin_iff unfolding ab' fadd.simps
    by (metis fin_val.simps(1) is_fin.elims(2), metis)
  have le: "rnd fmt (x + y) \<le> rnd fmt (x' + y')" using ab' assms(5) by (intro rnd_mono) auto
  have nn: "0 \<le> rnd fmt (x + y)" using ab assms(5) by (intro rnd_nonneg) auto
  have "is_fin (fl fmt (s \<and> t) (x + y))" unfolding fl_is_fin_iff using v(2) le nn by linarith
  then obtain r where "fadd fmt a b = Fin r (rnd fmt (x + y))"
    unfolding ab fadd.simps by (metis fl_Fin_val is_fin.elims(2))
  then show ?thesis using v le nn by (simp add: rnd_representable)
qed

lemma foldl_fadd_mono:
  assumes "list_all2 (\<lambda>u v. nonneg_fin fmt u \<and> nonneg_fin fmt v \<and> fin_val u \<le> fin_val v) us vs" "0 < prec fmt"
    and "nonneg_fin fmt a" "nonneg_fin fmt b" "fin_val a \<le> fin_val b" "is_fin (foldl (fadd fmt) b vs)"
  shows "nonneg_fin fmt (foldl (fadd fmt) a us) \<and> fin_val (foldl (fadd fmt) a us) \<le> fin_val (foldl (fadd fmt) b vs)"
  using assms(1,3-)
proof (induction us vs arbitrary: a b rule: list_all2_induct)
  case (Cons u us v vs)
  have fin: "is_fin (fadd fmt b v)" using Cons.prems(4) foldl_fadd_not_fin by auto
  have m: "nonneg_fin fmt (fadd fmt a u) \<and> fin_val (fadd fmt a u) \<le> fin_val (fadd fmt b v)"
    using Cons.hyps(1) Cons.prems(1-3) fin assms(2) by (intro fadd_mono) auto
  moreover have "nonneg_fin fmt (fadd fmt b v)"
    using Cons.hyps(1) Cons.prems(2) fin assms(2) by (intro fadd_nonneg_fin) auto
  ultimately show ?case using Cons.IH [of "fadd fmt a u" "fadd fmt b v"] Cons.prems(4) by simp
qed simp

lemma fsum_mono:
  assumes "list_all2 (\<lambda>u v. nonneg_fin fmt u \<and> nonneg_fin fmt v \<and> fin_val u \<le> fin_val v) us vs" "0 < prec fmt"
    and "is_fin (fsum fmt vs)"
  shows "nonneg_fin fmt (fsum fmt us) \<and> fin_val (fsum fmt us) \<le> fin_val (fsum fmt vs)"
proof -
  have "nonneg_fin fmt (Fin True 0)"
    by (auto simp: representable_def intro!: exI [of _ 0] exI [of _ "emin fmt"])
  then show ?thesis using foldl_fadd_mono [OF assms(1,2), of "Fin True 0" "Fin True 0"] assms(3) by (simp add: fsum_def)
qed

lemma fadd_fin_bound: "is_fin (fadd fmt a b) \<Longrightarrow> \<bar>fin_val (fadd fmt a b)\<bar> < 2 powi emax fmt"
  by (cases a; cases b) (auto simp: fl_def Let_def split: if_splits)

lemma fsum_bound:
  assumes "is_fin (fsum fmt vs)" "\<forall>v \<in> set vs. nonneg_fin fmt v" "0 < prec fmt" "v \<in> set vs"
  shows "fin_val v < 2 powi emax fmt"
proof -
  have "vs \<noteq> []" using assms(4) by auto
  then have "fsum fmt vs = fadd fmt (foldl (fadd fmt) (Fin True 0) (butlast vs)) (last vs)"
    unfolding fsum_def by (metis append_butlast_last_id foldl_append foldl_Cons foldl_Nil)
  then have "\<bar>fin_val (fsum fmt vs)\<bar> < 2 powi emax fmt" using assms(1) fadd_fin_bound by metis
  moreover have "fin_val v \<le> fin_val (fsum fmt vs)" using fsum_nonneg(2) [OF assms(1-3)] assms(4) by blast
  ultimately show ?thesis by linarith
qed

text \<open>A share is a value between 0 and 1; a share of a value is at most that value.\<close>

definition share :: "f64 \<Rightarrow> bool" where
  "share p \<longleftrightarrow> nonneg_fin f64_format p \<and> fin_val p \<le> 1"

lemma f64_mul_share:
  assumes "nonneg_fin f64_format c" "fin_val c < 2 powi emax f64_format" "share p"
  shows "nonneg_fin f64_format (f64_mul c p) \<and> fin_val (f64_mul c p) \<le> fin_val c"
proof -
  obtain s x where c: "c = Fin s x" "0 \<le> x" "representable f64_format x" using assms(1) by (cases c) auto
  obtain t y where p: "p = Fin t y" "0 \<le> y" "y \<le> 1" using assms(3) by (cases p) (auto simp: share_def)
  have "\<bar>x * y\<bar> \<le> x" using c p mult_left_mono [OF p(3), of x] by simp
  then have "fl f64_format (s \<noteq> t) (x * y) = Fin (if x * y = 0 then s \<noteq> t else x * y < 0) (rnd f64_format (x * y))"
    "\<bar>rnd f64_format (x * y)\<bar> \<le> x"
    using fl_bounded [of "x * y" x f64_format] c assms(2) by simp_all
  moreover have "0 \<le> rnd f64_format (x * y)" using c p by (intro rnd_nonneg) auto
  ultimately show ?thesis by (simp add: c(1) p(1) rnd_representable)
qed

lemma fl_nonneg_cases:
  assumes "0 \<le> x" "0 < prec fmt"
  obtains "fl fmt s x = Inf False" | r where "fl fmt s x = Fin r (rnd fmt x)" "0 \<le> rnd fmt x"
proof (cases "2 powi emax fmt \<le> \<bar>rnd fmt x\<bar>")
  case True
  then show ?thesis using that(1) assms by (simp add: fl_def Let_def)
next
  case False
  then show ?thesis using that(2) assms rnd_nonneg [OF assms] by (simp add: fl_def Let_def)
qed

end
