(* ===== verification/Socket.thy ===== *)
theory Socket
  imports Domain Core Float_Sum
begin

text \<open>
  A CPU socket (\<open>sensors/mod.rs\<close>, \<open>CPUSocket\<close>): its domains and cores, the records of its energy
  counter, the idle and activation power it learned from the events of the kernel side, the power
  net of that background, and the share of the power of each core.
\<close>

section \<open>Data and operations\<close>

record CPUSocket =
  sock_id :: u16
  sock_domains :: "Domain list"
  sock_attributes :: "(string, string) hmap list list"
  sock_counter_uj_path :: string
  sock_record_buffer :: "Record list"
  sock_buffer_max_kbytes :: u16
  sock_activation_idle_buffer :: "MultiValuedRecord list"
  sock_cpu_cores :: "CPUCore list"
  sock_stat_buffer :: "CPUStat list"
  sock_idle_percentage_threshold :: f64
  sock_rapl_max_uj :: u64
  sock_sensor_data :: "(string, string) hmap"

definition CPUSocket_new ::
  "u16 \<Rightarrow> Domain list \<Rightarrow> (string, string) hmap list list \<Rightarrow> string \<Rightarrow> u16 \<Rightarrow> (string, string) hmap \<Rightarrow> CPUSocket"
where
  "CPUSocket_new i domains attributes path kb sensor_data =
     \<lparr>sock_id = i, sock_domains = domains, sock_attributes = attributes,
      sock_counter_uj_path = path, sock_record_buffer = [], sock_buffer_max_kbytes = kb,
      sock_activation_idle_buffer = [], sock_cpu_cores = [], sock_stat_buffer = [],
      sock_idle_percentage_threshold = f64_lit (65 / 100),
      sock_rapl_max_uj = rapl_max_of sensor_data, sock_sensor_data = sensor_data\<rparr>"

definition CPUSocket_clone :: "CPUSocket \<Rightarrow> CPUSocket" where
  "CPUSocket_clone s = s\<lparr>sock_cpu_cores := map CPUCore_clone (sock_cpu_cores s)\<rparr>"

definition CPUSocket_set_id :: "u16 \<Rightarrow> CPUSocket \<Rightarrow> CPUSocket" where
  "CPUSocket_set_id i s = s\<lparr>sock_id := i\<rparr>"

definition safe_add_domain :: "Domain \<Rightarrow> CPUSocket \<Rightarrow> CPUSocket" where
  "safe_add_domain d s =
     (if \<not> list_ex (\<lambda>x. dom_id x = dom_id d) (sock_domains s)
      then s\<lparr>sock_domains := sock_domains s @ [d]\<rparr> else s)"

definition add_cpu_core :: "CPUCore \<Rightarrow> CPUSocket \<Rightarrow> CPUSocket" where
  "add_cpu_core c s = s\<lparr>sock_cpu_cores := sock_cpu_cores s @ [c]\<rparr>"

definition CPUSocket_read_record :: "env \<Rightarrow> CPUSocket \<Rightarrow> Record option res" where
  "CPUSocket_read_record e s =
     bind_res (unwrap_opt (hm_get (sock_sensor_data s) ''source_file'')) (\<lambda>source_file.
       Inr (case e_read_to_string e source_file of
              Some result \<Rightarrow>
                Some (Record_new (current_system_time_since_epoch e) result MicroJoule)
            | None \<Rightarrow> None))"

text \<open>\<open>rsz\<close> is the size of a record, \<open>mrsz\<close> that of a multi-valued record, \<open>ssz\<close> that of a CPU statistic.\<close>

definition CPUSocket_clean_old_records :: "nat \<Rightarrow> nat \<Rightarrow> CPUSocket \<Rightarrow> CPUSocket res" where
  "CPUSocket_clean_old_records rsz mrsz s =
     bind_res (index_vec (sock_record_buffer s) 0) (\<lambda>_.
       let s = s\<lparr>sock_record_buffer :=
                   clean_front rsz (sock_buffer_max_kbytes s) (sock_record_buffer s)\<rparr>
       in Inr (if sock_activation_idle_buffer s \<noteq> []
               then s\<lparr>sock_activation_idle_buffer :=
                      clean_front mrsz (sock_buffer_max_kbytes s) (sock_activation_idle_buffer s)\<rparr>
               else s))"

definition CPUSocket_refresh_record :: "nat \<Rightarrow> nat \<Rightarrow> env \<Rightarrow> CPUSocket \<Rightarrow> CPUSocket res" where
  "CPUSocket_refresh_record rsz mrsz e s =
     bind_res (CPUSocket_read_record e s) (\<lambda>r.
       let s = (case r of
                  Some rc \<Rightarrow> s\<lparr>sock_record_buffer := sock_record_buffer s @ [rc]\<rparr>
                | None \<Rightarrow> s)
       in if sock_record_buffer s \<noteq> [] then CPUSocket_clean_old_records rsz mrsz s else Inr s)"

definition CPUSocket_get_records_passive :: "CPUSocket \<Rightarrow> Record list" where
  "CPUSocket_get_records_passive s =
     map (\<lambda>r. Record_new (timestamp r) (rec_value r) MicroJoule) (sock_record_buffer s)"

text \<open>Idle and activation power: the first and the second value of the newest entry.\<close>

definition CPUSocket_get_idle_power_microwatts :: "env \<Rightarrow> CPUSocket \<Rightarrow> Record option" where
  "CPUSocket_get_idle_power_microwatts e s =
     (if sock_activation_idle_buffer s \<noteq> [] then
        let l = last (sock_activation_idle_buffer s)
        in if length (mv_values l) \<ge> 2
           then Some (Record_new (current_system_time_since_epoch e) (mv_values l ! 0) MicroWatt)
           else None
      else None)"

definition CPUSocket_get_activation_power_microwatts :: "env \<Rightarrow> CPUSocket \<Rightarrow> Record option" where
  "CPUSocket_get_activation_power_microwatts e s =
     (if sock_activation_idle_buffer s \<noteq> [] then
        let l = last (sock_activation_idle_buffer s)
        in if length (mv_values l) \<ge> 2
           then Some (Record_new (current_system_time_since_epoch e) (mv_values l ! 1) MicroWatt)
           else None
      else None)"

text \<open>\<open>and_then(|r| r.value.parse::<u64>().ok()).unwrap_or(0)\<close>, and the same for \<open>f64\<close>.\<close>

definition value_u64_or_0 :: "Record option \<Rightarrow> u64" where
  "value_u64_or_0 r = (case r of None \<Rightarrow> 0 | Some rc \<Rightarrow> or_zero (parse_u64 (rec_value rc)))"

definition value_f64_or_0 :: "Record option \<Rightarrow> f64" where
  "value_f64_or_0 r =
     (case r of None \<Rightarrow> f_zero
      | Some rc \<Rightarrow> (case parse_f64 (rec_value rc) of None \<Rightarrow> f_zero | Some v \<Rightarrow> v))"

definition CPUSocket_get_background_power_microwatts :: "env \<Rightarrow> CPUSocket \<Rightarrow> Record option" where
  "CPUSocket_get_background_power_microwatts e s =
     (let idle = value_u64_or_0 (CPUSocket_get_idle_power_microwatts e s);
          activation = value_u64_or_0 (CPUSocket_get_activation_power_microwatts e s)
      in Some (Record_new (current_system_time_since_epoch e) (show_u64 (max idle activation)) MicroWatt))"

definition CPUSocket_get_records_diff_power_microwatts :: "env \<Rightarrow> CPUSocket \<Rightarrow> Record option" where
  "CPUSocket_get_records_diff_power_microwatts e s =
     (case last_two (sock_record_buffer s) of
        None \<Rightarrow> None
      | Some (previous_record, last_record) \<Rightarrow>
          (case (parse_u64 (trim (rec_value last_record)),
                 parse_u64 (trim (rec_value previous_record))) of
             (Some last_microjoules, Some previous_microjoules) \<Rightarrow>
               let microjoules = microjoules_between (sock_rapl_max_uj s)
                                   previous_microjoules last_microjoules;
                   microwatts = microwatts_over microjoules
                                  (timestamp previous_record) (timestamp last_record)
               in Some (Record_new (timestamp last_record)
                    (show_u64 (saturating_sub (f64_as_u64 microwatts)
                       (value_u64_or_0 (CPUSocket_get_background_power_microwatts e s))))
                    MicroWatt)
           | _ \<Rightarrow> None))"

definition CPUSocket_get_records_diff_power_microwatts_per_domain ::
  "env \<Rightarrow> string \<Rightarrow> CPUSocket \<Rightarrow> Record option" where
  "CPUSocket_get_records_diff_power_microwatts_per_domain e name s =
     (case find (\<lambda>d. hm_get (dom_sensor_data d) ''related_resource'' = Some name) (sock_domains s) of
        Some domain \<Rightarrow> Domain_get_records_diff_power_microwatts domain
      | None \<Rightarrow> CPUSocket_get_records_diff_power_microwatts e s)"

definition CPUSocket_get_rapl_mmio_energy_microjoules :: "env \<Rightarrow> CPUSocket \<Rightarrow> Record option" where
  "CPUSocket_get_rapl_mmio_energy_microjoules e s =
     (case hm_get (sock_sensor_data s) ''mmio'' of
        None \<Rightarrow> None
      | Some mmio \<Rightarrow>
          (case e_read_to_string e mmio of
             Some v \<Rightarrow> Some (Record_new (current_system_time_since_epoch e) v MicroJoule)
           | None \<Rightarrow> None))"

text \<open>Learning the background power from the events of the kernel side.\<close>

definition update_background :: "bool \<Rightarrow> u64 \<Rightarrow> u64 \<Rightarrow> u64" where
  "update_background rec_exists current old =
     (if rec_exists then (if old \<noteq> 0 then min current old else current) else old)"

definition read_activation_idle_record :: "env \<Rightarrow> CPUSocket \<Rightarrow> CpuStateEvent list \<Rightarrow> MultiValuedRecord option"
where
  "read_activation_idle_record e s records =
     (let idle_rec_exists = list_ex (\<lambda>r. ev_event_type r = IdleEvent) records;
          activation_rec_exists = list_ex (\<lambda>r. ev_event_type r = ActivationEvent) records
      in if idle_rec_exists \<or> activation_rec_exists then
           (case Option.bind (CPUSocket_get_records_diff_power_microwatts e s) (\<lambda>r. parse_u64 (rec_value r)) of
              None \<Rightarrow> None
            | Some current \<Rightarrow>
                let idle = update_background idle_rec_exists current
                             (value_u64_or_0 (CPUSocket_get_idle_power_microwatts e s));
                    activation = update_background activation_rec_exists current
                             (value_u64_or_0 (CPUSocket_get_activation_power_microwatts e s))
                in Some (MultiValuedRecord_new (current_system_time_since_epoch e)
                           [show_u64 idle, show_u64 activation] [MicroWatt, MicroWatt]))
         else None)"

definition CPUSocket_refresh_activation_idle_records :: "env \<Rightarrow> CpuStateEvent list \<Rightarrow> CPUSocket \<Rightarrow> CPUSocket"
where
  "CPUSocket_refresh_activation_idle_records e records s =
     (case read_activation_idle_record e s records of
        Some r \<Rightarrow> s\<lparr>sock_activation_idle_buffer := sock_activation_idle_buffer s @ [r]\<rparr>
      | None \<Rightarrow> s)"

definition distribute_background_to_domains :: "env \<Rightarrow> CPUSocket \<Rightarrow> CPUSocket" where
  "distribute_background_to_domains e s =
     (let background = value_f64_or_0 (CPUSocket_get_background_power_microwatts e s)
      in if feq background f_zero then s
         else
           let domain_powers =
                 map (\<lambda>d. value_f64_or_0 (Domain_get_records_diff_power_microwatts d)) (sock_domains s);
               total = value_f64_or_0 (CPUSocket_get_records_diff_power_microwatts e s);
               n = f_of_nat f64_format (length (sock_domains s))
           in s\<lparr>sock_domains :=
                  map (\<lambda>(d, power). d\<lparr>dom_background_power_uw :=
                         (if flt f_zero total then f64_mul background (f64_div power total)
                          else f64_div background n)\<rparr>)
                    (zip (sock_domains s) domain_powers)\<rparr>)"

text \<open>Usage statistics.\<close>

definition stats_zero :: CPUStat where
  "stats_zero = \<lparr>st_user = 0, st_nice = 0, st_system = 0, st_idle = 0, st_irq = Some 0,
     st_iowait = Some 0, st_softirq = Some 0, st_steal = Some 0, st_guest = Some 0,
     st_guest_nice = Some 0\<rparr>"

definition stats_add :: "CPUStat \<Rightarrow> CPUStat \<Rightarrow> CPUStat" where
  "stats_add stats c =
     stats\<lparr>st_user := st_user stats + st_user c, st_nice := st_nice stats + st_nice c,
           st_system := st_system stats + st_system c, st_idle := st_idle stats + st_idle c,
           st_iowait := Some (or_zero (st_iowait stats) + or_zero (st_iowait c)),
           st_irq := Some (or_zero (st_irq stats) + or_zero (st_irq c)),
           st_softirq := Some (or_zero (st_softirq stats) + or_zero (st_softirq c))\<rparr>"

definition CPUSocket_read_stats :: "world \<Rightarrow> CPUSocket \<Rightarrow> CPUStat option res" where
  "CPUSocket_read_stats w s =
     map_res Some (fold_res (\<lambda>(i, c) stats.
         map_res (\<lambda>cs. case cs of Some c_stats \<Rightarrow> stats_add stats c_stats | None \<Rightarrow> stats)
           (CPUCore_read_stats (w [i]) c))
       (enumerate 0 (sock_cpu_cores s)) stats_zero)"

definition CPUSocket_clean_old_stats :: "nat \<Rightarrow> CPUSocket \<Rightarrow> CPUSocket res" where
  "CPUSocket_clean_old_stats ssz s =
     bind_res (index_vec (sock_stat_buffer s) 0) (\<lambda>_.
       Inr (s\<lparr>sock_stat_buffer := clean_back ssz (sock_buffer_max_kbytes s) (sock_stat_buffer s)\<rparr>))"

definition CPUSocket_refresh_stats :: "nat \<Rightarrow> world \<Rightarrow> CPUSocket \<Rightarrow> CPUSocket res" where
  "CPUSocket_refresh_stats ssz w s =
     bind_res (if sock_stat_buffer s \<noteq> [] then CPUSocket_clean_old_stats ssz s else Inr s) (\<lambda>s.
       bind_res (CPUSocket_read_stats w s) (\<lambda>st.
         bind_res (unwrap_opt st) (\<lambda>st.
           Inr (s\<lparr>sock_stat_buffer := st # sock_stat_buffer s\<rparr>))))"

definition CPUSocket_get_stats_diff :: "CPUSocket \<Rightarrow> CPUStat option" where
  "CPUSocket_get_stats_diff s = stats_diff (sock_stat_buffer s)"

text \<open>The share of each core.\<close>

definition CPUSocket_get_cores :: "CPUSocket \<Rightarrow> CPUCore list" where
  "CPUSocket_get_cores s = sort_by_key core_id (map CPUCore_clone (sock_cpu_cores s))"

definition core_coef :: "CPUCore \<Rightarrow> f64" where
  "core_coef c =
     (case get_core_metrics_delta c of
        Some metrics \<Rightarrow>
          if cm_tsc metrics > 0 then
            f64_mul (f64_mul (f64_add (f64_lit 1) (cm_ipc metrics)) (u64_as_f64 (cm_aperf metrics)))
              (f64_div (u64_as_f64 (cm_aperf metrics)) (u64_as_f64 (cm_mperf metrics)))
          else f_zero
      | None \<Rightarrow> f_zero)"

definition CPUSocket_get_core_coefs :: "CPUSocket \<Rightarrow> f64 list" where
  "CPUSocket_get_core_coefs s = map core_coef (CPUSocket_get_cores s)"

definition proportions_of :: "f64 list \<Rightarrow> f64 list" where
  "proportions_of coefs =
     (let total_coefs = f64_sum coefs
      in map (\<lambda>c. if \<not> feq total_coefs f_zero then f64_div c total_coefs else f_zero) coefs)"

definition CPUSocket_get_core_proportions :: "CPUSocket \<Rightarrow> f64 list" where
  "CPUSocket_get_core_proportions s = proportions_of (CPUSocket_get_core_coefs s)"

definition CPUSocket_get_proportional_core_diff_power_microwatts ::
  "env \<Rightarrow> CPUSocket \<Rightarrow> MultiValuedRecord option" where
  "CPUSocket_get_proportional_core_diff_power_microwatts e s =
     (case Option.bind (CPUSocket_get_records_diff_power_microwatts_per_domain e
                          (DomainResource_to_string CPU) s) (\<lambda>r. parse_f64 (rec_value r)) of
        Some conso \<Rightarrow>
          let energies = map (\<lambda>p. f64_mul p conso) (CPUSocket_get_core_proportions s)
          in Some (MultiValuedRecord_new (current_system_time_since_epoch e)
                (map show_f64 energies) (map (\<lambda>_. Numeric) energies))
      | None \<Rightarrow> None)"

section \<open>The buffer\<close>

lemma CPUSocket_refresh_cases:
  assumes "0 < rsz" "CPUSocket_read_record e s = Inr x"
    and "rsz * Suc (length (sock_record_buffer s)) < 2 ^ 24"
  shows "\<exists>s'. CPUSocket_refresh_record rsz mrsz e s = Inr s' \<and>
    sock_buffer_max_kbytes s' = sock_buffer_max_kbytes s \<and>
    sock_record_buffer s' = keep_last (capacity rsz (sock_buffer_max_kbytes s))
       (sock_record_buffer s @ (case x of None \<Rightarrow> [] | Some r \<Rightarrow> [r]))"
proof (cases x)
  case None
  have "rsz * length (sock_record_buffer s) < 2 ^ 24" using assms(3) by (simp add: algebra_simps)
  then show ?thesis using assms(1,2) None
    by (simp add: CPUSocket_refresh_record_def CPUSocket_clean_old_records_def clean_front_keep_last
        index_vec_def Let_def)
next
  case (Some r)
  then show ?thesis using assms
    by (simp add: CPUSocket_refresh_record_def CPUSocket_clean_old_records_def clean_front_keep_last
        index_vec_def Let_def)
qed

lemma CPUSocket_refresh_sensor_data:
  "CPUSocket_refresh_record rsz mrsz e s = Inr s' \<Longrightarrow> sock_sensor_data s' = sock_sensor_data s"
  by (auto simp: CPUSocket_refresh_record_def CPUSocket_clean_old_records_def bind_res_eq_Inr Let_def
      split: if_splits option.splits)

interpretation socket_gen: record_generator sock_record_buffer sock_buffer_max_kbytes
  CPUSocket_read_record "CPUSocket_refresh_record rsz mrsz" rsz "2 ^ 24" for rsz mrsz
proof
  fix e :: env and s s' :: CPUSocket and x p e'
  show "\<lbrakk>0 < rsz; CPUSocket_read_record e s = Inr x; rsz * Suc (length (sock_record_buffer s)) < 2 ^ 24\<rbrakk> \<Longrightarrow>
      \<exists>s'. CPUSocket_refresh_record rsz mrsz e s = Inr s' \<and>
        sock_buffer_max_kbytes s' = sock_buffer_max_kbytes s \<and>
        sock_record_buffer s' = keep_last (capacity rsz (sock_buffer_max_kbytes s))
          (sock_record_buffer s @ (case x of None \<Rightarrow> [] | Some r \<Rightarrow> [r]))"
    by (rule CPUSocket_refresh_cases)
  show "CPUSocket_read_record e s = Inl p \<Longrightarrow> CPUSocket_refresh_record rsz mrsz e s = Inl p"
    by (simp add: CPUSocket_refresh_record_def)
  show "CPUSocket_refresh_record rsz mrsz e s = Inr s' \<Longrightarrow>
      CPUSocket_read_record e' s' = CPUSocket_read_record e' s"
    by (simp add: CPUSocket_read_record_def CPUSocket_refresh_sensor_data)
qed

section \<open>Power and background\<close>

text \<open>The idle and the activation power of a socket, as numbers.\<close>

definition idle_uw :: "CPUSocket \<Rightarrow> u64" where
  "idle_uw s = value_u64_or_0 (CPUSocket_get_idle_power_microwatts env0 s)"

definition activation_uw :: "CPUSocket \<Rightarrow> u64" where
  "activation_uw s = value_u64_or_0 (CPUSocket_get_activation_power_microwatts env0 s)"

definition background_uw :: "CPUSocket \<Rightarrow> u64" where
  "background_uw s = max (idle_uw s) (activation_uw s)"

text \<open>The power before the background is taken off.\<close>

definition raw_power_uw :: "CPUSocket \<Rightarrow> u64 option" where
  "raw_power_uw s =
     (case last_two (sock_record_buffer s) of
        None \<Rightarrow> None
      | Some (p, l) \<Rightarrow>
          (case (parse_u64 (trim (rec_value l)), parse_u64 (trim (rec_value p))) of
             (Some b, Some a) \<Rightarrow>
               Some (f64_as_u64 (microwatts_over (microjoules_between (sock_rapl_max_uj s) a b)
                  (timestamp p) (timestamp l)))
           | _ \<Rightarrow> None))"

lemma value_u64_or_0_new [simp]:
  "value_u64_or_0 (Some (Record_new ts (show_u64 v) u)) = v"
  by (simp add: value_u64_or_0_def Record_new_def)

lemma value_u64_or_0_idle [simp]:
  "value_u64_or_0 (CPUSocket_get_idle_power_microwatts e s) = idle_uw s"
  by (simp add: idle_uw_def value_u64_or_0_def CPUSocket_get_idle_power_microwatts_def
      Record_new_def Let_def)

lemma value_u64_or_0_activation [simp]:
  "value_u64_or_0 (CPUSocket_get_activation_power_microwatts e s) = activation_uw s"
  by (simp add: activation_uw_def value_u64_or_0_def CPUSocket_get_activation_power_microwatts_def
      Record_new_def Let_def)

lemma background_power_record:
  "CPUSocket_get_background_power_microwatts e s =
     Some (Record_new (e_now e) (show_u64 (background_uw s)) MicroWatt)"
  by (simp add: CPUSocket_get_background_power_microwatts_def background_uw_def
      current_system_time_since_epoch_def)

lemma value_background [simp]:
  "value_u64_or_0 (CPUSocket_get_background_power_microwatts e s) = background_uw s"
  by (simp add: background_power_record)

lemma socket_power_net:
  "CPUSocket_get_records_diff_power_microwatts e s =
     (case raw_power_uw s of
        None \<Rightarrow> None
      | Some P \<Rightarrow> Some (Record_new (timestamp (last (sock_record_buffer s)))
                       (show_u64 (saturating_sub P (background_uw s))) MicroWatt))"
proof (cases "last_two (sock_record_buffer s)")
  case None
  then show ?thesis by (simp add: CPUSocket_get_records_diff_power_microwatts_def raw_power_uw_def)
next
  case (Some pl)
  obtain p l where pl: "pl = (p, l)" by (cases pl)
  have "last (sock_record_buffer s) = l"
    using Some pl by (auto simp: last_two_Some_iff)
  then show ?thesis using Some pl
    by (auto simp: CPUSocket_get_records_diff_power_microwatts_def raw_power_uw_def Let_def
        split: option.split)
qed

lemma activation_idle_push:
  "sock_activation_idle_buffer s' = b @ [MultiValuedRecord_new ts [show_u64 i, show_u64 a] us] \<Longrightarrow>
   idle_uw s' = i \<and> activation_uw s' = a"
  by (simp add: idle_uw_def activation_uw_def value_u64_or_0_def Record_new_def
      CPUSocket_get_idle_power_microwatts_def CPUSocket_get_activation_power_microwatts_def
      MultiValuedRecord_new_def)

lemma raw_power_frame [simp]: "raw_power_uw (s\<lparr>sock_activation_idle_buffer := b\<rparr>) = raw_power_uw s"
  by (simp add: raw_power_uw_def split: option.split)

lemma refresh_activation_idle_frame:
  "raw_power_uw (CPUSocket_refresh_activation_idle_records e evs s) = raw_power_uw s"
  "sock_record_buffer (CPUSocket_refresh_activation_idle_records e evs s) = sock_record_buffer s"
  by (simp_all add: raw_power_uw_def CPUSocket_refresh_activation_idle_records_def split: option.split)

lemma refresh_activation_idle_values:
  assumes "raw_power_uw s = Some P"
    and "evs' = CPUSocket_refresh_activation_idle_records e evs s"
    and "idl = list_ex (\<lambda>r. ev_event_type r = IdleEvent) evs"
    and "act = list_ex (\<lambda>r. ev_event_type r = ActivationEvent) evs"
  shows "idle_uw evs' = update_background idl (saturating_sub P (background_uw s)) (idle_uw s)"
    and "activation_uw evs' = update_background act (saturating_sub P (background_uw s)) (activation_uw s)"
proof -
  let ?c = "saturating_sub P (background_uw s)"
  have "idle_uw evs' = update_background idl ?c (idle_uw s) \<and>
      activation_uw evs' = update_background act ?c (activation_uw s)"
  proof (cases "idl \<or> act")
    case True
    then have "read_activation_idle_record e s evs =
        Some (MultiValuedRecord_new (e_now e)
          [show_u64 (update_background idl ?c (idle_uw s)),
           show_u64 (update_background act ?c (activation_uw s))] [MicroWatt, MicroWatt])"
      using assms by (simp add: read_activation_idle_record_def socket_power_net Record_new_def
          current_system_time_since_epoch_def)
    then show ?thesis using assms(2)
      by (intro activation_idle_push) (simp add: CPUSocket_refresh_activation_idle_records_def)
  next
    case False
    then have "evs' = s" using assms
      by (simp add: CPUSocket_refresh_activation_idle_records_def read_activation_idle_record_def)
    then show ?thesis using False by (simp add: update_background_def)
  qed
  then show "idle_uw evs' = update_background idl ?c (idle_uw s)"
    "activation_uw evs' = update_background act ?c (activation_uw s)" by auto
qed


text \<open>
  C1. A socket's power is right across a wrap of its counter and net of the background it learned,
  at any timestamps. If the counter advanced by \<open>En\<close> microjoules modulo its range between the last
  two records, \<open>\<tau>\<close> seconds apart (seconds and nanoseconds, at least two microseconds, clocks below
  \<open>2 ^ 32\<close> seconds, at most \<open>2 ^ 52\<close> microwatts), the power reported at the time of the last record is
  a number \<open>v\<close> of microwatts less the larger of the idle and the activation power, and never below
  zero: \<open>v\<close> is \<open>En\<close> divided by \<open>\<tau>\<close>, up to \<open>2 ^ -20\<close> seconds in the time and one microwatt in the
  result. When both timestamps are whole seconds it is the integer quotient exactly.
\<close>

theorem Socket_power_across_wrap:
  fixes p l :: Record
  defines "\<tau> \<equiv> seconds_of (timestamp l) - seconds_of (timestamp p)"
  assumes "sock_record_buffer s = h @ [p, l]"
    and "parse_u64 (trim (rec_value p)) = Some c" "unat c < unat (sock_rapl_max_uj s)"
    and "En < unat (sock_rapl_max_uj s)" "En < 2 ^ 53"
    and "parse_u64 (trim (rec_value l)) = Some (of_nat ((unat c + En) mod unat (sock_rapl_max_uj s)))"
    and "unat (as_secs (timestamp p)) < 2 ^ 32" "unat (subsec_nanos (timestamp p)) < 10 ^ 9"
    and "unat (as_secs (timestamp l)) < 2 ^ 32" "unat (subsec_nanos (timestamp l)) < 10 ^ 9"
    and "1 / 2 ^ 19 \<le> \<tau>" "of_nat En \<le> 2 ^ 52 * \<tau>"
  shows "\<exists>v. CPUSocket_get_records_diff_power_microwatts e s =
      Some (Record_new (timestamp l)
        (show_nat (v - max (unat (idle_uw s)) (unat (activation_uw s)))) MicroWatt) \<and>
    of_nat En / (\<tau> + 1 / 2 ^ 20) - 1 \<le> of_nat v \<and> of_nat v \<le> of_nat En / (\<tau> - 1 / 2 ^ 20) + 1 \<and>
    (subsec_nanos (timestamp p) = 0 \<and> subsec_nanos (timestamp l) = 0 \<longrightarrow>
       v = En div (unat (as_secs (timestamp l)) - unat (as_secs (timestamp p))))"
proof -
  obtain v where v: "f64_as_u64 (microwatts_over (microjoules_between (sock_rapl_max_uj s) c
      (of_nat ((unat c + En) mod unat (sock_rapl_max_uj s)))) (timestamp p) (timestamp l)) = of_nat v"
      "v < 2 ^ 64"
    and "of_nat En / (\<tau> + 1 / 2 ^ 20) - 1 \<le> of_nat v" "of_nat v \<le> of_nat En / (\<tau> - 1 / 2 ^ 20) + 1"
      "subsec_nanos (timestamp p) = 0 \<and> subsec_nanos (timestamp l) = 0 \<longrightarrow>
        v = En div (unat (as_secs (timestamp l)) - unat (as_secs (timestamp p)))"
    using counter_power [OF assms(4-6) refl assms(8-11), folded \<tau>_def, OF assms(12,13)] .
  moreover have "raw_power_uw s = Some (of_nat v)"
    using assms(2,3,7) v(1) by (simp add: raw_power_uw_def)
  then have "CPUSocket_get_records_diff_power_microwatts e s =
      Some (Record_new (timestamp l)
        (show_nat (v - max (unat (idle_uw s)) (unat (activation_uw s)))) MicroWatt)"
    using assms(2) v(2) by (simp add: socket_power_net show_u64_def unat_of_nat_64
        background_uw_def max_def word_le_nat_alt)
  ultimately show ?thesis by blast
qed

definition example_socket :: CPUSocket where
  "example_socket = (CPUSocket_new 0 [] [] ''f'' 1 [(''max_energy_range_uj'', ''1000'')])
     \<lparr>sock_record_buffer := [Record_new (Duration 10 0) (show_nat 900 @ [CHR 0x0A]) MicroJoule,
                            Record_new (Duration 12 0) (show_nat 100 @ [CHR 0x0A]) MicroJoule],
      sock_activation_idle_buffer :=
        [MultiValuedRecord_new (Duration 9 0) [show_u64 10, show_u64 30] [MicroWatt, MicroWatt]]\<rparr>"

lemma example_counter: "parse_u64 (show_nat 900) = Some 900" "parse_u64 (show_nat 100) = Some 100"
  using parse_u64_show_u64 [of 900] parse_u64_show_u64 [of 100] by (simp_all add: show_u64_def)

lemma example_socket_values:
  "raw_power_uw example_socket = Some 100" "idle_uw example_socket = 10" "activation_uw example_socket = 30"
proof -
  have R: "sock_rapl_max_uj example_socket = 1000"
    by (simp add: example_socket_def CPUSocket_new_def rapl_max_of_def text_eval)
  have "unat (microjoules_between 1000 900 100) = 200"
    by (simp add: microjoules_between_def saturating_add_def saturating_sub_def)
  then have "f64_as_u64 (microwatts_over (microjoules_between 1000 900 100) (Duration 10 0) (Duration 12 0)) = 100"
    using microwatts_over_whole_seconds [of 10 12 "microjoules_between 1000 900 100"] by simp
  then show "raw_power_uw example_socket = Some 100"
    using R example_counter by (simp add: raw_power_uw_def example_socket_def CPUSocket_new_def Record_new_def
        last_two_def)
  have "idle_uw example_socket = 10 \<and> activation_uw example_socket = 30"
    by (rule activation_idle_push) (simp add: example_socket_def CPUSocket_new_def)
  then show "idle_uw example_socket = 10" "activation_uw example_socket = 30" by simp_all
qed

lemma Socket_power_across_wrap_witness:
  "\<exists>v. CPUSocket_get_records_diff_power_microwatts env0 (example_socket\<lparr>sock_record_buffer :=
       [Record_new (Duration 10 300000000) (show_nat 900 @ [CHR 0x0A]) MicroJoule,
        Record_new (Duration 11 100000000) (show_nat 100 @ [CHR 0x0A]) MicroJoule]\<rparr>) =
     Some (Record_new (Duration 11 100000000) (show_nat v) MicroWatt) \<and> v \<in> {219, 220, 221}"
proof -
  let ?p = "Record_new (Duration 10 300000000) (show_nat 900 @ [CHR 0x0A]) MicroJoule"
  let ?l = "Record_new (Duration 11 100000000) (show_nat 100 @ [CHR 0x0A]) MicroJoule"
  let ?s = "example_socket\<lparr>sock_record_buffer := [?p, ?l]\<rparr>"
  have R: "sock_rapl_max_uj ?s = 1000"
    by (simp add: example_socket_def CPUSocket_new_def rapl_max_of_def text_eval)
  have bg: "idle_uw ?s = 10" "activation_uw ?s = 30"
    using activation_idle_push [of ?s "[]"] by (simp_all add: example_socket_def CPUSocket_new_def)
  obtain v where v: "CPUSocket_get_records_diff_power_microwatts env0 ?s =
      Some (Record_new (Duration 11 100000000) (show_nat (v - 30)) MicroWatt)"
    "200 / (8 / 10 + 1 / 2 ^ 20) - 1 \<le> (of_nat v :: rat)" "(of_nat v :: rat) \<le> 200 / (8 / 10 - 1 / 2 ^ 20) + 1"
    using Socket_power_across_wrap [of ?s "[]" ?p ?l 900 200 env0] R bg example_counter
    by (auto simp: Record_new_def seconds_of_def)
  from v(2,3) have "(of_nat 248 :: rat) < of_nat v" "(of_nat v :: rat) < of_nat 252" by simp_all
  then have "248 < v" "v < 252" by (simp_all only: of_nat_less_iff)
  then have "v - 30 \<in> {219, 220, 221}" by auto
  with v(1) show ?thesis by blast
qed

text \<open>
  C17. What a socket learns from the events of one refresh: idle and activation power change only
  with an event of their kind; they take the current net power when they were unset and otherwise
  never rise; so the background never exceeds both its old value and the raw power.
\<close>

theorem background_learning:
  assumes "raw_power_uw s = Some P"
  shows "idle_uw (CPUSocket_refresh_activation_idle_records e evs s) =
      (if list_ex (\<lambda>r. ev_event_type r = IdleEvent) evs then
         if idle_uw s = 0 then saturating_sub P (background_uw s)
         else min (saturating_sub P (background_uw s)) (idle_uw s)
       else idle_uw s) \<and>
    activation_uw (CPUSocket_refresh_activation_idle_records e evs s) =
      (if list_ex (\<lambda>r. ev_event_type r = ActivationEvent) evs then
         if activation_uw s = 0 then saturating_sub P (background_uw s)
         else min (saturating_sub P (background_uw s)) (activation_uw s)
       else activation_uw s) \<and>
    background_uw (CPUSocket_refresh_activation_idle_records e evs s) \<le> max P (background_uw s)"
proof -
  let ?s = "CPUSocket_refresh_activation_idle_records e evs s"
  note v = refresh_activation_idle_values [OF assms refl refl refl]
  have ub: "update_background x (saturating_sub P b) y \<le> max P y" for x b y
    using saturating_sub_le [of P b] by (auto simp: update_background_def min_def max_def)
  have "max P (idle_uw s) \<le> max P (background_uw s)" "max P (activation_uw s) \<le> max P (background_uw s)"
    unfolding background_uw_def by (intro max.mono order_refl max.cobounded1 max.cobounded2)+
  then have "background_uw ?s \<le> max P (background_uw s)"
    unfolding background_uw_def [of ?s] v by (intro max.boundedI) (blast intro: order_trans [OF ub])+
  then show ?thesis by (simp add: v update_background_def)
qed

lemma background_learning_witness:
  "idle_uw (CPUSocket_refresh_activation_idle_records env0
     [\<lparr>ev_socket_id = 0, ev_event_type = IdleEvent\<rparr>] example_socket) = 10"
  using background_learning [OF example_socket_values(1), of env0
      "[\<lparr>ev_socket_id = 0, ev_event_type = IdleEvent\<rparr>]"] example_socket_values(2,3)
  by (simp add: background_uw_def saturating_sub_def)

text \<open>
  C21. Under a constant load the idle power of a socket does not settle: the power it is learned
  from is already net of the background, so at every idle event the learned value is taken off the
  next reading, and the idle power alternates between the raw power and zero for ever.
\<close>

theorem idle_power_alternates:
  assumes "raw_power_uw s = Some P" "sock_activation_idle_buffer s = []"
  shows "idle_uw ((CPUSocket_refresh_activation_idle_records e
      [\<lparr>ev_socket_id = sid, ev_event_type = IdleEvent\<rparr>] ^^ n) s) = (if odd n then P else 0)"
proof -
  let ?evs = "[\<lparr>ev_socket_id = sid, ev_event_type = IdleEvent\<rparr>]"
  let ?f = "CPUSocket_refresh_activation_idle_records e ?evs"
  have "raw_power_uw ((?f ^^ n) s) = Some P \<and> activation_uw ((?f ^^ n) s) = 0 \<and>
      idle_uw ((?f ^^ n) s) = (if odd n then P else 0)"
  proof (induction n)
    case 0
    then show ?case using assms
      by (simp add: activation_uw_def idle_uw_def value_u64_or_0_def
          CPUSocket_get_activation_power_microwatts_def CPUSocket_get_idle_power_microwatts_def)
  next
    case (Suc n)
    let ?t = "(?f ^^ n) s"
    have raw: "raw_power_uw ?t = Some P" using Suc by simp
    have v: "idle_uw (?f ?t) = update_background True (saturating_sub P (background_uw ?t)) (idle_uw ?t)"
      "activation_uw (?f ?t) = update_background False (saturating_sub P (background_uw ?t)) (activation_uw ?t)"
      using refresh_activation_idle_values [OF raw refl refl refl, of e ?evs] by simp_all
    have "background_uw ?t = (if odd n then P else 0)" using Suc by (simp add: background_uw_def)
    then show ?case using Suc v raw
      by (simp add: refresh_activation_idle_frame update_background_def)
  qed
  then show ?thesis by simp
qed

lemma idle_power_alternates_witness:
  "idle_uw ((CPUSocket_refresh_activation_idle_records env0
      [\<lparr>ev_socket_id = 0, ev_event_type = IdleEvent\<rparr>] ^^ 3)
      (example_socket\<lparr>sock_activation_idle_buffer := []\<rparr>)) = 100"
proof -
  have "raw_power_uw (example_socket\<lparr>sock_activation_idle_buffer := []\<rparr>) = Some 100"
    using example_socket_values(1) by simp
  from idle_power_alternates [OF this, where e = env0 and sid = 0 and n = 3] show ?thesis by simp
qed

section \<open>The share of each core\<close>

lemma length_core_proportions [simp]:
  "length (CPUSocket_get_core_proportions s) = length (sock_cpu_cores s)"
  by (simp add: CPUSocket_get_core_proportions_def proportions_of_def CPUSocket_get_core_coefs_def
      CPUSocket_get_cores_def Let_def)

lemma feq_zero_iff: "is_fin v \<Longrightarrow> feq v f_zero \<longleftrightarrow> fin_val v = 0"
  by (cases v) auto

lemma proportions_of_nonzero:
  assumes "is_fin (f64_sum cs)" "fin_val (f64_sum cs) \<noteq> 0"
  shows "proportions_of cs = map (\<lambda>c. f64_div c (f64_sum cs)) cs"
  using assms by (simp add: proportions_of_def feq_zero_iff Let_def)

text \<open>
  C5. When every coefficient of the cores of a socket is a non-negative finite number with a finite
  sum, each core gets a share between zero and one, and unless all coefficients are zero the
  shares add up to one within a few units in the last place per core.
\<close>

theorem core_proportions_sum_to_one:
  assumes "\<forall>c \<in> set (CPUSocket_get_core_coefs s). nonneg_fin f64_format c"
    and "is_fin (f64_sum (CPUSocket_get_core_coefs s))" and "length (sock_cpu_cores s) \<le> 2 ^ 50"
  shows "(\<forall>p \<in> set (CPUSocket_get_core_proportions s). is_fin p \<and> 0 \<le> fin_val p \<and> fin_val p \<le> 1) \<and>
    (fin_val (f64_sum (CPUSocket_get_core_coefs s)) \<noteq> 0 \<longrightarrow>
     \<bar>sum_list (map fin_val (CPUSocket_get_core_proportions s)) - 1\<bar>
       \<le> (2 * of_nat (length (sock_cpu_cores s)) + 3) / 2 ^ 53)"
proof (cases "fin_val (f64_sum (CPUSocket_get_core_coefs s)) = 0")
  case True
  then have "feq (f64_sum (CPUSocket_get_core_coefs s)) f_zero" using assms(2) by (simp add: feq_zero_iff)
  then show ?thesis using True
    by (auto simp: CPUSocket_get_core_proportions_def proportions_of_def)
next
  case False
  let ?cs = "CPUSocket_get_core_coefs s"
  have p: "CPUSocket_get_core_proportions s = map (\<lambda>c. f64_div c (f64_sum ?cs)) ?cs"
    using proportions_of_nonzero [OF assms(2) False] by (simp add: CPUSocket_get_core_proportions_def)
  have len: "length ?cs = length (sock_cpu_cores s)"
    by (simp add: CPUSocket_get_core_coefs_def CPUSocket_get_cores_def)
  note nn = fsum_nonneg [OF assms(2,1)]
  have "is_fin (f64_div c (f64_sum ?cs)) \<and> 0 \<le> fin_val (f64_div c (f64_sum ?cs)) \<and>
      fin_val (f64_div c (f64_sum ?cs)) \<le> 1" if "c \<in> set ?cs" for c
    using fdiv_part_whole [of f64_format c "f64_sum ?cs"] nn assms(1) that False by auto
  moreover have "\<bar>sum_list (map fin_val (map (\<lambda>c. f64_div c (f64_sum ?cs)) ?cs)) - 1\<bar>
      \<le> (2 * of_nat (length ?cs) + 3) / 2 ^ 53"
    using f64_shares_sum [OF assms(1,2) False] assms(3) len by (simp add: exact_sum_def)
  ultimately show ?thesis unfolding p len by auto
qed

definition working_core :: CPUCore where
  "working_core = (CPUCore_new env0 0 [])\<lparr>core_record_buffer :=
     [MultiValuedRecord_new (Duration 1 0) (replicate 10 ''0'') (replicate 10 Numeric),
      MultiValuedRecord_new (Duration 2 0)
        ([''0'', ''7'', ''7''] @ replicate 6 ''0'' @ [''7'']) (replicate 10 Numeric)]\<rparr>"

lemma parse_or_0_digits:
  "parse_u64_or_0 ''0'' = 0" "parse_u64_or_0 ''7'' = 7" "parse_f64_or_0 ''0'' = f_zero"
proof -
  have "parse_f64 (show_nat 0) = Some (f_of_nat f64_format 0)" by (rule parse_f_show_nat)
  moreover have "show_nat 0 = ''0''" by (simp add: text_eval)
  moreover have "f_of_nat f64_format 0 = f_zero" by (simp add: f64_exact)
  ultimately show "parse_f64_or_0 ''0'' = f_zero" by (simp add: parse_f64_or_0_def text_eval)
qed (simp_all add: parse_u64_or_0_def text_eval)

lemma working_core_coef: "core_coef working_core = Fin False 7"
  by (simp add: core_coef_def get_core_metrics_delta_def working_core_def CPUCore_new_def
      MultiValuedRecord_new_def last_two_def parse_or_0_digits nth_append float_eval
      saturating_sub_def)

lemma core_proportions_sum_to_one_witness:
  "\<bar>sum_list (map fin_val (CPUSocket_get_core_proportions
      (add_cpu_core working_core (CPUSocket_new 0 [] [] ''f'' 1 [])))) - 1\<bar> \<le> 5 / 2 ^ 53"
proof -
  let ?s = "add_cpu_core working_core (CPUSocket_new 0 [] [] ''f'' 1 [])"
  have "core_coef (CPUCore_clone working_core) = core_coef working_core"
    by (simp add: core_coef_def get_core_metrics_delta_def CPUCore_clone_def)
  then have c: "CPUSocket_get_core_coefs ?s = [Fin False 7]"
    by (simp add: CPUSocket_get_core_coefs_def CPUSocket_get_cores_def add_cpu_core_def
        CPUSocket_new_def working_core_coef)
  have s: "f64_sum [Fin False 7] = Fin False 7" by (simp add: float_eval)
  have "representable f64_format 7" using representable_of_int [of 7 f64_format] by simp
  then show ?thesis using core_proportions_sum_to_one [of ?s] c s
    by (simp add: add_cpu_core_def CPUSocket_new_def)
qed

lemma sleeping_core_coef:
  assumes "c \<in> set (sock_cpu_cores s)" "get_core_metrics_delta c = Some m"
    and "cm_tsc m > 0" "cm_aperf m = 0" "cm_mperf m = 0"
  shows "NaN \<in> set (CPUSocket_get_core_coefs s)"
proof -
  have "f64_div (u64_as_f64 0) (u64_as_f64 0) = NaN" by (simp add: float_eval)
  then have "core_coef c = NaN" using assms by (simp add: core_coef_def)
  moreover have "core_coef (CPUCore_clone c) = core_coef c" for c
    by (simp add: core_coef_def get_core_metrics_delta_def CPUCore_clone_def)
  ultimately show ?thesis
    using assms(1) by (force simp: CPUSocket_get_core_coefs_def CPUSocket_get_cores_def image_iff)
qed

text \<open>
  C22. One core that slept through an interval, so that its TSC advanced and its APERF and MPERF
  did not, makes the share and the power of every core of its socket NaN.
\<close>

theorem sleeping_core_spoils_socket:
  assumes "c \<in> set (sock_cpu_cores s)" "get_core_metrics_delta c = Some m"
    and "cm_tsc m > 0" "cm_aperf m = 0" "cm_mperf m = 0"
  shows "set (CPUSocket_get_core_proportions s) = {NaN} \<and>
    (\<forall>r. CPUSocket_get_proportional_core_diff_power_microwatts e s = Some r \<longrightarrow>
       set (mv_values r) = {''NaN''})"
proof -
  have mem: "NaN \<in> set (CPUSocket_get_core_coefs s)" by (rule sleeping_core_coef [OF assms])
  then have "f64_sum (CPUSocket_get_core_coefs s) = NaN" by (rule fsum_NaN)
  then have "CPUSocket_get_core_proportions s = map (\<lambda>_. NaN) (CPUSocket_get_core_coefs s)"
    by (simp add: CPUSocket_get_core_proportions_def proportions_of_def)
  moreover have "CPUSocket_get_core_coefs s \<noteq> []" using mem by auto
  ultimately show ?thesis
    by (auto simp: CPUSocket_get_proportional_core_diff_power_microwatts_def Let_def
        MultiValuedRecord_new_def image_constant_conv split: option.splits)
qed

definition sleeping_core :: CPUCore where
  "sleeping_core = (CPUCore_new env0 0 [])\<lparr>core_record_buffer :=
     [MultiValuedRecord_new (Duration 1 0) (replicate 10 ''0'') (replicate 10 Numeric),
      MultiValuedRecord_new (Duration 2 0) (replicate 9 ''0'' @ [''7'']) (replicate 10 Numeric)]\<rparr>"

lemma sleeping_core_spoils_socket_witness:
  "set (CPUSocket_get_core_proportions (add_cpu_core sleeping_core (CPUSocket_new 0 [] [] ''f'' 1 []))) = {NaN}"
proof -
  let ?s = "add_cpu_core sleeping_core (CPUSocket_new 0 [] [] ''f'' 1 [])"
  have "\<exists>m. get_core_metrics_delta sleeping_core = Some m \<and> cm_tsc m = 7 \<and> cm_aperf m = 0 \<and> cm_mperf m = 0"
    by (simp add: get_core_metrics_delta_def sleeping_core_def CPUCore_new_def MultiValuedRecord_new_def
        last_two_def parse_or_0_digits Let_def nth_append)
  then obtain m where m: "get_core_metrics_delta sleeping_core = Some m" "cm_tsc m = 7" "cm_aperf m = 0" "cm_mperf m = 0"
    by blast
  have "sleeping_core \<in> set (sock_cpu_cores ?s)" by (simp add: add_cpu_core_def CPUSocket_new_def)
  then show ?thesis using sleeping_core_spoils_socket [OF _ m(1)] m by simp
qed

section \<open>Statistics\<close>

definition core_cpu_time :: "world \<Rightarrow> nat \<Rightarrow> CPUCore \<Rightarrow> CpuTime" where
  "core_cpu_time w i c = ks_cpu_time (the (e_kernel_stats (w [i]))) ! unat (core_id c)"

lemma fold_stats:
  assumes "\<forall>(i, c) \<in> set ics. \<exists>ks. e_kernel_stats (w [i]) = Some ks \<and> unat (core_id c) < length (ks_cpu_time ks)"
  shows "\<exists>st'. fold_res (\<lambda>(i, c) stats.
        map_res (\<lambda>cs. case cs of Some c_stats \<Rightarrow> stats_add stats c_stats | None \<Rightarrow> stats)
          (CPUCore_read_stats (w [i]) c)) ics st = Inr st' \<and>
    st_user st' = st_user st + sum_list (map (\<lambda>(i, c). ct_user (core_cpu_time w i c)) ics) \<and>
    st_system st' = st_system st + sum_list (map (\<lambda>(i, c). ct_system (core_cpu_time w i c)) ics) \<and>
    st_idle st' = st_idle st + sum_list (map (\<lambda>(i, c). ct_idle (core_cpu_time w i c)) ics) \<and>
    st_steal st' = st_steal st \<and> st_guest st' = st_guest st \<and> st_guest_nice st' = st_guest_nice st"
  using assms
proof (induction ics arbitrary: st)
  case Nil
  then show ?case by simp
next
  case (Cons ic ics)
  obtain i c where ic: "ic = (i, c)" by (cases ic)
  then obtain ks where ks: "e_kernel_stats (w [i]) = Some ks" "unat (core_id c) < length (ks_cpu_time ks)"
    using Cons.prems by auto
  then have r: "CPUCore_read_stats (w [i]) c = Inr (Some (from_procfs_cputime (core_cpu_time w i c)))"
    by (simp add: CPUCore_read_stats_def core_cpu_time_def index_vec_def)
  show ?case using Cons.IH [of "stats_add st (from_procfs_cputime (core_cpu_time w i c))"] Cons.prems ic r
    by (force simp: stats_add_def from_procfs_cputime_def add.assoc)
qed

text \<open>
  The statistics of a socket are the sums of the times of its cores, as far as user, system
  and idle time go; steal, guest and guest-nice time stay zero whatever the cores report.
\<close>

theorem socket_stats_sum:
  assumes "\<forall>(i, c) \<in> set (enumerate 0 (sock_cpu_cores s)).
      \<exists>ks. e_kernel_stats (w [i]) = Some ks \<and> unat (core_id c) < length (ks_cpu_time ks)"
  shows "\<exists>st. CPUSocket_read_stats w s = Inr (Some st) \<and>
    st_user st = sum_list (map (\<lambda>(i, c). ct_user (core_cpu_time w i c)) (enumerate 0 (sock_cpu_cores s))) \<and>
    st_system st = sum_list (map (\<lambda>(i, c). ct_system (core_cpu_time w i c)) (enumerate 0 (sock_cpu_cores s))) \<and>
    st_idle st = sum_list (map (\<lambda>(i, c). ct_idle (core_cpu_time w i c)) (enumerate 0 (sock_cpu_cores s))) \<and>
    st_steal st = Some 0 \<and> st_guest st = Some 0 \<and> st_guest_nice st = Some 0"
  using fold_stats [OF assms, of stats_zero]
  by (force simp: CPUSocket_read_stats_def stats_zero_def)

definition example_cputime :: "u64 \<Rightarrow> CpuTime" where
  "example_cputime u = \<lparr>ct_user = u, ct_nice = 0, ct_system = 0, ct_idle = 9, ct_iowait = None,
     ct_irq = None, ct_softirq = None, ct_steal = Some 4, ct_guest = None, ct_guest_nice = None\<rparr>"

definition example_stats :: KernelStats where
  "example_stats = \<lparr>ks_total = example_cputime 12, ks_cpu_time = [example_cputime 5, example_cputime 7],
     ks_ctxt = 0, ks_processes = 0, ks_procs_running = None, ks_procs_blocked = None\<rparr>"

lemma socket_stats_sum_witness:
  "\<exists>st. CPUSocket_read_stats (\<lambda>_. env0\<lparr>e_kernel_stats := Some example_stats\<rparr>)
       (add_cpu_core (CPUCore_new env0 1 []) (add_cpu_core (CPUCore_new env0 0 [])
         (CPUSocket_new 0 [] [] ''f'' 1 []))) = Inr (Some st) \<and> st_user st = 12 \<and> st_steal st = Some 0"
  using socket_stats_sum [of "add_cpu_core (CPUCore_new env0 1 []) (add_cpu_core (CPUCore_new env0 0 [])
         (CPUSocket_new 0 [] [] ''f'' 1 []))" "\<lambda>_. env0\<lparr>e_kernel_stats := Some example_stats\<rparr>"]
  by (auto simp: add_cpu_core_def CPUSocket_new_def CPUCore_new_def example_stats_def core_cpu_time_def
      example_cputime_def)

end
