(* ===== verification/Bpf.thy ===== *)
theory Bpf
  imports Environment
begin

text \<open>
  The user-space side of the eBPF programs (\<open>scaphandre/src/bpf.rs\<close> and the initialisation of the
  CPU map in \<open>sensors/mod.rs\<close>): which programs are attached to which CPUs, how the CPU-to-socket
  array is filled, and how the events of the ring buffer are decoded. Whether the object file, the
  verifier and the attachments succeed is aya's answer, a parameter of \<open>load\<close>; every error and panic
  that follows from it is a branch here.
\<close>

section \<open>Attachment\<close>

definition SAMPLE_TICK_HZ :: nat where
  "SAMPLE_TICK_HZ = 200"

definition CPU_STATE_TICK_HZ :: nat where
  "CPU_STATE_TICK_HZ = 100"

datatype attachment =
    Attach_context_switch_tracker
  | Attach_process_exit_cleanup
  | Attach_sample_tick nat nat
  | Attach_cpu_state_tick nat nat

definition package_id_path :: "nat \<Rightarrow> string" where
  "package_id_path cpu =
     ''/sys/devices/system/cpu/cpu'' @ show_nat cpu @ ''/topology/physical_package_id''"

definition parse_u32 :: "string \<Rightarrow> nat option" where
  "parse_u32 s = parse_uint (2 ^ 32) s"

definition socket_of_cpu :: "env \<Rightarrow> nat \<Rightarrow> nat" where
  "socket_of_cpu e cpu =
     (case e_read_to_string e (package_id_path cpu) of
        Some s \<Rightarrow> (case parse_u32 (trim s) of Some i \<Rightarrow> i | None \<Rightarrow> 0)
      | None \<Rightarrow> 0)"

text \<open>
  What aya answers while the object is loaded: whether the object file is accepted, the programs it
  holds with their kinds, whether the verifier accepts a program, whether an attachment succeeds, and
  the CPUs online at the two times they are asked for.
\<close>

datatype program_kind = RawTracePoint | TracePoint | PerfEvent | Other_Program

record aya =
  ay_object :: bool
  ay_program :: "string \<Rightarrow> program_kind option"
  ay_load :: "string \<Rightarrow> bool"
  ay_attach :: "attachment \<Rightarrow> bool"
  ay_online_cpus :: "nat \<Rightarrow> nat list option"

text \<open>
  \<open>program_mut(name).unwrap().try_into()?\<close> followed by \<open>load()?\<close>: a program that is not in the object
  panics, one of another kind or refused by the verifier is an error.
\<close>

definition load_program :: "aya \<Rightarrow> string \<Rightarrow> program_kind \<Rightarrow> bool res" where
  "load_program ay name kind =
     map_res (\<lambda>k. k = kind \<and> ay_load ay name) (unwrap_opt (ay_program ay name))"

text \<open>The loops that attach the perf events; the first attachment that fails ends the load.\<close>

fun attach_sample_ticks :: "aya \<Rightarrow> nat list \<Rightarrow> attachment list option" where
  "attach_sample_ticks ay [] = Some []"
| "attach_sample_ticks ay (cpu # cpus) =
     (let a = Attach_sample_tick cpu SAMPLE_TICK_HZ
      in if ay_attach ay a then map_option ((#) a) (attach_sample_ticks ay cpus) else None)"

fun attach_state_ticks :: "aya \<Rightarrow> env \<Rightarrow> nat list \<Rightarrow> nat list \<Rightarrow> attachment list option" where
  "attach_state_ticks ay e [] seen_sockets = Some []"
| "attach_state_ticks ay e (cpu # cpus) seen_sockets =
     (let socket_id = socket_of_cpu e cpu
      in if socket_id \<in> set seen_sockets then attach_state_ticks ay e cpus seen_sockets
         else let a = Attach_cpu_state_tick cpu CPU_STATE_TICK_HZ
              in if ay_attach ay a
                 then map_option ((#) a) (attach_state_ticks ay e cpus (socket_id # seen_sockets))
                 else None)"

text \<open>
  \<open>load\<close> itself: \<open>Inl\<close> is a panic, \<open>Inr None\<close> the error it returns, and \<open>Inr (Some atts)\<close> the
  loaded object with what is attached.
\<close>

definition load :: "aya \<Rightarrow> env \<Rightarrow> attachment list option res" where
  "load ay e =
     (if \<not> ay_object ay then Inr None
      else bind_res (load_program ay ''context_switch_tracker'' RawTracePoint) (\<lambda>ok.
        if \<not> (ok \<and> ay_attach ay Attach_context_switch_tracker) then Inr None
        else bind_res (load_program ay ''process_exit_cleanup'' TracePoint) (\<lambda>ok.
        if \<not> (ok \<and> ay_attach ay Attach_process_exit_cleanup) then Inr None
        else bind_res (load_program ay ''sample_tick'' PerfEvent) (\<lambda>ok.
        if \<not> ok then Inr None
        else (case Option.bind (ay_online_cpus ay 0) (attach_sample_ticks ay) of
          None \<Rightarrow> Inr None
        | Some samples \<Rightarrow>
            bind_res (load_program ay ''cpu_state_tick'' PerfEvent) (\<lambda>ok.
            if \<not> ok then Inr None
            else Inr (map_option (\<lambda>ticks. Attach_context_switch_tracker # Attach_process_exit_cleanup # samples @ ticks)
              (Option.bind (ay_online_cpus ay 1) (\<lambda>cpus. attach_state_ticks ay e cpus [])))))))))"

section \<open>The CPU-to-socket array\<close>

definition read_physical_package_id :: "env \<Rightarrow> nat \<Rightarrow> u16 option" where
  "read_physical_package_id e cpu =
     Option.bind (e_read_to_string e (package_id_path cpu)) (\<lambda>s. parse_u16 (trim s))"

text \<open>
  The writes to the array, in order, and whether the function returned \<open>Ok\<close>; a write of the array
  does not fail for an index below its length.
\<close>

fun populate_cpus :: "env \<Rightarrow> nat \<Rightarrow> nat list \<Rightarrow> (nat \<Rightarrow> u16) \<Rightarrow> (nat \<Rightarrow> u16) \<times> bool" where
  "populate_cpus e map_len [] arr = (arr, True)"
| "populate_cpus e map_len (cpu # cpus) arr =
     (if cpu \<ge> map_len then populate_cpus e map_len cpus arr
      else (case read_physical_package_id e cpu of
              None \<Rightarrow> (arr, False)
            | Some socket \<Rightarrow> populate_cpus e map_len cpus (arr(cpu := socket + 1))))"

definition populate_cpu_to_socket_map :: "env \<Rightarrow> nat \<Rightarrow> nat list option \<Rightarrow> (nat \<Rightarrow> u16) \<Rightarrow> (nat \<Rightarrow> u16) \<times> bool"
where
  "populate_cpu_to_socket_map e map_len online_cpus arr =
     (case online_cpus of None \<Rightarrow> (arr, False) | Some cpus \<Rightarrow> populate_cpus e map_len cpus arr)"

section \<open>Events\<close>

text \<open>
  \<open>CpuStateEvent\<close> is \<open>repr(C)\<close>: the socket in the first two bytes, two bytes of padding, the event
  type as a \<open>u32\<close>, all little-endian. Only the two values of the enumeration are ever written.
\<close>

definition size_of_CpuStateEvent :: nat where
  "size_of_CpuStateEvent = 8"

definition event_type_code :: "CpuEventType \<Rightarrow> u8" where
  "event_type_code t = (case t of ActivationEvent \<Rightarrow> 0 | IdleEvent \<Rightarrow> 1)"

definition encode_event :: "u8 \<Rightarrow> u8 \<Rightarrow> CpuStateEvent \<Rightarrow> u8 list" where
  "encode_event pad1 pad2 ev =
     [of_nat (unat (ev_socket_id ev) mod 256), of_nat (unat (ev_socket_id ev) div 256), pad1, pad2,
      event_type_code (ev_event_type ev), 0, 0, 0]"

definition read_unaligned :: "u8 list \<Rightarrow> CpuStateEvent" where
  "read_unaligned item =
     \<lparr>ev_socket_id = of_nat (unat (item ! 0) + 256 * unat (item ! 1)),
      ev_event_type = (if item ! 4 = 0 then ActivationEvent else IdleEvent)\<rparr>"

definition drain_cpu_state_events :: "env \<Rightarrow> CpuStateEvent list" where
  "drain_cpu_state_events e =
     map read_unaligned (filter (\<lambda>item. length item = size_of_CpuStateEvent) (e_ring_items e))"

section \<open>Properties\<close>

lemma attach_sample_ticks_Some:
  "attach_sample_ticks ay cpus = Some atts \<longleftrightarrow>
     atts = map (\<lambda>cpu. Attach_sample_tick cpu SAMPLE_TICK_HZ) cpus \<and> (\<forall>a \<in> set atts. ay_attach ay a)"
  by (induction cpus arbitrary: atts) (auto simp: Let_def)

text \<open>The elements of a list that are the first with their key.\<close>

definition firsts :: "('a \<Rightarrow> 'k) \<Rightarrow> 'k list \<Rightarrow> 'a list \<Rightarrow> 'a list" where
  "firsts f seen xs =
     map ((!) xs) (filter (\<lambda>i. f (xs ! i) \<notin> set seen \<and> (\<forall>j<i. f (xs ! j) \<noteq> f (xs ! i))) [0..<length xs])"

lemma firsts_Nil [simp]: "firsts f seen [] = []"
  by (simp add: firsts_def)

lemma firsts_Cons [simp]:
  "firsts f seen (x # xs) = (if f x \<in> set seen then firsts f seen xs else x # firsts f (f x # seen) xs)"
proof -
  have up: "[0..<length (x # xs)] = 0 # map Suc [0..<length xs]"
    unfolding map_Suc_upt by (rule trans [OF upt_conv_Cons]) simp_all
  let ?P = "\<lambda>seen xs i. f (xs ! i) \<notin> set seen \<and> (\<forall>j<i. f (xs ! j) \<noteq> f (xs ! i))"
  have P: "?P seen (x # xs) (Suc i) = ?P (f x # seen) xs i" "?P seen (x # xs) 0 = (f x \<notin> set seen)" for i
    by (auto simp: All_less_Suc2)
  have seen: "?P (f x # seen) xs = ?P seen xs" if "f x \<in> set seen" using that by (intro ext) auto
  have "firsts f seen (x # xs) = (if f x \<in> set seen then [] else [x]) @
      map ((!) xs) (filter (?P (f x # seen) xs) [0..<length xs])"
    unfolding firsts_def up filter.simps filter_map comp_def P map_map list.map by simp
  then show ?thesis using seen by (simp add: firsts_def)
qed



lemma load_program_True:
  "load_program ay name kind = Inr True \<longleftrightarrow> ay_program ay name = Some kind \<and> ay_load ay name"
  by (cases "ay_program ay name") (auto simp: load_program_def)



definition example_aya :: aya where
  "example_aya = \<lparr>ay_object = True,
     ay_program = [''context_switch_tracker'' \<mapsto> RawTracePoint, ''process_exit_cleanup'' \<mapsto> TracePoint,
       ''sample_tick'' \<mapsto> PerfEvent, ''cpu_state_tick'' \<mapsto> PerfEvent],
     ay_load = (\<lambda>_. True), ay_attach = (\<lambda>_. True), ay_online_cpus = (\<lambda>_. Some [0, 1, 2])\<rparr>"

lemma example_load: "\<exists>atts. load example_aya e = Inr (Some atts)"
proof -
  have "\<exists>ts. attach_state_ticks example_aya e cpus seen = Some ts" for cpus seen
    by (induction cpus arbitrary: seen) (auto simp: Let_def example_aya_def)
  then obtain ts where "attach_state_ticks example_aya e [0, 1, 2] [] = Some ts" by blast
  moreover have "attach_sample_ticks example_aya [0, 1, 2] = Some (map (\<lambda>cpu. Attach_sample_tick cpu SAMPLE_TICK_HZ) [0, 1, 2])"
    by (simp add: attach_sample_ticks_Some example_aya_def)
  moreover have "ay_online_cpus example_aya n = Some [0, 1, 2]" "ay_object example_aya" "ay_attach example_aya a" for n a
    by (simp_all add: example_aya_def)
  moreover have "load_program example_aya ''context_switch_tracker'' RawTracePoint = Inr True"
    "load_program example_aya ''process_exit_cleanup'' TracePoint = Inr True"
    "load_program example_aya ''sample_tick'' PerfEvent = Inr True" "load_program example_aya ''cpu_state_tick'' PerfEvent = Inr True"
    by (simp_all add: load_program_True example_aya_def)
  ultimately show ?thesis by (simp add: load_def)
qed



lemma unat_of_nat_8: "n < 256 \<Longrightarrow> unat (of_nat n :: u8) = n"
  by (simp add: unsigned_of_nat take_bit_nat_eq_self)

lemma length_encode_event: "length (encode_event p q ev) = 8"
  by (simp add: encode_event_def)

lemma read_encode_event: "read_unaligned (encode_event p q ev) = ev"
proof -
  have "unat (ev_socket_id ev) < 65536" using unsigned_less [of "ev_socket_id ev", where ?'a = nat] by simp
  then have "unat (ev_socket_id ev) div 256 < 256" by simp
  then have "unat (ev_socket_id ev) mod 256 + 256 * (unat (ev_socket_id ev) div 256) = unat (ev_socket_id ev)"
    by simp
  then show ?thesis using \<open>unat (ev_socket_id ev) div 256 < 256\<close>
    by (cases ev; cases "ev_event_type ev")
      (simp_all add: read_unaligned_def encode_event_def unat_of_nat_8 event_type_code_def)
qed

text \<open>
  C26. The events the kernel side wrote to the ring buffer come out of the drain unchanged and in
  order, whatever the padding bytes hold.
\<close>

theorem drain_decodes_events:
  assumes "e_ring_items e = map (\<lambda>(p, q, ev). encode_event p q ev) evs"
  shows "drain_cpu_state_events e = map (\<lambda>(_, _, ev). ev) evs"
proof -
  have "map read_unaligned (filter (\<lambda>item. length item = 8) (map (\<lambda>(p, q, ev). encode_event p q ev) evs)) =
      map (\<lambda>(_, _, ev). ev) evs"
    by (induction evs) (auto simp: read_encode_event length_encode_event)
  then show ?thesis using assms by (simp add: drain_cpu_state_events_def size_of_CpuStateEvent_def)
qed

lemma drain_decodes_events_witness:
  "drain_cpu_state_events (env0\<lparr>e_ring_items := [[1, 2, 9, 9, 1, 0, 0, 0]]\<rparr>) =
     [\<lparr>ev_socket_id = 513, ev_event_type = IdleEvent\<rparr>]"
proof -
  have "encode_event 9 9 \<lparr>ev_socket_id = 513, ev_event_type = IdleEvent\<rparr> = [1, 2, 9, 9, 1, 0, 0, 0]"
    by (simp add: encode_event_def event_type_code_def)
  then show ?thesis
    using drain_decodes_events [of "env0\<lparr>e_ring_items := [[1, 2, 9, 9, 1, 0, 0, 0]]\<rparr>"
        "[(9, 9, \<lparr>ev_socket_id = 513, ev_event_type = IdleEvent\<rparr>)]"]
    by simp
qed

end
