(* ===== verification/Topology.thy ===== *)
theory Topology
  imports Socket Process_Tracker Bpf "HOL-Library.List_Lexorder" "HOL-Library.Char_ord"
begin

text \<open>
  The topology (\<open>sensors/mod.rs\<close>, \<open>Topology\<close>; its reader is in \<open>sensors/powercap_rapl.rs\<close>): the
  sockets, the process tracker and the buffers of the whole host, how it is put together, and the
  refresh that updates all of it. A \<open>world\<close> addresses the observations of a refresh by the number
  of the step and the indices of the loops around it.
\<close>

section \<open>Data\<close>

text \<open>
  The handles of the eBPF maps cannot be inspected, so a field says whether the handle is there;
  what a map holds is read from the observation.
\<close>

record Topology =
  topo_sockets :: "CPUSocket list"
  topo_proc_tracker :: ProcessTracker
  topo_stat_buffer :: "CPUStat list"
  topo_record_buffer :: "Record list"
  topo_buffer_max_kbytes :: u16
  topo_domains_names :: "string list option"
  topo_sensor_data :: "(string, string) hmap"
  topo_ebpf :: bool
  topo_cpu_state_buffer :: bool
  topo_activation_idle_buffer :: "(u16, CpuStateEvent list) hmap"
  topo_cpu_time_map :: bool
  topo_cpu_time_buffer :: "MultiValuedRecord list"

text \<open>
  The eBPF object, as far as \<open>Topology::new\<close> looks at it: which of the maps it takes are there with
  the right type.
\<close>

record bpf_object =
  has_CPU_STATE_EVENTS :: bool
  has_CPU_TIME :: bool
  has_PID_TIMES :: bool

definition Topology_new :: "env \<Rightarrow> bpf_object option \<Rightarrow> (string, string) hmap \<Rightarrow> Topology" where
  "Topology_new e ebpf sensor_data =
     \<lparr>topo_sockets = [],
      topo_proc_tracker = ProcessTracker_new e 5 (case ebpf of Some b \<Rightarrow> has_PID_TIMES b | None \<Rightarrow> False),
      topo_stat_buffer = [], topo_record_buffer = [], topo_buffer_max_kbytes = 1,
      topo_domains_names = None, topo_sensor_data = sensor_data,
      topo_ebpf = (ebpf \<noteq> None),
      topo_cpu_state_buffer = (case ebpf of Some b \<Rightarrow> has_CPU_STATE_EVENTS b | None \<Rightarrow> False),
      topo_activation_idle_buffer = [],
      topo_cpu_time_map = (case ebpf of Some b \<Rightarrow> has_CPU_TIME b | None \<Rightarrow> False),
      topo_cpu_time_buffer = []\<rparr>"

definition Topology_clone :: "env \<Rightarrow> Topology \<Rightarrow> Topology" where
  "Topology_clone e t =
     t\<lparr>topo_sockets := map CPUSocket_clone (topo_sockets t),
       topo_proc_tracker := ProcessTracker_clone e (topo_proc_tracker t),
       topo_ebpf := False, topo_cpu_state_buffer := False, topo_cpu_time_map := False\<rparr>"

section \<open>Building\<close>

text \<open>
  \<open>generate_cpu_cores\<close>: the number of a CPU is the number at the end of its name, or its index.
\<close>

definition core_of_cpu :: "env \<Rightarrow> (nat \<Rightarrow> (string, string) hmap option) \<Rightarrow> nat \<times> Cpu \<Rightarrow> CPUCore res" where
  "core_of_cpu e cpuinfo ic =
     (let (idx, c) = ic;
          i = (case parse_u16 (dropWhile (\<lambda>ch. \<not> is_digit ch) (cpu_name c)) of
                 Some i \<Rightarrow> i | None \<Rightarrow> of_nat idx)
      in bind_res (unwrap_opt (cpuinfo (unat i))) (\<lambda>entries.
           let info = fold (\<lambda>(k, v). hm_insert k v) entries [];
               info = hm_insert ''frequency'' (show_u64 (cpu_frequency c)) info;
               info = hm_insert ''name'' (cpu_name c) info;
               info = hm_insert ''vendor_id'' (cpu_vendor_id c) info;
               info = hm_insert ''brand'' (cpu_brand c) info
           in Inr (CPUCore_new e i info)))"

definition generate_cpu_cores :: "env \<Rightarrow> CPUCore list res" where
  "generate_cpu_cores e =
     (case e_cpuinfo e of
        None \<Rightarrow> Inl Unwrap_Err
      | Some cpuinfo \<Rightarrow>
          traverse_res (core_of_cpu e cpuinfo) (enumerate 0 (sys_cpus (e_system_new_all e))))"

definition safe_add_socket ::
  "u16 \<Rightarrow> Domain list \<Rightarrow> (string, string) hmap list list \<Rightarrow> string \<Rightarrow> u16 \<Rightarrow> (string, string) hmap \<Rightarrow>
   Topology \<Rightarrow> Topology \<times> CPUSocket option"
where
  "safe_add_socket socket_id domains attributes counter_uj_path kb sensor_data t =
     (if \<not> list_ex (\<lambda>s. sock_id s = socket_id) (topo_sockets t) then
        let socket = CPUSocket_new socket_id domains attributes counter_uj_path kb sensor_data
        in (t\<lparr>topo_sockets := topo_sockets t @ [socket]\<rparr>, Some (CPUSocket_clone socket))
      else (t, None))"

definition safe_insert_socket :: "CPUSocket \<Rightarrow> Topology \<Rightarrow> Topology" where
  "safe_insert_socket socket t =
     (if \<not> list_ex (\<lambda>s. sock_id s = sock_id socket) (topo_sockets t)
      then t\<lparr>topo_sockets := topo_sockets t @ [socket]\<rparr> else t)"

text \<open>The names of all domains, each once, sorted as strings of bytes.\<close>

definition build_domains_names :: "Topology \<Rightarrow> Topology" where
  "build_domains_names t =
     (let names = fold (\<lambda>s. fold (\<lambda>d. hm_insert (dom_name d) ()) (sock_domains s)) (topo_sockets t) []
      in t\<lparr>topo_domains_names := Some (sort (map fst names))\<rparr>)"

definition set_domains_names :: "string list \<Rightarrow> Topology \<Rightarrow> Topology" where
  "set_domains_names names t = t\<lparr>topo_domains_names := Some names\<rparr>"

definition safe_add_domain_to_socket ::
  "u16 \<Rightarrow> u16 \<Rightarrow> string \<Rightarrow> string \<Rightarrow> u16 \<Rightarrow> (string, string) hmap \<Rightarrow> Topology \<Rightarrow> Topology"
where
  "safe_add_domain_to_socket socket_id domain_id name uj_counter kb sensor_data t =
     build_domains_names
       (t\<lparr>topo_sockets :=
          map (\<lambda>s. if sock_id s = socket_id
                   then safe_add_domain (Domain_new domain_id name uj_counter kb sensor_data) s
                   else s) (topo_sockets t)\<rparr>)"

text \<open>A core goes to the socket of its \<open>physical id\<close>, or to the first socket when there is none.\<close>

definition physical_id :: "CPUCore \<Rightarrow> u16 res" where
  "physical_id c =
     bind_res (unwrap_opt (hm_get (core_attributes c) ''physical id'')) (\<lambda>v.
       case parse_u16 v of Some i \<Rightarrow> Inr i | None \<Rightarrow> Inl Unwrap_Err)"

definition no_socket_message :: string where
  "no_socket_message = ''Trick: if you are running on a vm, do not forget to use --vm parameter invoking scaphandre at the command line''"

definition place_core :: "CPUCore \<Rightarrow> CPUSocket list \<Rightarrow> CPUSocket list res" where
  "place_core c sockets =
     bind_res (physical_id c) (\<lambda>socket_id.
       case update_first (\<lambda>x. sock_id x = socket_id) (add_cpu_core c) sockets of
         Some sockets' \<Rightarrow> Inr sockets'
       | None \<Rightarrow>
           (case sockets of
              [] \<Rightarrow> Inl (Expect_Failed no_socket_message)
            | s # ss \<Rightarrow> Inr (add_cpu_core c s # ss)))"

definition add_cpu_cores :: "env \<Rightarrow> Topology \<Rightarrow> Topology res" where
  "add_cpu_cores e t =
     bind_res (generate_cpu_cores e) (\<lambda>cores.
     bind_res (fold_res place_core (rev cores) (topo_sockets t)) (\<lambda>sockets.
       Inr (t\<lparr>topo_sockets := sockets\<rparr>)))"

section \<open>Events of the kernel side\<close>

definition push_event :: "CpuStateEvent \<Rightarrow> (u16, CpuStateEvent list) hmap \<Rightarrow> (u16, CpuStateEvent list) hmap" where
  "push_event ev buf =
     hm_insert (ev_socket_id ev)
       ((case hm_get buf (ev_socket_id ev) of Some evs \<Rightarrow> evs | None \<Rightarrow> []) @ [ev]) buf"

definition Topology_refresh_activation_idle_records :: "env \<Rightarrow> Topology \<Rightarrow> Topology" where
  "Topology_refresh_activation_idle_records e t =
     (if topo_cpu_state_buffer t
      then t\<lparr>topo_activation_idle_buffer :=
               fold push_event (drain_cpu_state_events e) (topo_activation_idle_buffer t)\<rparr>
      else t)"

definition get_activation_idle_records :: "u16 \<Rightarrow> Topology \<Rightarrow> CpuStateEvent list \<times> Topology" where
  "get_activation_idle_records socket t =
     ((case hm_get (topo_activation_idle_buffer t) socket of Some evs \<Rightarrow> evs | None \<Rightarrow> []),
      t\<lparr>topo_activation_idle_buffer := hm_remove socket (topo_activation_idle_buffer t)\<rparr>)"

fun take_records :: "u16 list \<Rightarrow> Topology \<Rightarrow> CpuStateEvent list list \<times> Topology" where
  "take_records [] t = ([], t)"
| "take_records (i # ids) t =
     (let (r, t) = get_activation_idle_records i t; (rs, t) = take_records ids t in (r # rs, t))"

section \<open>Records and statistics of the host\<close>

definition get_rapl_psys_energy_microjoules :: "env \<Rightarrow> Topology \<Rightarrow> Record option" where
  "get_rapl_psys_energy_microjoules e t =
     (case hm_get (topo_sensor_data t) ''psys'' of
        None \<Rightarrow> None
      | Some psys \<Rightarrow>
          (case e_read_to_string e (psys @ ''/energy_uj'') of
             Some v \<Rightarrow> Some (Record_new (current_system_time_since_epoch e) v MicroJoule)
           | None \<Rightarrow> None))"

text \<open>The sum is an \<open>i128\<close>; its terms come from files of at most a few dozen digits.\<close>

definition i128_of_record :: "Record option \<Rightarrow> int" where
  "i128_of_record r =
     (case r of
        None \<Rightarrow> 0
      | Some rc \<Rightarrow> (case parse_i128 (trim (rec_value rc)) of Some v \<Rightarrow> v | None \<Rightarrow> 0))"

definition i128_add :: "int \<Rightarrow> int \<Rightarrow> int" where
  "i128_add a b = (a + b + 2 ^ 127) mod 2 ^ 128 - 2 ^ 127"

definition add_dram :: "env \<Rightarrow> Domain \<Rightarrow> int \<Rightarrow> int res" where
  "add_dram e d tot =
     (if dom_name d = ''dram''
      then map_res (\<lambda>r. i128_add tot (i128_of_record r)) (Domain_read_record e d)
      else Inr tot)"

definition add_socket_energy :: "world \<Rightarrow> CPUSocket \<Rightarrow> int \<Rightarrow> int res" where
  "add_socket_energy w s tot =
     bind_res (CPUSocket_read_record (w [0]) s) (\<lambda>r.
       fold_res (\<lambda>(j, d). add_dram (w [1, j]) d) (enumerate 0 (sock_domains s))
         (i128_add tot (i128_of_record r)))"

definition Topology_read_record :: "world \<Rightarrow> Topology \<Rightarrow> Record option res" where
  "Topology_read_record w t =
     (case get_rapl_psys_energy_microjoules (w [0]) t of
        Some psys_record \<Rightarrow> Inr (Some psys_record)
      | None \<Rightarrow>
          map_res (\<lambda>total. Some (Record_new (current_system_time_since_epoch (w [2])) (show_int total) MicroJoule))
            (fold_res (\<lambda>(i, s). add_socket_energy (sub_world i (sub_world 1 w)) s)
               (enumerate 0 (topo_sockets t)) 0))"

text \<open>The size of the buffer is compared as a \<open>u16\<close> here, unlike in the other generators.\<close>

definition clean_front_u16 :: "nat \<Rightarrow> u16 \<Rightarrow> 'a list \<Rightarrow> 'a list" where
  "clean_front_u16 rsz kb buf =
     (let curr_size = rsz * length buf
      in if curr_size mod 2 ^ 16 > max_bytes kb then
           (let size_diff = curr_size - max_bytes kb
            in if size_diff > rsz then remove_front_n (nb_to_delete size_diff rsz - 1) buf else buf)
         else buf)"

definition Topology_clean_old_records :: "nat \<Rightarrow> Topology \<Rightarrow> Topology res" where
  "Topology_clean_old_records rsz t =
     bind_res (index_vec (topo_record_buffer t) 0) (\<lambda>_.
       Inr (t\<lparr>topo_record_buffer := clean_front_u16 rsz (topo_buffer_max_kbytes t) (topo_record_buffer t)\<rparr>))"

definition Topology_refresh_record :: "nat \<Rightarrow> world \<Rightarrow> Topology \<Rightarrow> Topology res" where
  "Topology_refresh_record rsz w t =
     bind_res (Topology_read_record w t) (\<lambda>r.
       let t = (case r of
                  Some rc \<Rightarrow> t\<lparr>topo_record_buffer := topo_record_buffer t @ [rc]\<rparr>
                | None \<Rightarrow> t)
       in if topo_record_buffer t \<noteq> [] then Topology_clean_old_records rsz t else Inr t)"

definition Topology_get_records_passive :: "Topology \<Rightarrow> Record list" where
  "Topology_get_records_passive t =
     map (\<lambda>r. Record_new (timestamp r) (rec_value r) MicroJoule) (topo_record_buffer t)"

definition Topology_read_stats :: "env \<Rightarrow> CPUStat option" where
  "Topology_read_stats e = map_option (\<lambda>ks. from_procfs_cputime (ks_total ks)) (e_kernel_stats e)"

definition Topology_clean_old_stats :: "nat \<Rightarrow> Topology \<Rightarrow> Topology res" where
  "Topology_clean_old_stats ssz t =
     bind_res (index_vec (topo_stat_buffer t) 0) (\<lambda>_.
       Inr (t\<lparr>topo_stat_buffer := clean_back ssz (topo_buffer_max_kbytes t) (topo_stat_buffer t)\<rparr>))"

definition Topology_refresh_stats :: "nat \<Rightarrow> env \<Rightarrow> Topology \<Rightarrow> Topology res" where
  "Topology_refresh_stats ssz e t =
     (case Topology_read_stats e of
        Some stats \<Rightarrow>
          let t = t\<lparr>topo_stat_buffer := stats # topo_stat_buffer t\<rparr>
          in if topo_stat_buffer t \<noteq> [] then Topology_clean_old_stats ssz t else Inr t
      | None \<Rightarrow> Inr t)"

definition Topology_get_stats_diff :: "Topology \<Rightarrow> CPUStat option" where
  "Topology_get_stats_diff t = stats_diff (topo_stat_buffer t)"

section \<open>Busy time of the CPUs\<close>

text \<open>Unlike the other buffers this one removes all of the records to delete.\<close>

definition clean_old_cpu_time_records :: "nat \<Rightarrow> Topology \<Rightarrow> Topology" where
  "clean_old_cpu_time_records mrsz t =
     (let buf = topo_cpu_time_buffer t; mx = max_bytes (topo_buffer_max_kbytes t)
      in if buf = [] then t
         else
           let curr_size = mrsz * length buf
           in if curr_size > mx \<and> curr_size - mx > mrsz
              then t\<lparr>topo_cpu_time_buffer :=
                       remove_front_n (f_to_nat (2 ^ 64) (f32_div (f_of_nat f32_format (curr_size - mx))
                         (f_of_nat f32_format mrsz))) buf\<rparr>
              else t)"

definition refresh_cpu_time_record :: "nat \<Rightarrow> env \<Rightarrow> Topology \<Rightarrow> Topology" where
  "refresh_cpu_time_record mrsz e t =
     (if topo_cpu_time_map t then
        let nb_cores = pt_nb_cores (topo_proc_tracker t);
            vals = map (\<lambda>i. show_u64 (or_zero (e_cpu_time e (of_nat i)))) [0..<nb_cores]
        in clean_old_cpu_time_records mrsz
             (t\<lparr>topo_cpu_time_buffer := topo_cpu_time_buffer t @
                [MultiValuedRecord_new (current_system_time_since_epoch e) vals (replicate nb_cores Numeric)]\<rparr>)
      else t)"

definition cpu_time_delta :: "string \<Rightarrow> string \<Rightarrow> u64" where
  "cpu_time_delta l p =
     (let lv = or_zero (parse_u64 l); pv = or_zero (parse_u64 p)
      in if pv \<le> lv then lv - pv else u64_max - pv + lv)"

definition get_cpu_time_diff :: "Topology \<Rightarrow> MultiValuedRecord option" where
  "get_cpu_time_diff t =
     (case last_two (topo_cpu_time_buffer t) of
        None \<Rightarrow> None
      | Some (prev, l) \<Rightarrow>
          let diffs = map (\<lambda>(l, p). show_u64 (cpu_time_delta l p)) (zip (mv_values l) (mv_values prev))
          in if list_all (\<lambda>d. d = ''0'') diffs then None
             else Some (MultiValuedRecord_new (mv_timestamp l) diffs (mv_units l)))"

section \<open>Refresh\<close>

text \<open>The processes are built from one refresh of the process table, then added one after the other.\<close>

definition refresh_procs :: "world \<Rightarrow> Topology \<Rightarrow> Topology res" where
  "refresh_procs w t =
     (let pt = topo_proc_tracker t;
          pt = pt\<lparr>pt_sysinfo := e_refresh_processes (w [0]) (pt_sysinfo pt)\<rparr>
      in bind_res (traverse_res (\<lambda>(i, p). IProcess_new (w [1, i]) p (get_process_core_times (w [1, i]) pt (sp_pid p)))
                     (enumerate 0 (map snd (sys_processes (pt_sysinfo pt))))) (\<lambda>current_procs.
           Inr (t\<lparr>topo_proc_tracker :=
                  fold (\<lambda>(i, p). add_process_record (w [2, i]) p) (enumerate 0 current_procs) pt\<rparr>)))"

definition refresh_domains :: "nat \<Rightarrow> world \<Rightarrow> CPUSocket \<Rightarrow> CPUSocket res" where
  "refresh_domains rsz w s =
     map_res (\<lambda>ds. s\<lparr>sock_domains := ds\<rparr>)
       (traverse_res (\<lambda>(j, d). Domain_refresh_record rsz (w [j]) d) (enumerate 0 (sock_domains s)))"

definition refresh_socket :: "nat \<Rightarrow> nat \<Rightarrow> nat \<Rightarrow> world \<Rightarrow> CpuStateEvent list \<Rightarrow> CPUSocket \<Rightarrow> CPUSocket res" where
  "refresh_socket rsz mrsz ssz w records s =
     (let s = CPUSocket_refresh_activation_idle_records (w [0]) records s;
          s = distribute_background_to_domains (w [1]) s
      in bind_res (CPUSocket_refresh_record rsz mrsz (w [2]) s) (\<lambda>s.
         bind_res (CPUSocket_refresh_stats ssz (sub_world 3 w) s) (refresh_domains rsz (sub_world 4 w))))"

definition refresh_core_idle_records :: "nat \<Rightarrow> world \<Rightarrow> Topology \<Rightarrow> Topology res" where
  "refresh_core_idle_records mrsz w t =
     map_res (\<lambda>sockets. t\<lparr>topo_sockets := sockets\<rparr>)
       (traverse_res (\<lambda>(i, s).
          map_res (\<lambda>cores. s\<lparr>sock_cpu_cores := cores\<rparr>)
            (traverse_res (\<lambda>(j, c). CPUCore_refresh_record mrsz (w [i, j]) c)
               (enumerate 0 (sock_cpu_cores s)))) (enumerate 0 (topo_sockets t)))"

definition refresh_sockets ::
  "nat \<Rightarrow> nat \<Rightarrow> nat \<Rightarrow> world \<Rightarrow> CpuStateEvent list list \<Rightarrow> Topology \<Rightarrow> Topology res" where
  "refresh_sockets rsz mrsz ssz w idle_records t =
     map_res (\<lambda>sockets. t\<lparr>topo_sockets := sockets\<rparr>)
       (traverse_res (\<lambda>(i, s, records). refresh_socket rsz mrsz ssz (sub_world i w) records s)
          (enumerate 0 (zip (topo_sockets t) idle_records)))"

definition Topology_refresh :: "nat \<Rightarrow> nat \<Rightarrow> nat \<Rightarrow> world \<Rightarrow> Topology \<Rightarrow> Topology res" where
  "Topology_refresh rsz mrsz ssz w t =
     (let t = Topology_refresh_activation_idle_records (w [0]) t;
          (idle_records, t) = take_records (map sock_id (topo_sockets t)) t
      in bind_res (refresh_sockets rsz mrsz ssz (sub_world 1 w) idle_records t) (\<lambda>t.
         let t = t\<lparr>topo_proc_tracker := ProcessTracker_refresh (w [2]) (topo_proc_tracker t)\<rparr>
         in bind_res (refresh_core_idle_records mrsz (sub_world 3 w) t) (\<lambda>t.
            bind_res (refresh_procs (sub_world 4 w) t) (\<lambda>t.
            let t = refresh_cpu_time_record mrsz (w [5]) t
            in bind_res (Topology_refresh_record rsz (sub_world 6 w) t) (\<lambda>t.
               Topology_refresh_stats ssz (w [7]) t)))))"

end
