(* ===== verification/Msr_Rapl.thy ===== *)
theory Msr_Rapl
  imports Topology
begin

text \<open>
  The sensor of the Windows build (\<open>sensors/msr_rapl.rs\<close>, and the Windows reader of the platform counter
  in \<open>sensors/mod.rs\<close>): it asks a driver for the model specific registers of a CPU, scales the energy
  counters with the unit the hardware announces, and builds the topology from what \<open>cpuid\<close> answers on
  each CPU the thread can be moved to. Windows, the driver, \<open>cpuid\<close> and the constants of the \<open>x86\<close> and
  \<open>windows\<close> packages are outside: they are the fields of \<open>win\<close> and \<open>msr_consts\<close>.
\<close>

unbundle bit_operations_syntax

section \<open>What the sensor observes\<close>

record msr_consts =
  MSR_RAPL_POWER_UNIT :: u32
  MSR_PKG_ENERGY_STATUS :: u32
  MSR_DRAM_ENERGY_STATUS :: u32
  MSR_PP0_ENERGY_STATUS :: u32
  MSR_PP1_ENERGY_STATUS :: u32
  FILE_DEVICE_UNKNOWN :: u32
  METHOD_BUFFERED :: u32
  FILE_READ_DATA :: u32
  FILE_WRITE_DATA :: u32

definition MSR_PLATFORM_ENERGY_STATUS :: u32 where
  "MSR_PLATFORM_ENERGY_STATUS = 0x64d"

text \<open>A level of the extended topology of \<open>cpuid\<close>, and where the thread was last moved to.\<close>

record topology_level =
  tl_is_core :: bool
  tl_processors :: u16
  tl_x2apic_id :: u32

datatype placement = Unplaced | On_Group nat u16 | On_Cpu nat

text \<open>
  An observation. \<open>w_ioctl\<close> is the reply buffer and the reply length of the driver for a control code
  and a request, \<open>w_env\<close> what the code shared with the Linux build reads (the clock and the handles).
  An opened device is closed on every path; the answer of \<open>CloseHandle\<close> is only logged.
\<close>

record win =
  w_env :: env
  w_open :: "string \<Rightarrow> bool"
  w_last_error :: string
  w_ioctl :: "u32 \<Rightarrow> u64 \<Rightarrow> (u64 \<times> u32) option"
  w_group_count :: u16
  w_get_affinity :: bool
  w_set_affinity :: "nat \<Rightarrow> u16 \<Rightarrow> bool"
  w_set_for_current :: "nat \<Rightarrow> bool"
  w_core_ids :: "nat list option"
  w_extended_topology :: "placement \<Rightarrow> topology_level list option"
  w_cpus :: "Cpu list"

type_synonym windows = "nat list \<Rightarrow> win"

definition sub_windows :: "nat \<Rightarrow> windows \<Rightarrow> windows" where
  "sub_windows i w = (\<lambda>p. w (i # p))"

section \<open>The driver\<close>

definition ctl_code :: "u32 \<Rightarrow> u32 \<Rightarrow> u32 \<Rightarrow> u32 \<Rightarrow> u32" where
  "ctl_code device_type request_code method access =
     push_bit 16 device_type OR push_bit 14 access OR push_bit 2 request_code OR method"

definition get_handle :: "win \<Rightarrow> string \<Rightarrow> string + unit" where
  "get_handle x driver_name =
     (if w_open x driver_name then Inr () else Inl (''Got Last Error : '' @ w_last_error x))"

text \<open>The answer of \<open>send_request\<close> and the content of the reply buffer; a wrong length is only logged.\<close>

definition send_request :: "msr_consts \<Rightarrow> win \<Rightarrow> u32 \<Rightarrow> u64 \<Rightarrow> string + (string \<times> u64)" where
  "send_request k x request_code request =
     (case w_ioctl x (ctl_code (FILE_DEVICE_UNKNOWN k) request_code (METHOD_BUFFERED k)
                        (FILE_READ_DATA k OR FILE_WRITE_DATA k)) request of
        Some (reply, len) \<Rightarrow> Inr (''Device answered !'', reply)
      | None \<Rightarrow> Inl ''DeviceIoControl failed'')"

section \<open>Units\<close>

definition one_over_power :: "u32 \<Rightarrow> f64" where
  "one_over_power n = f64_div (f64_lit 1) (f_of_nat f64_format (2 ^ unat n))"

definition low_half :: "u64 \<Rightarrow> u32" where
  "low_half data = ucast (data AND 0xFFFFFFFF)"

definition extract_rapl_power_unit :: "u64 \<Rightarrow> f64" where
  "extract_rapl_power_unit data = one_over_power (low_half data AND 0x0F)"

definition extract_rapl_energy_unit :: "u64 \<Rightarrow> f64" where
  "extract_rapl_energy_unit data = one_over_power (drop_bit 8 (low_half data) AND 0x1F)"

definition extract_rapl_time_unit :: "u64 \<Rightarrow> f64" where
  "extract_rapl_time_unit data = one_over_power (drop_bit 16 (low_half data) AND 0x0F)"

definition extract_rapl_current_power :: "u64 \<Rightarrow> f64 \<Rightarrow> string" where
  "extract_rapl_current_power data energy_unit =
     (let energy_consumed = f64_mul (f64_mul (u64_as_f64 (data AND 0xFFFFFFFF)) energy_unit) (f64_lit 1000000)
      in show_u64 (f64_as_u64 energy_consumed))"

record MsrRAPLSensor =
  ms_driver_name :: string
  ms_power_unit :: f64
  ms_energy_unit :: f64
  ms_time_unit :: f64

definition driver_path :: string where
  "driver_path = [CHR 0x5C, CHR 0x5C, CHR ''.'', CHR 0x5C] @ ''ScaphandreDriver''"

definition MsrRAPLSensor_new :: "msr_consts \<Rightarrow> win \<Rightarrow> MsrRAPLSensor" where
  "MsrRAPLSensor_new k x =
     (let units =
        (case get_handle x driver_path of
           Inr _ \<Rightarrow>
             (case send_request k x (MSR_RAPL_POWER_UNIT k) (ucast (MSR_RAPL_POWER_UNIT k)) of
                Inr (_, r) \<Rightarrow> (extract_rapl_power_unit r, extract_rapl_energy_unit r, extract_rapl_time_unit r)
              | Inl _ \<Rightarrow> (f64_lit 1, f64_lit 1, f64_lit 1))
         | Inl _ \<Rightarrow> (f64_lit 1, f64_lit 1, f64_lit 1))
      in case units of (power_unit, energy_unit, time_unit) \<Rightarrow>
           \<lparr>ms_driver_name = driver_path, ms_power_unit = power_unit, ms_energy_unit = energy_unit,
            ms_time_unit = time_unit\<rparr>)"

section \<open>Reading a register\<close>

text \<open>The two errors of \<open>get_msr_value\<close>, with the text they wrap.\<close>

datatype msr_error = Handle_Failed string | Request_Failed string

definition get_msr_value ::
  "msr_consts \<Rightarrow> win \<Rightarrow> nat \<Rightarrow> u64 \<Rightarrow> (string, string) hmap \<Rightarrow> (msr_error + Record) res"
where
  "get_msr_value k x core msr_addr sensor_data =
     (case hm_get sensor_data ''DRIVER_NAME'' of
        None \<Rightarrow> Inl (Explicit_Panic ''DRIVER_NAME not set.'')
      | Some driver \<Rightarrow>
          (case get_handle x driver of
             Inl e \<Rightarrow> Inr (Inl (Handle_Failed e))
           | Inr _ \<Rightarrow>
               (case send_request k x (MSR_PKG_ENERGY_STATUS k) (push_bit 32 (of_nat core) OR msr_addr) of
                  Inl e \<Rightarrow> Inr (Inl (Request_Failed e))
                | Inr (_, msr_result) \<Rightarrow>
                    bind_res (unwrap_opt (hm_get sensor_data ''ENERGY_UNIT'')) (\<lambda>u.
                      case parse_f64 u of
                        None \<Rightarrow> Inl Unwrap_Err
                      | Some energy_unit \<Rightarrow>
                          Inr (Inr \<lparr>timestamp = current_system_time_since_epoch (w_env x),
                                    rec_value = extract_rapl_current_power msr_result energy_unit,
                                    rec_unit = MicroJoule\<rparr>)))))"

text \<open>The record of a domain or a socket: a failed register counts as zero.\<close>

definition record_or_zero :: "win \<Rightarrow> msr_error + Record \<Rightarrow> Record" where
  "record_or_zero x r =
     \<lparr>timestamp = current_system_time_since_epoch (w_env x),
      rec_value = (case r of Inr rc \<Rightarrow> rec_value rc | Inl _ \<Rightarrow> ''0''), rec_unit = MicroJoule\<rparr>"

definition parse_res :: "'a option \<Rightarrow> 'a res" where
  "parse_res m = (case m of Some v \<Rightarrow> Inr v | None \<Rightarrow> Inl Unwrap_Err)"

definition Domain_read_msr :: "msr_consts \<Rightarrow> win \<Rightarrow> Domain \<Rightarrow> Record res" where
  "Domain_read_msr k x d =
     (case hm_get (dom_sensor_data d) ''CORE_ID'' of
        None \<Rightarrow> Inl (Explicit_Panic (''Couldn'' @ [CHR 0x27] @ ''t get core_id to target for domain '' @ dom_name d))
      | Some core \<Rightarrow>
          bind_res (parse_res (parse_uint (2 ^ 64) core)) (\<lambda>usize_coreid.
            case hm_get (dom_sensor_data d) ''MSR_ADDR'' of
              None \<Rightarrow> Inl (Explicit_Panic (''Couldn'' @ [CHR 0x27] @ ''t get msr_addr to target for domain '' @ dom_name d))
            | Some msr_addr \<Rightarrow>
                bind_res (parse_res (parse_u64 msr_addr)) (\<lambda>addr.
                  map_res (record_or_zero x) (get_msr_value k x usize_coreid addr (dom_sensor_data d)))))"

definition CPUSocket_read_msr :: "msr_consts \<Rightarrow> win \<Rightarrow> CPUSocket \<Rightarrow> Record res" where
  "CPUSocket_read_msr k x s =
     bind_res (unwrap_opt (hm_get (sock_sensor_data s) ''PROCESSORGROUP_ID'')) (\<lambda>g.
     bind_res (parse_res (parse_u16 g)) (\<lambda>processorgroup_id.
       if w_get_affinity x then
         (case sock_cpu_cores s of
            [] \<Rightarrow> Inl Unwrap_None
          | cores \<Rightarrow>
              let core = core_id (last cores);
                  mask = length cores + unat (sock_id s) * length cores - 1
              in if w_set_affinity x mask processorgroup_id
                 then map_res (record_or_zero x)
                        (get_msr_value k x (unat core) (ucast (MSR_PKG_ENERGY_STATUS k)) (sock_sensor_data s))
                 else Inl (Explicit_Panic (''Couldn'' @ [CHR 0x27] @ ''t set Thread affinity !'')))
       else Inl (Explicit_Panic (''Coudld'' @ [CHR 0x27] @ ''nt get Thread affinity !''))))"

definition psys_msr :: "msr_consts \<Rightarrow> win \<Rightarrow> Topology \<Rightarrow> Record option res" where
  "psys_msr k x t =
     map_res (\<lambda>r. case r of
                Inr rc \<Rightarrow> Some (Record_new (current_system_time_since_epoch (w_env x)) (rec_value rc) MicroJoule)
              | Inl _ \<Rightarrow> None)
       (get_msr_value k x 0 (ucast MSR_PLATFORM_ENERGY_STATUS) (topo_sensor_data t))"

text \<open>The sum is a \<open>u128\<close>; a value that is not a number ends the read with an error, here \<open>None\<close>.\<close>

definition u128_plus :: "nat \<Rightarrow> nat \<Rightarrow> nat" where
  "u128_plus a b = (a + b) mod 2 ^ 128"

definition add_value :: "Record \<Rightarrow> nat \<Rightarrow> nat option" where
  "add_value r tot = map_option (u128_plus tot) (parse_u128 (trim (rec_value r)))"

definition add_first_dram :: "msr_consts \<Rightarrow> win \<Rightarrow> CPUSocket \<Rightarrow> nat \<Rightarrow> nat option res" where
  "add_first_dram k x s tot =
     (case filter (\<lambda>d. dom_name d = ''dram'') (sock_domains s) of
        [] \<Rightarrow> Inr (Some tot)
      | dram # _ \<Rightarrow> map_res (\<lambda>r. add_value r tot) (Domain_read_msr k x dram))"

definition add_socket_msr :: "msr_consts \<Rightarrow> windows \<Rightarrow> CPUSocket \<Rightarrow> nat option \<Rightarrow> nat option res" where
  "add_socket_msr k w s acc =
     (case acc of
        None \<Rightarrow> Inr None
      | Some tot \<Rightarrow>
          bind_res (CPUSocket_read_msr k (w [0]) s) (\<lambda>r.
            case add_value r tot of
              None \<Rightarrow> Inr None
            | Some tot \<Rightarrow> add_first_dram k (w [1]) s tot))"

definition Topology_read_msr :: "msr_consts \<Rightarrow> windows \<Rightarrow> Topology \<Rightarrow> Record option res" where
  "Topology_read_msr k w t =
     bind_res (psys_msr k (w [0]) t) (\<lambda>r.
       case r of
         Some psys_record \<Rightarrow> Inr (Some psys_record)
       | None \<Rightarrow>
           map_res (map_option (\<lambda>tot. \<lparr>timestamp = current_system_time_since_epoch (w_env (w [2])),
                                       rec_value = show_nat tot, rec_unit = MicroJoule\<rparr>))
             (fold_res (\<lambda>(i, s). add_socket_msr k (sub_windows i (sub_windows 1 w)) s)
                (enumerate 0 (topo_sockets t)) (Some 0)))"

section \<open>The topology\<close>

definition core_attributes_of :: "Cpu \<Rightarrow> (string, string) hmap" where
  "core_attributes_of c =
     hm_insert ''brand'' (cpu_brand c)
       (hm_insert ''vendor_id'' (cpu_vendor_id c)
         (hm_insert ''name'' (cpu_name c)
           (hm_insert ''frequency'' (show_u64 (cpu_frequency c)) [])))"

text \<open>One level of the topology of a CPU: it gives the socket its id and a core.\<close>

definition add_level :: "win \<Rightarrow> u16 \<Rightarrow> u16 \<Rightarrow> topology_level \<Rightarrow> CPUSocket \<Rightarrow> CPUSocket res" where
  "add_level x i logical_cpus_from_cpuid lv s =
     (if tl_is_core lv then
        let x2apic_id = tl_x2apic_id lv;
            socket_id = drop_bit 4 (x2apic_id AND 240);
            s = CPUSocket_set_id (ucast socket_id) s;
            core = x2apic_id AND 15
        in case w_cpus x of
             [] \<Rightarrow> Inl Unwrap_None
           | ref_core # _ \<Rightarrow>
               Inr (add_cpu_core (CPUCore_new (w_env x) (i * (logical_cpus_from_cpuid - 1) + ucast core)
                                    (core_attributes_of ref_core)) s)
      else Inr s)"

text \<open>The CPUs of one round; the flag says that the thread could not be moved to one of them.\<close>

fun explore_cpus ::
  "windows \<Rightarrow> u16 \<Rightarrow> u16 \<Rightarrow> nat list \<Rightarrow> CPUSocket \<Rightarrow> placement \<Rightarrow> (CPUSocket \<times> bool \<times> placement) res"
where
  "explore_cpus w i l [] s p = Inr (s, False, p)"
| "explore_cpus w i l (c # cs) s p =
     (let x = w [c]
      in if w_set_for_current x c then
           (case w_extended_topology x (On_Cpu c) of
              Some info \<Rightarrow> bind_res (fold_res (add_level x i l) info s) (\<lambda>s. explore_cpus w i l cs s (On_Cpu c))
            | None \<Rightarrow> explore_cpus w i l cs s (On_Cpu c))
         else Inr (s, True, p))"

type_synonym exploration = "(string, string) hmap \<times> Topology \<times> placement"

text \<open>
  The rounds of a processor group: \<open>n\<close> numbers the observations, \<open>i\<close> is the counter of the code, a
  \<open>u16\<close>. The loop ends when the thread cannot be moved to some CPU.
\<close>

partial_function (option) socket_loop ::
  "windows \<Rightarrow> u16 \<Rightarrow> u16 \<Rightarrow> nat \<Rightarrow> u16 \<Rightarrow> exploration \<Rightarrow> exploration res option"
where
  "socket_loop w l group_id n i st =
     (let (sensor_data, t, p) = st;
          start = i * l;
          stop = (i + 1) * l;
          sensor_data = hm_insert ''PROCESSORGROUP_ID'' (show_u16 group_id) sensor_data;
          current_socket = CPUSocket_new i [] [] [] 1 sensor_data
      in case explore_cpus (sub_windows n w) i l [unat start ..< unat stop] current_socket p of
           Inl e \<Rightarrow> Some (Inl e)
         | Inr r \<Rightarrow>
             let (current_socket, no_more_sockets, p) = r
             in if no_more_sockets then Some (Inr (sensor_data, t, p))
                else socket_loop w l group_id (Suc n) (i + 1) (sensor_data, safe_insert_socket current_socket t, p))"

definition processors_of :: "topology_level list \<Rightarrow> u16" where
  "processors_of info = fold (\<lambda>lv l. if tl_is_core lv then tl_processors lv else l) info 1"

definition explore_group :: "windows \<Rightarrow> u16 \<Rightarrow> exploration \<Rightarrow> exploration res option" where
  "explore_group w group_id st =
     (let (sensor_data, t, p) = st; x = w [0]
      in case w_extended_topology x p of
           None \<Rightarrow> Some (Inl (Explicit_Panic (''Could'' @ [CHR 0x27] @ ''nt get cpuid data.'')))
         | Some info \<Rightarrow>
             if \<not> w_get_affinity x then Some (Inl (Explicit_Panic (''Error was: '' @ w_last_error x)))
             else if \<not> w_set_affinity x 255 group_id then Some (Inl (Explicit_Panic (''Error was : '' @ w_last_error x)))
             else (case w_core_ids x of
                     None \<Rightarrow> Some (Inl (Explicit_Panic (''Could'' @ [CHR 0x27] @ ''nt get core ids from core_affinity.'')))
                   | Some core_ids \<Rightarrow>
                       socket_loop (sub_windows 1 w) (processors_of info) group_id 0 0
                         (sensor_data, t, On_Group 255 group_id)))"

fun explore_groups :: "windows \<Rightarrow> nat list \<Rightarrow> exploration \<Rightarrow> exploration res option" where
  "explore_groups w [] st = Some (Inr st)"
| "explore_groups w (g # gs) st =
     (case explore_group (sub_windows g w) (of_nat g) st of
        None \<Rightarrow> None
      | Some (Inl e) \<Rightarrow> Some (Inl e)
      | Some (Inr st) \<Rightarrow> explore_groups w gs st)"

text \<open>The three domains of a socket are tried in turn, all of them under the id 2.\<close>

definition try_domain ::
  "msr_consts \<Rightarrow> win \<Rightarrow> (string, string) hmap \<Rightarrow> u16 \<Rightarrow> string \<Rightarrow> u32 \<Rightarrow> string list \<times> CPUSocket \<Rightarrow>
   (string list \<times> CPUSocket) res"
where
  "try_domain k x sensor_data core name msr st =
     map_res (\<lambda>r. case r of
        Inl _ \<Rightarrow> st
      | Inr _ \<Rightarrow>
          let (domains, s) = st;
              domain_sensor_data = hm_insert ''CORE_ID'' (show_u16 core)
                (hm_insert ''MSR_ADDR'' (show_nat (unat msr)) sensor_data)
          in (domains @ [name], safe_add_domain (Domain_new 2 name [] 5 domain_sensor_data) s))
       (get_msr_value k x (unat core) (ucast msr) sensor_data)"

definition add_domains ::
  "msr_consts \<Rightarrow> windows \<Rightarrow> (string, string) hmap \<Rightarrow> CPUSocket \<Rightarrow> string list \<Rightarrow> (string list \<times> CPUSocket) res"
where
  "add_domains k w sensor_data s domains =
     (case sock_cpu_cores s of
        [] \<Rightarrow> Inl Unwrap_None
      | cores \<Rightarrow>
          let core = core_id (last cores) + sock_id s * of_nat (length cores)
          in bind_res (try_domain k (w [0]) sensor_data core ''dram'' (MSR_DRAM_ENERGY_STATUS k) (domains, s)) (\<lambda>st.
             bind_res (try_domain k (w [1]) sensor_data core ''core'' (MSR_PP0_ENERGY_STATUS k) st)
               (try_domain k (w [2]) sensor_data core ''uncore'' (MSR_PP1_ENERGY_STATUS k))))"

fun domains_loop ::
  "msr_consts \<Rightarrow> windows \<Rightarrow> nat \<Rightarrow> (string, string) hmap \<Rightarrow> CPUSocket list \<Rightarrow> string list \<Rightarrow>
   (string list \<times> CPUSocket list) res"
where
  "domains_loop k w n sensor_data [] domains = Inr (domains, [])"
| "domains_loop k w n sensor_data (s # ss) domains =
     bind_res (add_domains k (sub_windows n w) sensor_data s domains) (\<lambda>(domains, s).
     bind_res (domains_loop k w (Suc n) sensor_data ss domains) (\<lambda>(domains, ss).
       Inr (domains, s # ss)))"

definition sensor_data_of :: "MsrRAPLSensor \<Rightarrow> (string, string) hmap" where
  "sensor_data_of m =
     hm_insert ''TIME_UNIT'' (show_f64 (ms_time_unit m))
       (hm_insert ''POWER_UNIT'' (show_f64 (ms_power_unit m))
         (hm_insert ''ENERGY_UNIT'' (show_f64 (ms_energy_unit m))
           (hm_insert ''DRIVER_NAME'' (ms_driver_name m) [])))"

definition finish_topology ::
  "msr_consts \<Rightarrow> windows \<Rightarrow> exploration \<Rightarrow> Topology res"
where
  "finish_topology k w st =
     (let (sensor_data, t, _) = st
      in bind_res (domains_loop k (sub_windows 0 w) 0 sensor_data (topo_sockets t) []) (\<lambda>(domains, sockets).
           let t = t\<lparr>topo_sockets := sockets\<rparr>
           in map_res (\<lambda>r. set_domains_names domains
                (case r of
                   Inr _ \<Rightarrow> t\<lparr>topo_sensor_data := hm_insert ''psys'' [] (topo_sensor_data t)\<rparr>
                 | Inl _ \<Rightarrow> t))
              (get_msr_value k (w [1]) 0 (ucast MSR_PLATFORM_ENERGY_STATUS) sensor_data)))"

definition Msr_generate_topology ::
  "msr_consts \<Rightarrow> bpf_object option \<Rightarrow> windows \<Rightarrow> MsrRAPLSensor \<Rightarrow> Topology res option"
where
  "Msr_generate_topology k ebpf w m =
     (let sensor_data = sensor_data_of m;
          t = Topology_new (w_env (w [0])) ebpf sensor_data
      in case explore_groups (sub_windows 1 w) [0 ..< unat (w_group_count (w [0]))] (sensor_data, t, Unplaced) of
           None \<Rightarrow> None
         | Some (Inl e) \<Rightarrow> Some (Inl e)
         | Some (Inr st) \<Rightarrow> Some (finish_topology k (sub_windows 2 w) st))"

text \<open>\<open>generate_topology\<close> never returns an error, so that the panic of \<open>get_topology\<close> is not reached.\<close>

definition Msr_get_topology ::
  "msr_consts \<Rightarrow> bpf_object option \<Rightarrow> windows \<Rightarrow> MsrRAPLSensor \<Rightarrow> Topology option res option"
where
  "Msr_get_topology k ebpf w m = map_option (map_res Some) (Msr_generate_topology k ebpf w m)"

section \<open>Exact energies\<close>

text \<open>Integers of at most 53 bits scaled by a power of two are floats.\<close>

lemma fl_dyadic:
  assumes "m \<le> 2 ^ 53" "j \<le> 1074"
  shows "fl f64_format False (of_nat m / 2 ^ j) = Fin False (of_nat m / 2 ^ j)"
proof -
  let ?x = "of_nat m / 2 ^ j :: rat"
  have x: "?x = of_int (int m) * 2 powi (- int j)" by (simp add: power_int_minus field_simps)
  have "int m \<le> 2 ^ 53" using assms(1) by (metis of_nat_le_iff of_nat_numeral of_nat_power)
  then have "representable f64_format ?x" unfolding x representable_def
    by (intro exI [of _ "int m"] exI [of _ "- int j"]) (use assms(2) in simp)
  then have r: "rnd f64_format ?x = ?x" by (intro rnd_exact) auto
  have "(of_nat m :: rat) \<le> 2 ^ 53" using assms(1) by (metis of_nat_le_iff of_nat_numeral of_nat_power)
  moreover have "?x \<le> of_nat m / 1" by (rule divide_left_mono) simp_all
  moreover have "(2 :: rat) ^ 53 < 2 powi 1024" by simp
  ultimately have "?x < 2 powi 1024" by linarith
  moreover have "0 \<le> ?x" by simp
  ultimately show ?thesis by (simp add: fl_def Let_def r not_less)
qed

lemma one_over_power_exact:
  assumes "unat n < 32"
  shows "one_over_power n = Fin False (1 / 2 ^ unat n)"
proof -
  have "(2 :: nat) ^ unat n \<le> 2 ^ 53" using assms by (intro power_increasing) auto
  then have "f_of_nat f64_format (2 ^ unat n) = Fin False (2 ^ unat n)" using f64_exact [of "2 ^ unat n"] by simp
  moreover have "f64_lit 1 = Fin False 1" using fl_dyadic [of 1 0] by simp
  moreover have "fl f64_format False (1 / 2 ^ unat n) = Fin False (1 / 2 ^ unat n)"
    using fl_dyadic [of 1 "unat n"] assms by simp
  ultimately show ?thesis by (simp add: one_over_power_def)
qed

lemma unat_and_low: "unat (v AND 0xFFFFFFFF :: u64) = unat v mod 2 ^ 32"
proof -
  have "(0xFFFFFFFF :: u64) = mask 32" by (simp add: mask_eq_exp_minus_1)
  then show ?thesis by (simp only: take_bit_eq_mask [symmetric] unsigned_take_bit_eq) (simp add: take_bit_eq_mod)
qed

lemma unat_low_half: "unat (low_half r) = unat r mod 2 ^ 32"
  unfolding low_half_def unsigned_ucast_eq unat_and_low by (simp add: take_bit_eq_mod)

definition energy_bits :: "u64 \<Rightarrow> nat" where
  "energy_bits r = unat r div 2 ^ 8 mod 2 ^ 5"

lemma energy_bits_low: "unat (drop_bit 8 (low_half r) AND 0x1F) = energy_bits r"
proof -
  have "(0x1F :: u32) = mask 5" by (simp add: mask_eq_exp_minus_1)
  then have "unat (drop_bit 8 (low_half r) AND 0x1F) = unat (low_half r) div 2 ^ 8 mod 2 ^ 5"
    by (simp only: take_bit_eq_mask [symmetric] unsigned_take_bit_eq unsigned_drop_bit_eq)
       (simp add: take_bit_eq_mod drop_bit_eq_div unat_low_half)
  also have "\<dots> = unat r div 2 ^ 8 mod 2 ^ 5" unfolding unat_low_half
    by (simp add: mod_mult2_eq [of _ "2 ^ 8" "2 ^ 24", simplified] mod_mod_cancel)
  finally show ?thesis by (simp add: energy_bits_def)
qed

lemma energy_unit_exact: "extract_rapl_energy_unit r = Fin False (1 / 2 ^ energy_bits r)"
proof -
  have "energy_bits r < 32" by (simp add: energy_bits_def)
  then show ?thesis unfolding extract_rapl_energy_unit_def
    by (subst one_over_power_exact) (simp_all only: energy_bits_low)
qed

text \<open>The microjoules of a counter value in units of \<open>1 / 2 ^ j\<close> joule.\<close>

definition microjoules_of :: "nat \<Rightarrow> u64 \<Rightarrow> nat" where
  "microjoules_of j v = unat v mod 2 ^ 32 * 1000000 div 2 ^ j"

lemma microjoules_of_less: "microjoules_of j v < 2 ^ 52"
proof -
  have "unat v mod 2 ^ 32 * 1000000 < 2 ^ 32 * 2 ^ 20" by (rule mult_strict_mono) auto
  moreover have "(2 :: nat) ^ 32 * 2 ^ 20 = 2 ^ 52" by simp
  ultimately show ?thesis unfolding microjoules_of_def
    using div_le_dividend [of "unat v mod 2 ^ 32 * 1000000" "2 ^ j"] by linarith
qed

lemma current_power_exact:
  assumes "j < 32"
  shows "extract_rapl_current_power v (Fin False (1 / 2 ^ j)) = show_nat (microjoules_of j v)"
proof -
  define c where "c = unat v mod 2 ^ 32"
  have c: "c < 2 ^ 32" by (simp add: c_def)
  then have m: "c * 1000000 < 2 ^ 53" by simp
  have "u64_as_f64 (v AND 0xFFFFFFFF) = Fin False (of_nat c)"
    unfolding u64_as_f64_def unat_and_low c_def [symmetric] by (rule f64_exact) (use c in simp)
  moreover have "fl f64_format False (of_nat c / 2 ^ j) = Fin False (of_nat c / 2 ^ j)"
    by (rule fl_dyadic) (use c assms in auto)
  moreover have "f64_lit 1000000 = Fin False 1000000" using fl_dyadic [of 1000000 0] by simp
  moreover have "fl f64_format False (of_nat (c * 1000000) / 2 ^ j) = Fin False (of_nat (c * 1000000) / 2 ^ j)"
    by (rule fl_dyadic) (use m assms in auto)
  ultimately have e: "f64_mul (f64_mul (u64_as_f64 (v AND 0xFFFFFFFF)) (Fin False (1 / 2 ^ j))) (f64_lit 1000000)
      = Fin False (of_nat (c * 1000000) / 2 ^ j)" by simp
  have "\<lfloor>of_nat (c * 1000000) / (2 :: rat) ^ j\<rfloor> = int (c * 1000000 div 2 ^ j)"
    by (metis floor_divide_of_nat_eq of_nat_numeral of_nat_power)
  then have "f64_as_u64 (Fin False (of_nat (c * 1000000) / 2 ^ j)) = of_nat (min (microjoules_of j v) (2 ^ 64 - 1))"
    by (simp add: f64_as_u64_def microjoules_of_def c_def)
  also have "min (microjoules_of j v) (2 ^ 64 - 1) = microjoules_of j v" using microjoules_of_less [of j v] by simp
  finally show ?thesis unfolding extract_rapl_current_power_def Let_def e show_u64_def
    using microjoules_of_less [of j v] by (simp add: unat_of_nat_64)
qed

section \<open>Registers of a sensor\<close>

text \<open>What the driver of the sensor answers for a register, and the power of two of the energy unit.\<close>

definition request_reply :: "msr_consts \<Rightarrow> win \<Rightarrow> u32 \<Rightarrow> u64 \<Rightarrow> u64 option" where
  "request_reply k x code request =
     (if w_open x driver_path
      then map_option fst (w_ioctl x (ctl_code (FILE_DEVICE_UNKNOWN k) code (METHOD_BUFFERED k)
             (FILE_READ_DATA k OR FILE_WRITE_DATA k)) request)
      else None)"

definition register_reply :: "msr_consts \<Rightarrow> win \<Rightarrow> nat \<Rightarrow> u32 \<Rightarrow> u64 option" where
  "register_reply k x core msr =
     request_reply k x (MSR_PKG_ENERGY_STATUS k) (push_bit 32 (of_nat core) OR ucast msr)"

definition unit_exponent :: "msr_consts \<Rightarrow> win \<Rightarrow> nat" where
  "unit_exponent k x =
     (case request_reply k x (MSR_RAPL_POWER_UNIT k) (ucast (MSR_RAPL_POWER_UNIT k)) of
        Some r \<Rightarrow> energy_bits r | None \<Rightarrow> 0)"

text \<open>The entries of the sensor data that the readers use.\<close>

definition msr_data :: "nat \<Rightarrow> (string, string) hmap \<Rightarrow> bool" where
  "msr_data j sd \<longleftrightarrow>
     j < 32 \<and> hm_get sd ''DRIVER_NAME'' = Some driver_path \<and>
     hm_get sd ''ENERGY_UNIT'' = Some (show_f64 (Fin False (1 / 2 ^ j))) \<and>
     hm_get sd ''max_energy_range_uj'' = None"

lemma msr_data_insert [simp]:
  assumes "key \<noteq> ''DRIVER_NAME''" "key \<noteq> ''ENERGY_UNIT''" "key \<noteq> ''max_energy_range_uj''"
  shows "msr_data j (hm_insert key v sd) = msr_data j sd"
  using assms by (auto simp: msr_data_def)

lemma unit_readable:
  assumes "j < 32"
  shows "parse_f64 (show_f64 (Fin False (1 / 2 ^ j))) = Some (Fin False (1 / 2 ^ j))"
proof -
  have "fl f64_format False (1 / 2 ^ j) = Fin False (1 / 2 ^ j)" using fl_dyadic [of 1 j] assms by simp
  then have "valid_f f64_format (Fin False (1 / 2 ^ j))" by (metis fl_valid format_simps(1) zero_less_numeral)
  then show ?thesis by (rule parse_show_f64_valid)
qed

lemma get_msr_value_reply:
  assumes "msr_data j sd"
  shows "\<exists>r. get_msr_value k x core (ucast msr) sd = Inr r \<and>
    (case register_reply k x core msr of
       None \<Rightarrow> (\<exists>e. r = Inl e)
     | Some v \<Rightarrow> r = Inr \<lparr>timestamp = current_system_time_since_epoch (w_env x),
         rec_value = show_nat (microjoules_of j v), rec_unit = MicroJoule\<rparr>)"
  using assms unit_readable [of j] current_power_exact [of j]
  by (auto simp: get_msr_value_def msr_data_def get_handle_def send_request_def register_reply_def
      request_reply_def split: option.splits)

lemma new_units:
  "ms_driver_name (MsrRAPLSensor_new k x) = driver_path \<and>
   ms_energy_unit (MsrRAPLSensor_new k x) = Fin False (1 / 2 ^ unit_exponent k x)"
proof -
  have "f64_lit 1 = Fin False 1" using fl_dyadic [of 1 0] by simp
  then show ?thesis
    by (simp add: MsrRAPLSensor_new_def unit_exponent_def request_reply_def get_handle_def send_request_def
        Let_def energy_unit_exact split: option.split)
qed

lemma unit_exponent_less: "unit_exponent k x < 32"
  by (simp add: unit_exponent_def energy_bits_def split: option.split)

lemma msr_data_new: "msr_data (unit_exponent k x) (sensor_data_of (MsrRAPLSensor_new k x))"
  using new_units [of k x] unit_exponent_less [of k x] by (simp add: msr_data_def sensor_data_of_def)

section \<open>Invariants of the exploration\<close>

definition msr_socket :: "nat \<Rightarrow> CPUSocket \<Rightarrow> bool" where
  "msr_socket j s \<longleftrightarrow>
     msr_data j (sock_sensor_data s) \<and> sock_rapl_max_uj s = u64_max \<and>
     (\<exists>g. hm_get (sock_sensor_data s) ''PROCESSORGROUP_ID'' = Some (show_u16 g)) \<and>
     (sock_cpu_cores s \<noteq> [] \<longrightarrow> sock_id s < 16)"

definition explored :: "nat \<Rightarrow> exploration \<Rightarrow> bool" where
  "explored j st = (case st of (sd, t, p) \<Rightarrow>
     msr_data j sd \<and> msr_data j (topo_sensor_data t) \<and> distinct (map sock_id (topo_sockets t)) \<and>
     list_all (\<lambda>s. msr_socket j s \<and> sock_domains s = []) (topo_sockets t))"

lemma socket_id_small: "(ucast (drop_bit 4 (v AND 240 :: u32)) :: u16) < 16"
proof -
  have "unat (drop_bit 4 (v AND 240)) = unat (v AND 240) div 16" by (simp add: drop_bit_eq_div unat_div)
  moreover have "unat (v AND 240) \<le> unat (240 :: u32)" unfolding word_le_nat_alt [symmetric] by (rule word_and_le1)
  ultimately have "unat (drop_bit 4 (v AND 240)) < 16" by simp
  then show ?thesis by (simp add: word_less_nat_alt unsigned_ucast_eq take_bit_eq_mod)
qed

lemma add_level_keeps:
  assumes "add_level x i l lv s = Inr s'" "msr_socket j s" 
  shows "msr_socket j s' \<and> sock_domains s' = sock_domains s"
  using assms socket_id_small [of "tl_x2apic_id lv"]
  by (auto simp: add_level_def msr_socket_def Let_def add_cpu_core_def CPUSocket_set_id_def split: if_splits list.splits)

lemma explore_cpus_keeps:
  assumes "explore_cpus w i l cs s p = Inr (s', b, p')" "msr_socket j s"
  shows "msr_socket j s' \<and> sock_domains s' = sock_domains s"
  using assms
proof (induction cs arbitrary: s p)
  case (Cons c cs)
  show ?case
  proof (cases "w_set_for_current (w [c]) c")
    case True
    show ?thesis
    proof (cases "w_extended_topology (w [c]) (On_Cpu c)")
      case None
      then show ?thesis using Cons True by simp
    next
      case (Some info)
      then obtain s1 where s1: "fold_res (add_level (w [c]) i l) info s = Inr s1"
        "explore_cpus w i l cs s1 (On_Cpu c) = Inr (s', b, p')"
        using Cons.prems True by (auto simp: bind_res_eq_Inr)
      have "msr_socket j s1 \<and> sock_domains s1 = sock_domains s"
        using fold_res_invariant [OF s1(1), of "\<lambda>y. msr_socket j y \<and> sock_domains y = sock_domains s"]
          Cons.prems(2) add_level_keeps by metis
      then show ?thesis using Cons.IH [OF s1(2)] by simp
    qed
  next
    case False
    then show ?thesis using Cons.prems by simp
  qed
qed simp

lemma safe_insert_explored:
  assumes "explored j (sd, t, p)" "msr_socket j s" "sock_domains s = []"
  shows "explored j (sd, safe_insert_socket s t, q)"
  using assms by (auto simp: explored_def safe_insert_socket_def list_ex_iff)

lemma new_socket_msr:
  assumes "msr_data j sd" "sd' = hm_insert ''PROCESSORGROUP_ID'' (show_u16 g) sd"
  shows "msr_socket j (CPUSocket_new i [] [] [] 1 sd')"
  using assms by (auto simp: msr_socket_def CPUSocket_new_def msr_data_def rapl_max_of_def)

text \<open>Induction over the rounds of a loop that returned.\<close>

lemma socket_loop_induct [consumes 1, case_names Panic Stop Round]:
  assumes ret: "socket_loop w l g n i st = Some r"
    and Panic: "\<And>w l g n i sd t p sd' e. sd' = hm_insert ''PROCESSORGROUP_ID'' (show_u16 g) sd \<Longrightarrow>
      explore_cpus (sub_windows n w) i l [unat (i * l) ..< unat ((i + 1) * l)] (CPUSocket_new i [] [] [] 1 sd') p = Inl e \<Longrightarrow>
      P w l g n i (sd, t, p) (Inl e)"
    and Stop: "\<And>w l g n i sd t p sd' s q. sd' = hm_insert ''PROCESSORGROUP_ID'' (show_u16 g) sd \<Longrightarrow>
      explore_cpus (sub_windows n w) i l [unat (i * l) ..< unat ((i + 1) * l)] (CPUSocket_new i [] [] [] 1 sd') p = Inr (s, True, q) \<Longrightarrow>
      P w l g n i (sd, t, p) (Inr (sd', t, q))"
    and Round: "\<And>w l g n i sd t p sd' s q r. sd' = hm_insert ''PROCESSORGROUP_ID'' (show_u16 g) sd \<Longrightarrow>
      explore_cpus (sub_windows n w) i l [unat (i * l) ..< unat ((i + 1) * l)] (CPUSocket_new i [] [] [] 1 sd') p = Inr (s, False, q) \<Longrightarrow>
      P w l g (Suc n) (i + 1) (sd', safe_insert_socket s t, q) r \<Longrightarrow> P w l g n i (sd, t, p) r"
  shows "P w l g n i st r"
proof (rule socket_loop.raw_induct [where P = P, OF _ ret])
  fix f :: "windows \<Rightarrow> u16 \<Rightarrow> u16 \<Rightarrow> nat \<Rightarrow> u16 \<Rightarrow> exploration \<Rightarrow> exploration res option"
  fix w l g n i and st :: exploration and r
  assume IH: "\<And>w l g n i st r. f w l g n i st = Some r \<Longrightarrow> P w l g n i st r"
  obtain sd t p where st: "st = (sd, t, p)" by (cases st) auto
  define sd' where "sd' = hm_insert ''PROCESSORGROUP_ID'' (show_u16 g) sd"
  define e where "e = explore_cpus (sub_windows n w) i l [unat (i * l) ..< unat ((i + 1) * l)] (CPUSocket_new i [] [] [] 1 sd') p"
  assume "(let (sensor_data, t, p) = st; start = i * l; stop = (i + 1) * l;
          sensor_data = hm_insert ''PROCESSORGROUP_ID'' (show_u16 g) sensor_data;
          current_socket = CPUSocket_new i [] [] [] 1 sensor_data
      in case explore_cpus (sub_windows n w) i l [unat start ..< unat stop] current_socket p of
           Inl e \<Rightarrow> Some (Inl e)
         | Inr r \<Rightarrow>
             let (current_socket, no_more_sockets, p) = r
             in if no_more_sockets then Some (Inr (sensor_data, t, p))
                else f w l g (Suc n) (i + 1) (sensor_data, safe_insert_socket current_socket t, p)) = Some r"
  then have step: "(case e of Inl e \<Rightarrow> Some (Inl e)
      | Inr (s, b, q) \<Rightarrow> if b then Some (Inr (sd', t, q)) else f w l g (Suc n) (i + 1) (sd', safe_insert_socket s t, q)) = Some r"
    unfolding st Let_def e_def sd'_def prod.case .
  show "P w l g n i st r"
  proof (cases e)
    case (Inl x)
    then show ?thesis using step Panic [OF sd'_def] st e_def by auto
  next
    case (Inr y)
    then obtain s b q where y: "e = Inr (s, b, q)" by (cases y) auto
    show ?thesis
    proof (cases b)
      case True
      then show ?thesis using step y Stop [OF sd'_def] st e_def by auto
    next
      case False
      then have "P w l g (Suc n) (i + 1) (sd', safe_insert_socket s t, q) r" using step y IH by simp
      moreover have "explore_cpus (sub_windows n w) i l [unat (i * l) ..< unat ((i + 1) * l)] (CPUSocket_new i [] [] [] 1 sd') p =
          Inr (s, False, q)" using y False e_def by simp
      ultimately show ?thesis unfolding st by (intro Round [OF sd'_def])
    qed
  qed
qed

lemma socket_loop_explored:
  assumes "socket_loop w l g n i st = Some r" "explored j st" "r = Inr st'"
  shows "explored j st'"
  using assms
proof (induction rule: socket_loop_induct)
  case (Stop w l g n i sd t p sd' s q)
  then show ?case by (auto simp: explored_def)
next
  case (Round w l g n i sd t p sd' s q r)
  have sd: "msr_data j sd" "explored j (sd', t, p)" using Round by (auto simp: explored_def)
  have "msr_socket j s" "sock_domains s = []"
    using explore_cpus_keeps [OF Round(2) new_socket_msr [OF sd(1) Round(1)]] by (simp_all add: CPUSocket_new_def)
  then show ?case using Round safe_insert_explored [OF sd(2)] by blast
qed simp

lemma explore_groups_explored:
  assumes "explore_groups w gs st = Some (Inr st')" "explored j st"
  shows "explored j st'"
  using assms
proof (induction gs arbitrary: st)
  case (Cons g gs)
  then obtain st1 where st1: "explore_group (sub_windows g w) (of_nat g) st = Some (Inr st1)"
    "explore_groups w gs st1 = Some (Inr st')"
    by (auto split: option.splits sum.splits)
  obtain sd t p where st: "st = (sd, t, p)" by (cases st) auto
  from st1(1) obtain l where "socket_loop (sub_windows 1 (sub_windows g w)) l (of_nat g) 0 0
      (sd, t, On_Group 255 (of_nat g)) = Some (Inr st1)"
    unfolding explore_group_def st by (auto simp: Let_def split: option.splits if_splits)
  moreover have "explored j (sd, t, On_Group 255 (of_nat g))" using Cons.prems(2) by (simp add: explored_def st)
  ultimately have "explored j st1" using socket_loop_explored by blast
  then show ?case using Cons.IH st1(2) by blast
qed simp

section \<open>Domains\<close>

definition domain_registers :: "msr_consts \<Rightarrow> (string \<times> u32) list" where
  "domain_registers k =
     [(''dram'', MSR_DRAM_ENERGY_STATUS k), (''core'', MSR_PP0_ENERGY_STATUS k), (''uncore'', MSR_PP1_ENERGY_STATUS k)]"

definition answering :: "msr_consts \<Rightarrow> windows \<Rightarrow> u16 \<Rightarrow> (string \<times> u32) list" where
  "answering k w core =
     map snd (filter (\<lambda>(n, name, msr). register_reply k (w [n]) (unat core) msr \<noteq> None) (enumerate 0 (domain_registers k)))"

definition domain_of :: "(string, string) hmap \<Rightarrow> u16 \<Rightarrow> string \<times> u32 \<Rightarrow> Domain" where
  "domain_of sd core nm = Domain_new 2 (fst nm) [] 5
     (hm_insert ''CORE_ID'' (show_u16 core) (hm_insert ''MSR_ADDR'' (show_nat (unat (snd nm))) sd))"

definition request_core :: "CPUSocket \<Rightarrow> u16" where
  "request_core s = core_id (last (sock_cpu_cores s)) + sock_id s * of_nat (length (sock_cpu_cores s))"

definition with_domains :: "msr_consts \<Rightarrow> windows \<Rightarrow> (string, string) hmap \<Rightarrow> nat \<times> CPUSocket \<Rightarrow> CPUSocket" where
  "with_domains k w sd is =
     (snd is)\<lparr>sock_domains := map (domain_of sd (request_core (snd is)))
        (take 1 (answering k (sub_windows (fst is) w) (request_core (snd is))))\<rparr>"

definition domain_names_of :: "msr_consts \<Rightarrow> windows \<Rightarrow> nat \<times> CPUSocket \<Rightarrow> string list" where
  "domain_names_of k w is = map fst (answering k (sub_windows (fst is) w) (request_core (snd is)))"

lemma try_domain_reply:
  assumes "msr_data j sd"
  shows "try_domain k x sd core name msr (ds, s) = Inr
    (if register_reply k x (unat core) msr \<noteq> None then (ds @ [name], safe_add_domain (domain_of sd core (name, msr)) s)
     else (ds, s))"
  using get_msr_value_reply [OF assms, of k x "unat core" msr]
  by (auto simp: try_domain_def domain_of_def split: option.splits)

lemma answering_unfold:
  "answering k w core =
     (if register_reply k (w [0]) (unat core) (MSR_DRAM_ENERGY_STATUS k) \<noteq> None then [(''dram'', MSR_DRAM_ENERGY_STATUS k)] else []) @
     (if register_reply k (w [1]) (unat core) (MSR_PP0_ENERGY_STATUS k) \<noteq> None then [(''core'', MSR_PP0_ENERGY_STATUS k)] else []) @
     (if register_reply k (w [2]) (unat core) (MSR_PP1_ENERGY_STATUS k) \<noteq> None then [(''uncore'', MSR_PP1_ENERGY_STATUS k)] else [])"
  by (simp add: answering_def domain_registers_def numeral_2_eq_2)

lemma add_domains_reply:
  assumes "msr_data j sd" "sock_cpu_cores s \<noteq> []" "sock_domains s = []"
  shows "add_domains k (sub_windows n w) sd s ds = Inr (ds @ domain_names_of k w (n, s), with_domains k w sd (n, s))"
proof -
  let ?core = "request_core s" and ?w = "sub_windows n w"
  have i: "dom_id (domain_of sd core nm) = 2" for core nm by (simp add: domain_of_def Domain_new_def)
  have "add_domains k ?w sd s ds =
      bind_res (try_domain k (?w [0]) sd ?core ''dram'' (MSR_DRAM_ENERGY_STATUS k) (ds, s)) (\<lambda>st.
      bind_res (try_domain k (?w [1]) sd ?core ''core'' (MSR_PP0_ENERGY_STATUS k) st)
        (try_domain k (?w [2]) sd ?core ''uncore'' (MSR_PP1_ENERGY_STATUS k)))"
    using assms(2) by (simp add: add_domains_def request_core_def Let_def split: list.split)
  then show ?thesis using assms(3)
    by (simp add: try_domain_reply [OF assms(1)] domain_names_of_def with_domains_def answering_unfold
        safe_add_domain_def i)
qed

lemma domains_loop_reply:
  assumes "msr_data j sd" "\<forall>s \<in> set ss. sock_cpu_cores s \<noteq> [] \<and> sock_domains s = []"
  shows "domains_loop k w n sd ss ds = Inr (ds @ concat (map (domain_names_of k w) (enumerate n ss)),
    map (with_domains k w sd) (enumerate n ss))"
  using assms(2)
  by (induction ss arbitrary: n ds) (simp_all add: add_domains_reply [OF assms(1)])

lemma domains_loop_cores:
  "domains_loop k w n sd ss ds = Inr r \<Longrightarrow> s \<in> set ss \<Longrightarrow> sock_cpu_cores s \<noteq> []"
proof (induction ss arbitrary: n ds r)
  case (Cons s' ss)
  then obtain ds' s1 ds1 ss1 where "add_domains k (sub_windows n w) sd s' ds = Inr (ds', s1)"
    "domains_loop k w (Suc n) sd ss ds' = Inr (ds1, ss1)"
    by (auto simp: bind_res_eq_Inr)
  moreover from this have "sock_cpu_cores s' \<noteq> []" by (auto simp: add_domains_def)
  ultimately show ?case using Cons by auto
qed simp

text \<open>The topology a sensor with exact units generates, in terms of the sockets it explored.\<close>

definition generated_from ::
  "msr_consts \<Rightarrow> nat \<Rightarrow> windows \<Rightarrow> (string, string) hmap \<Rightarrow> CPUSocket list \<Rightarrow> Topology \<Rightarrow> bool"
where
  "generated_from k j w sd ss t \<longleftrightarrow>
     msr_data j sd \<and> msr_data j (topo_sensor_data t) \<and> distinct (map sock_id ss) \<and>
     (\<forall>s \<in> set ss. msr_socket j s \<and> sock_cpu_cores s \<noteq> []) \<and>
     topo_sockets t = map (with_domains k w sd) (enumerate 0 ss) \<and>
     topo_domains_names t = Some (concat (map (domain_names_of k w) (enumerate 0 ss)))"

lemma finish_topology_spec:
  assumes "finish_topology k w (sd, t, p) = Inr t'" "explored j (sd, t, p)"
  shows "generated_from k j (sub_windows 0 w) sd (topo_sockets t) t'"
proof -
  let ?ss = "topo_sockets t"
  let ?w = "sub_windows 0 w"
  have e: "msr_data j sd" "msr_data j (topo_sensor_data t)" "distinct (map sock_id ?ss)"
    "\<forall>s \<in> set ?ss. msr_socket j s \<and> sock_domains s = []"
    using assms(2) by (auto simp: explored_def list_all_iff)
  have cores: "sock_cpu_cores s \<noteq> []" if "s \<in> set ?ss" for s
    using assms(1) domains_loop_cores that by (auto simp: finish_topology_def bind_res_eq_Inr)
  have loop: "domains_loop k ?w 0 sd ?ss [] = Inr (concat (map (domain_names_of k ?w) (enumerate 0 ?ss)),
      map (with_domains k ?w sd) (enumerate 0 ?ss))"
    using domains_loop_reply [OF e(1)] e(4) cores by simp
  obtain r where r: "get_msr_value k (w [Suc 0]) 0 (ucast MSR_PLATFORM_ENERGY_STATUS) sd = Inr r"
    using get_msr_value_reply [OF e(1)] by blast
  show ?thesis using assms(1) e cores
    by (cases r) (auto simp: finish_topology_def loop r Let_def generated_from_def set_domains_names_def)
qed

lemma generate_topology_spec:
  assumes "Msr_generate_topology k ebpf w (MsrRAPLSensor_new k x) = Some (Inr t)"
  shows "\<exists>sd ss. generated_from k (unit_exponent k x) (sub_windows 0 (sub_windows 2 w)) sd ss t"
proof -
  let ?m = "MsrRAPLSensor_new k x"
  let ?t = "Topology_new (w_env (w [0])) ebpf (sensor_data_of ?m)"
  obtain st where st: "explore_groups (sub_windows 1 w) [0 ..< unat (w_group_count (w [0]))] (sensor_data_of ?m, ?t, Unplaced) = Some (Inr st)"
    "finish_topology k (sub_windows 2 w) st = Inr t"
    using assms by (auto simp: Msr_generate_topology_def Let_def split: option.splits sum.splits)
  have "explored (unit_exponent k x) (sensor_data_of ?m, ?t, Unplaced)"
    using msr_data_new by (simp add: explored_def Topology_new_def)
  then have "explored (unit_exponent k x) st" by (rule explore_groups_explored [OF st(1)])
  then show ?thesis using finish_topology_spec st(2) by (cases st) blast
qed

section \<open>Reading the host\<close>

definition energy_of :: "msr_consts \<Rightarrow> nat \<Rightarrow> win \<Rightarrow> nat \<Rightarrow> u32 \<Rightarrow> nat" where
  "energy_of k j x core msr = (case register_reply k x core msr of None \<Rightarrow> 0 | Some v \<Rightarrow> microjoules_of j v)"

definition socket_energy :: "msr_consts \<Rightarrow> nat \<Rightarrow> windows \<Rightarrow> CPUSocket \<Rightarrow> nat" where
  "socket_energy k j w s =
     energy_of k j (w [0]) (unat (core_id (last (sock_cpu_cores s)))) (MSR_PKG_ENERGY_STATUS k) +
     (if list_ex (\<lambda>d. dom_name d = ''dram'') (sock_domains s)
      then energy_of k j (w [1]) (unat (request_core s)) (MSR_DRAM_ENERGY_STATUS k) else 0)"

definition affinity_ok :: "win \<Rightarrow> bool" where
  "affinity_ok x \<longleftrightarrow> w_get_affinity x \<and> w_set_affinity x = (\<lambda>_ _. True)"

lemma energy_of_less: "energy_of k j x core msr < 2 ^ 52"
  using microjoules_of_less by (simp add: energy_of_def split: option.split)

lemma record_or_zero_value:
  assumes "msr_data j sd"
  shows "\<exists>r. map_res (record_or_zero x) (get_msr_value k x core (ucast msr) sd) = Inr r \<and>
    rec_value r = show_nat (energy_of k j x core msr)"
proof -
  have z: "show_nat 0 = ''0''" by (subst show_nat.simps) (simp add: digit_char_0)
  obtain r where r: "get_msr_value k x core (ucast msr) sd = Inr r"
    "case register_reply k x core msr of None \<Rightarrow> (\<exists>e. r = Inl e)
     | Some v \<Rightarrow> r = Inr \<lparr>timestamp = current_system_time_since_epoch (w_env x),
         rec_value = show_nat (microjoules_of j v), rec_unit = MicroJoule\<rparr>"
    using get_msr_value_reply [OF assms] by blast
  then show ?thesis
    by (cases "register_reply k x core msr") (auto simp: record_or_zero_def energy_of_def z simp del: show_nat.simps)
qed

lemma CPUSocket_read_msr_value:
  assumes "msr_socket j s" "sock_cpu_cores s \<noteq> []" "affinity_ok x"
  shows "\<exists>r. CPUSocket_read_msr k x s = Inr r \<and>
    rec_value r = show_nat (energy_of k j x (unat (core_id (last (sock_cpu_cores s)))) (MSR_PKG_ENERGY_STATUS k))"
proof -
  obtain g where g: "hm_get (sock_sensor_data s) ''PROCESSORGROUP_ID'' = Some (show_u16 g)" "msr_data j (sock_sensor_data s)"
    using assms(1) by (auto simp: msr_socket_def)
  have "CPUSocket_read_msr k x s = map_res (record_or_zero x)
      (get_msr_value k x (unat (core_id (last (sock_cpu_cores s)))) (ucast (MSR_PKG_ENERGY_STATUS k)) (sock_sensor_data s))"
    using assms(2,3) g(1) by (simp add: CPUSocket_read_msr_def parse_res_def affinity_ok_def Let_def split: list.split)
  then show ?thesis using record_or_zero_value [OF g(2)] by metis
qed

lemma Domain_read_msr_value:
  assumes "msr_data j sd"
  shows "\<exists>r. Domain_read_msr k x (domain_of sd core (name, msr)) = Inr r \<and>
    rec_value r = show_nat (energy_of k j x (unat core) msr)"
proof -
  let ?sd = "hm_insert ''CORE_ID'' (show_u16 core) (hm_insert ''MSR_ADDR'' (show_nat (unat msr)) sd)"
  have "unat core < 2 ^ 16" "unat msr < 2 ^ 32" 
    using unsigned_less [of core, where ?'a = nat] unsigned_less [of msr, where ?'a = nat] by simp_all
  then have "parse_uint (2 ^ 64) (show_u16 core) = Some (unat core)" "parse_u64 (show_nat (unat msr)) = Some (ucast msr)"
    by (simp_all add: show_u16_def parse_u64_def parse_uint_show_nat)
  then have "Domain_read_msr k x (domain_of sd core (name, msr)) =
      map_res (record_or_zero x) (get_msr_value k x (unat core) (ucast msr) ?sd)"
    by (simp add: Domain_read_msr_def domain_of_def Domain_new_def parse_res_def)
  moreover have "msr_data j ?sd" using assms by simp
  ultimately show ?thesis using record_or_zero_value by metis
qed

lemma add_value_show: "rec_value r = show_nat n \<Longrightarrow> n < 2 ^ 128 \<Longrightarrow> add_value r tot = Some (u128_plus tot n)"
  by (simp add: add_value_def parse_u128_def parse_uint_show_nat)

text \<open>A generated socket: the explored one with at most one domain.\<close>

definition generated_socket :: "msr_consts \<Rightarrow> nat \<Rightarrow> CPUSocket \<Rightarrow> bool" where
  "generated_socket k j s \<longleftrightarrow>
     msr_socket j s \<and> sock_cpu_cores s \<noteq> [] \<and>
     (\<exists>sd nms. msr_data j sd \<and> set nms \<subseteq> set (domain_registers k) \<and>
        sock_domains s = map (domain_of sd (request_core s)) (take 1 nms))"

lemma generated_sockets:
  assumes "generated_from k j w sd ss t" "s \<in> set (topo_sockets t)"
  shows "generated_socket k j s"
proof -
  from assms obtain i s0 where s: "s = with_domains k w sd (i, s0)" "s0 \<in> set ss"
    by (auto simp: generated_from_def dest: snd_enumerate)
  have "set (answering k v core) \<subseteq> set (domain_registers k)" for v core
    by (auto simp: answering_unfold domain_registers_def)
  then have sub: "set (answering k (sub_windows i w) (request_core s0)) \<subseteq> set (domain_registers k)" .
  have s0: "msr_socket j s0" "sock_cpu_cores s0 \<noteq> []" "msr_data j sd" using assms(1) s(2) by (auto simp: generated_from_def)
  have e: "sock_domains s = map (domain_of sd (request_core s)) (take 1 (answering k (sub_windows i w) (request_core s0)))"
    "msr_socket j s = msr_socket j s0" "sock_cpu_cores s = sock_cpu_cores s0"
    by (simp_all add: s(1) with_domains_def request_core_def msr_socket_def)
  show ?thesis unfolding generated_socket_def using s0 sub e by metis
qed

lemma u128_plus_twice: "u128_plus (u128_plus a b) c = u128_plus a (b + c)"
  by (simp add: u128_plus_def mod_add_left_eq add.assoc)

lemma add_socket_msr_value:
  assumes "generated_socket k j s" "affinity_ok (w [0])"
  shows "add_socket_msr k w s (Some tot) = Inr (Some (u128_plus tot (socket_energy k j w s)))"
proof -
  obtain r where r: "CPUSocket_read_msr k (w [0]) s = Inr r"
    "rec_value r = show_nat (energy_of k j (w [0]) (unat (core_id (last (sock_cpu_cores s)))) (MSR_PKG_ENERGY_STATUS k))"
    using CPUSocket_read_msr_value assms(1,2) by (metis generated_socket_def)
  have small: "energy_of k j x core msr < 2 ^ 128" for x core msr
    using energy_of_less [of k j x core msr] by simp
  obtain sd nms where d: "msr_data j sd" "set nms \<subseteq> set (domain_registers k)"
      "sock_domains s = map (domain_of sd (request_core s)) (take 1 nms)"
    using assms(1) by (auto simp: generated_socket_def)
  have first: "add_value r tot = Some (u128_plus tot (energy_of k j (w [0]) (unat (core_id (last (sock_cpu_cores s)))) (MSR_PKG_ENERGY_STATUS k)))"
    by (rule add_value_show [OF r(2) small])
  show ?thesis
  proof (cases "\<exists>nm. take 1 nms = [nm] \<and> fst nm = ''dram''")
    case True
    then obtain nm where nm: "take 1 nms = [nm]" "fst nm = ''dram''" by blast
    then have "nm \<in> set (domain_registers k)" using d(2) by (metis in_mono in_set_takeD list.set_intros(1))
    then have nm': "nm = (''dram'', MSR_DRAM_ENERGY_STATUS k)" using nm(2) by (auto simp: domain_registers_def)
    obtain r2 where r2: "Domain_read_msr k (w [1]) (domain_of sd (request_core s) nm) = Inr r2"
      "rec_value r2 = show_nat (energy_of k j (w [1]) (unat (request_core s)) (MSR_DRAM_ENERGY_STATUS k))"
      using Domain_read_msr_value [OF d(1)] nm' by blast
    have n: "dom_name (domain_of sd (request_core s) nm) = ''dram''" using nm(2) by (simp add: domain_of_def Domain_new_def)
    show ?thesis unfolding add_socket_msr_def add_first_dram_def d(3) nm(1) socket_energy_def
      using r(1) first r2(1) n by (simp add: add_value_show [OF r2(2) small] u128_plus_twice)
  next
    case False
    then have n: "\<not> list_ex (\<lambda>d. dom_name d = ''dram'') (sock_domains s)"
      unfolding d(3) by (cases nms) (auto simp: domain_of_def Domain_new_def)
    then have "filter (\<lambda>d. dom_name d = ''dram'') (sock_domains s) = []" by (auto simp: filter_empty_conv list_ex_iff)
    then show ?thesis using n r(1) first by (simp add: add_socket_msr_def add_first_dram_def socket_energy_def)
  qed
qed

lemma u128_plus_less: "u128_plus a b < 2 ^ 128"
  by (simp add: u128_plus_def)

lemma add_sockets_value:
  assumes "\<forall>s \<in> set ss. generated_socket k j s" "\<forall>p. affinity_ok (w p)" "tot < 2 ^ 128"
  shows "fold_res (\<lambda>(i, s). add_socket_msr k (sub_windows i w) s) (enumerate n ss) (Some tot) =
    Inr (Some (u128_plus tot (sum_list (map (\<lambda>(i, s). socket_energy k j (sub_windows i w) s) (enumerate n ss)))))"
  using assms(1,3)
proof (induction ss arbitrary: n tot)
  case (Cons s ss)
  have "add_socket_msr k (sub_windows n w) s (Some tot) = Inr (Some (u128_plus tot (socket_energy k j (sub_windows n w) s)))"
    by (rule add_socket_msr_value) (use Cons.prems assms(2) in \<open>simp_all add: sub_windows_def\<close>)
  then show ?case using Cons.IH [OF _ u128_plus_less] Cons.prems by (simp add: u128_plus_twice)
qed (simp add: u128_plus_def)

text \<open>A host has at most sixteen sockets, so the sum does not wrap.\<close>

lemma generated_sockets_few:
  assumes "generated_from k j w sd ss t"
  shows "length (topo_sockets t) \<le> 16"
proof -
  have "set (map sock_id ss) \<subseteq> {v. v < 16}" using assms by (auto simp: generated_from_def msr_socket_def)
  then have "unat ` set (map sock_id ss) \<subseteq> {..<16}" by (auto simp: word_less_nat_alt)
  then have "card (unat ` set (map sock_id ss)) \<le> 16" using card_mono [of "{..<16}"] by force
  moreover have "card (unat ` set (map sock_id ss)) = card (set (map sock_id ss))"
    by (intro card_image inj_onI) (simp add: word_unat_eq_iff)
  moreover have "card (set (map sock_id ss)) = length ss"
    using assms distinct_card [of "map sock_id ss"] by (simp add: generated_from_def)
  ultimately show ?thesis using assms by (simp add: generated_from_def)
qed

lemma socket_energies_less:
  assumes "length xs \<le> 16"
  shows "sum_list (map (\<lambda>(i, s). socket_energy k j (sub_windows i w) s) xs) < 2 ^ 128"
proof -
  have "socket_energy k j v s < 2 ^ 53" for v s
    using energy_of_less [of k j "v [0]" "unat (core_id (last (sock_cpu_cores s)))" "MSR_PKG_ENERGY_STATUS k"]
      energy_of_less [of k j "v [1]" "unat (request_core s)" "MSR_DRAM_ENERGY_STATUS k"]
    by (simp add: socket_energy_def)
  then have "sum_list (map (\<lambda>(i, s). socket_energy k j (sub_windows i w) s) xs) \<le> sum_list (map (\<lambda>_. 2 ^ 53) xs)"
    by (intro sum_list_mono) (auto simp: less_imp_le)
  also have "\<dots> = length xs * 2 ^ 53" by (simp add: sum_list_triv)
  also have "\<dots> \<le> 16 * 2 ^ 53" using assms by (intro mult_right_mono) auto
  finally show ?thesis by simp
qed

lemma topology_msr_value:
  assumes "generated_from k j v sd ss t" "\<forall>p. affinity_ok (w p)"
  shows "\<exists>ts. Topology_read_msr k w t = Inr (Some \<lparr>timestamp = ts,
    rec_value = show_nat (case register_reply k (w [0]) 0 MSR_PLATFORM_ENERGY_STATUS of
       Some r \<Rightarrow> microjoules_of j r
     | None \<Rightarrow> sum_list (map (\<lambda>(i, s). socket_energy k j (sub_windows i (sub_windows 1 w)) s) (enumerate 0 (topo_sockets t)))),
    rec_unit = MicroJoule\<rparr>)"
proof -
  let ?x = "w [0]"
  have "msr_data j (topo_sensor_data t)" using assms(1) by (simp add: generated_from_def)
  then obtain r where r: "get_msr_value k ?x 0 (ucast MSR_PLATFORM_ENERGY_STATUS) (topo_sensor_data t) = Inr r"
    "case register_reply k ?x 0 MSR_PLATFORM_ENERGY_STATUS of None \<Rightarrow> (\<exists>e. r = Inl e)
     | Some v \<Rightarrow> r = Inr \<lparr>timestamp = current_system_time_since_epoch (w_env ?x),
         rec_value = show_nat (microjoules_of j v), rec_unit = MicroJoule\<rparr>"
    using get_msr_value_reply by blast
  have aff: "\<forall>p. affinity_ok (sub_windows 1 w p)" using assms(2) by (simp add: sub_windows_def)
  have fold: "fold_res (\<lambda>(i, s). add_socket_msr k (sub_windows i (sub_windows 1 w)) s) (enumerate 0 (topo_sockets t)) (Some 0) =
      Inr (Some (sum_list (map (\<lambda>(i, s). socket_energy k j (sub_windows i (sub_windows 1 w)) s) (enumerate 0 (topo_sockets t)))))"
    using add_sockets_value [OF _ aff, of "topo_sockets t" k j 0 0] generated_sockets [OF assms(1)]
      socket_energies_less [of "enumerate 0 (topo_sockets t)" k j "sub_windows 1 w"] generated_sockets_few [OF assms(1)]
    by (simp add: u128_plus_def)
  show ?thesis
  proof (cases "register_reply k ?x 0 MSR_PLATFORM_ENERGY_STATUS")
    case None
    then have "psys_msr k ?x t = Inr None" using r by (auto simp: psys_msr_def)
    then show ?thesis unfolding Topology_read_msr_def fold None by simp
  next
    case (Some v)
    then show ?thesis using r by (auto simp: Topology_read_msr_def psys_msr_def Record_new_def)
  qed
qed

section \<open>The exploration of a regular machine\<close>

text \<open>
  A machine whose thread can be moved to the CPUs below \<open>N\<close>, with \<open>l\<close> logical CPUs per package: CPU \<open>c\<close>
  answers package \<open>c div l\<close> and core \<open>c mod l\<close> in the two halves of the low byte of its x2APIC id.
\<close>

definition regular_machine :: "nat \<Rightarrow> nat \<Rightarrow> win \<Rightarrow> bool" where
  "regular_machine l N x \<longleftrightarrow>
     affinity_ok x \<and> w_core_ids x \<noteq> None \<and> w_cpus x \<noteq> [] \<and> w_set_for_current x = (\<lambda>c. c < N) \<and>
     (\<forall>p. \<exists>info. w_extended_topology x p = Some info \<and> processors_of info = of_nat l) \<and>
     (\<forall>c < N. \<exists>info lv. w_extended_topology x (On_Cpu c) = Some info \<and> filter tl_is_core info = [lv] \<and>
        tl_x2apic_id lv = of_nat (16 * (c div l) + c mod l))"

definition shape :: "CPUSocket \<Rightarrow> u16 \<times> u16 list" where
  "shape s = (sock_id s, map core_id (sock_cpu_cores s))"

definition round_shape :: "nat \<Rightarrow> nat \<Rightarrow> u16 \<times> u16 list" where
  "round_shape l q = (of_nat q, map (\<lambda>c. of_nat (q * (l - 1) + c)) [0 ..< l])"

lemma fold_levels: "fold_res (add_level x i l) info s = fold_res (add_level x i l) (filter tl_is_core info) s"
proof (induction info arbitrary: s)
  case (Cons lv info)
  have "fold_res (add_level x i l) info = fold_res (add_level x i l) (filter tl_is_core info)" using Cons by (rule ext)
  then show ?case by (cases "tl_is_core lv") (simp_all add: add_level_def [of x i l lv s])
qed simp

lemma x2apic_halves:
  assumes "q < 16" "r < 16"
  shows "(ucast (drop_bit 4 ((of_nat (16 * q + r) :: u32) AND 240)) :: u16) = of_nat q"
    and "(ucast ((of_nat (16 * q + r) :: u32) AND 15) :: u16) = of_nat r"
proof -
  let ?v = "of_nat (16 * q + r) :: u32"
  have v: "unat ?v = 16 * q + r" unfolding unsigned_of_nat using assms by (simp add: take_bit_nat_eq_self)
  have m: "(15 :: u32) = mask 4" "drop_bit 4 (240 :: u32) = 15" by (simp_all add: mask_eq_exp_minus_1)
  have "drop_bit 4 (?v AND 240) = take_bit 4 (drop_bit 4 ?v)"
    by (simp only: drop_bit_and m take_bit_eq_mask)
  moreover have "unat (take_bit 4 (drop_bit 4 ?v)) = q"
    unfolding unsigned_take_bit_eq unsigned_drop_bit_eq v using assms
    by (simp add: take_bit_eq_mod drop_bit_eq_div)
  ultimately show "(ucast (drop_bit 4 (?v AND 240)) :: u16) = of_nat q" by (metis of_nat_unat)
  have "unat (?v AND 15) = r"
    unfolding m(1) take_bit_eq_mask [symmetric] unsigned_take_bit_eq v using assms by (simp add: take_bit_eq_mod)
  then show "(ucast (?v AND 15) :: u16) = of_nat r" by (metis of_nat_unat)
qed

lemma regular_cpu:
  assumes x: "regular_machine l N x" "c < N" "l \<le> 16" "c div l = q" "q < 16" "0 < l"
  shows "\<exists>info s'. w_extended_topology x (On_Cpu c) = Some info \<and>
    fold_res (add_level x (of_nat q) (of_nat l)) info s = Inr s' \<and>
    shape s' = (of_nat q, map core_id (sock_cpu_cores s) @ [of_nat (q * (l - 1) + c mod l)])"
proof -
  obtain info lv where lv: "w_extended_topology x (On_Cpu c) = Some info" "filter tl_is_core info = [lv]"
    "tl_x2apic_id lv = of_nat (16 * q + c mod l)"
    using x by (auto simp: regular_machine_def)
  obtain cpu cpus where cpus: "w_cpus x = cpu # cpus" using x(1) by (cases "w_cpus x") (auto simp: regular_machine_def)
  have core: "tl_is_core lv" using lv(2) by (metis filter_eq_ConsD)
  have r: "c mod l < 16" using x(3,6) by (meson less_le_trans mod_less_divisor)
  have n: "of_nat q * (of_nat l - 1) + of_nat (c mod l) = (of_nat (q * (l - 1) + c mod l) :: u16)"
    using x(6) by (simp add: of_nat_diff)
  have "add_level x (of_nat q) (of_nat l) lv s = Inr (add_cpu_core (CPUCore_new (w_env x) (of_nat (q * (l - 1) + c mod l))
      (core_attributes_of cpu)) (CPUSocket_set_id (of_nat q) s))"
    unfolding add_level_def Let_def lv(3) x2apic_halves [OF x(5) r] cpus n using core by simp
  moreover have "shape (add_cpu_core (CPUCore_new e i attrs) (CPUSocket_set_id j s)) =
      (j, map core_id (sock_cpu_cores s) @ [i])" for e i attrs j
    by (simp add: shape_def add_cpu_core_def CPUSocket_set_id_def CPUCore_new_def Let_def)
  ultimately show ?thesis using lv(1) fold_levels [of x "of_nat q" "of_nat l" info s] lv(2) by (simp del: of_nat_add of_nat_mult)
qed

lemma explore_full:
  assumes "\<forall>p. regular_machine l N (w p)" "0 < l" "l \<le> 16" "q < 16" "q * l \<le> a" "a \<le> b" "b \<le> (q + 1) * l" "b \<le> N"
  shows "\<exists>s' p'. explore_cpus w (of_nat q) (of_nat l) [a ..< b] s p = Inr (s', False, p') \<and>
    shape s' = (if a = b then sock_id s else of_nat q,
      map core_id (sock_cpu_cores s) @ map (\<lambda>c. of_nat (q * (l - 1) + c mod l)) [a ..< b])"
  using assms(5-)
proof (induction "b - a" arbitrary: a s p)
  case 0
  then show ?case by (simp add: shape_def)
next
  case (Suc d)
  then have ab: "a < b" "a < N" by auto
  then have "a div l = q" using Suc.prems assms(2) by (intro div_nat_eqI) (auto simp: algebra_simps)
  then obtain info s1 where s1: "w_extended_topology (w [a]) (On_Cpu a) = Some info"
    "fold_res (add_level (w [a]) (of_nat q) (of_nat l)) info s = Inr s1"
    "shape s1 = (of_nat q, map core_id (sock_cpu_cores s) @ [of_nat (q * (l - 1) + a mod l)])"
    using regular_cpu [of l N "w [a]" a q s] assms(1-4) ab by blast
  have d: "d = b - Suc a" using Suc.hyps(2) by simp
  obtain s' p' where s': "explore_cpus w (of_nat q) (of_nat l) [Suc a ..< b] s1 (On_Cpu a) = Inr (s', False, p')"
    "shape s' = (if Suc a = b then sock_id s1 else of_nat q,
      map core_id (sock_cpu_cores s1) @ map (\<lambda>c. of_nat (q * (l - 1) + c mod l)) [Suc a ..< b])"
    using Suc.hyps(1) [of "Suc a" s1 "On_Cpu a"] d Suc.prems ab by (metis Suc_leI le_SucI)
  have "w_set_for_current (w [a]) a" using assms(1) ab by (simp add: regular_machine_def)
  moreover have "[a ..< b] = a # [Suc a ..< b]" using ab by (simp add: upt_conv_Cons)
  ultimately show ?case using s1 s' ab by (auto simp: shape_def simp del: upt_Suc of_nat_add of_nat_mult)
qed

lemma explore_stop:
  assumes "\<forall>p. regular_machine l N (w p)" "0 < l" "l \<le> 16" "q < 16" "q * l \<le> a" "a \<le> N" "N < b" "b \<le> (q + 1) * l"
  shows "\<exists>s' p'. explore_cpus w (of_nat q) (of_nat l) [a ..< b] s p = Inr (s', True, p')"
  using assms(5-)
proof (induction "N - a" arbitrary: a s p)
  case 0
  then have "[a ..< b] = N # [Suc N ..< b]" by (simp add: upt_conv_Cons)
  moreover have "\<not> w_set_for_current (w [N]) N" using assms(1) by (simp add: regular_machine_def)
  ultimately show ?case by (simp del: upt_Suc)
next
  case (Suc d)
  then have ab: "a < b" "a < N" by auto
  then have "a div l = q" using Suc.prems assms(2) by (intro div_nat_eqI) (auto simp: algebra_simps)
  then obtain info s1 where s1: "w_extended_topology (w [a]) (On_Cpu a) = Some info"
    "fold_res (add_level (w [a]) (of_nat q) (of_nat l)) info s = Inr s1"
    using regular_cpu [of l N "w [a]" a q s] assms(1-4) ab by blast
  have "w_set_for_current (w [a]) a" using assms(1) ab by (simp add: regular_machine_def)
  moreover have "[a ..< b] = a # [Suc a ..< b]" using ab by (simp add: upt_conv_Cons)
  ultimately show ?case using Suc.hyps(1) [of "Suc a" s1 "On_Cpu a"] Suc.hyps(2) Suc.prems ab s1
    by (simp del: upt_Suc)
qed

lemma safe_insert_new:
  assumes "\<forall>s' \<in> set (topo_sockets t). unat (sock_id s') < q" "sock_id s = of_nat q" "q < 16"
  shows "topo_sockets (safe_insert_socket s t) = topo_sockets t @ [s]"
proof -
  have "unat (of_nat q :: u16) = q" using assms(3) by (simp add: unsigned_of_nat take_bit_nat_eq_self)
  then have "\<not> list_ex (\<lambda>s'. sock_id s' = sock_id s) (topo_sockets t)" using assms by (auto simp: list_ex_iff)
  then show ?thesis by (simp add: safe_insert_socket_def)
qed

lemma round_bounds:
  assumes "q < 16" "l \<le> 16"
  shows "unat (of_nat q * of_nat l :: u16) = q * l" "unat ((of_nat q + 1) * of_nat l :: u16) = (q + 1) * l"
proof -
  have "(q + 1) * l \<le> 16 * 16" using assms by (intro mult_mono) auto
  then have b: "q * l < 2 ^ 16" "(q + 1) * l < 2 ^ 16" by auto
  have "(of_nat q * of_nat l :: u16) = of_nat (q * l)" "((of_nat q + 1) * of_nat l :: u16) = of_nat ((q + 1) * l)"
    by (simp_all add: algebra_simps)
  then show "unat (of_nat q * of_nat l :: u16) = q * l" "unat ((of_nat q + 1) * of_nat l :: u16) = (q + 1) * l"
    using b by (simp_all only: unsigned_of_nat) (simp_all add: take_bit_nat_eq_self)
qed

lemma full_round:
  assumes "\<forall>p. regular_machine l N (w p)" "0 < l" "l \<le> 16" "q < N div l" "q < 16" "sock_cpu_cores s = []"
  shows "\<exists>s' p'. explore_cpus w (of_nat q) (of_nat l) [q * l ..< (q + 1) * l] s p = Inr (s', False, p') \<and>
    shape s' = round_shape l q"
proof -
  have "(q + 1) * l \<le> N div l * l" using assms(4) by (intro mult_right_mono) auto
  then have N: "(q + 1) * l \<le> N" using div_times_less_eq_dividend le_trans by blast
  obtain s' p' where s': "explore_cpus w (of_nat q) (of_nat l) [q * l ..< (q + 1) * l] s p = Inr (s', False, p')"
    "shape s' = (if q * l = (q + 1) * l then sock_id s else of_nat q,
      map core_id (sock_cpu_cores s) @ map (\<lambda>c. of_nat (q * (l - 1) + c mod l)) [q * l ..< (q + 1) * l])"
    using explore_full [OF assms(1-3,5), of "q * l" "(q + 1) * l" s p] N by auto
  have "[q * l ..< (q + 1) * l] = map (\<lambda>c. c + q * l) [0 ..< l]" by (simp add: map_add_upt add.commute)
  then have "map (\<lambda>c. of_nat (q * (l - 1) + c mod l)) [q * l ..< (q + 1) * l] =
      map (\<lambda>c. of_nat (q * (l - 1) + c) :: u16) [0 ..< l]"
    by (simp del: of_nat_add of_nat_mult)
  then show ?thesis using s' assms(2,6) by (auto simp: round_shape_def simp del: of_nat_add of_nat_mult)
qed

lemma last_round:
  assumes "\<forall>p. regular_machine l N (w p)" "0 < l" "l \<le> 16" "N div l < 16"
  shows "\<exists>s' p'. explore_cpus w (of_nat (N div l)) (of_nat l) [N div l * l ..< (N div l + 1) * l] s p = Inr (s', True, p')"
proof -
  have "N div l * l \<le> N" "N < (N div l + 1) * l"
    using assms(2) by (simp, metis Suc_eq_plus1 dividend_less_div_times mult.commute mult_Suc_right)
  then show ?thesis using explore_stop [OF assms] by auto
qed

lemma socket_loop_regular:
  assumes reg: "\<forall>p. regular_machine l N (w p)" "0 < l" "l \<le> 16" "N div l < 16"
    and q: "q \<le> N div l" "\<forall>s \<in> set (topo_sockets t). unat (sock_id s) < q"
  shows "\<exists>sd' t' p'. socket_loop w (of_nat l) g n (of_nat q) (sd, t, p) = Some (Inr (sd', t', p')) \<and>
    map shape (topo_sockets t') = map shape (topo_sockets t) @ map (round_shape l) [q ..< N div l]"
  using q
proof (induction "N div l - q" arbitrary: q t sd p n)
  case 0
  let ?sd = "hm_insert ''PROCESSORGROUP_ID'' (show_u16 g) sd"
  have "q = N div l" "\<forall>p. regular_machine l N (sub_windows n w p)" using 0 reg(1) by (auto simp: sub_windows_def)
  then obtain s' p' where e: "explore_cpus (sub_windows n w) (of_nat q) (of_nat l) [q * l ..< (q + 1) * l]
      (CPUSocket_new (of_nat q) [] [] [] 1 ?sd) p = Inr (s', True, p')"
    using last_round [OF _ reg(2-4)] by blast
  have "q < 16" using 0 reg(4) by simp
  then have "socket_loop w (of_nat l) g n (of_nat q) (sd, t, p) = Some (Inr (?sd, t, p'))"
    using e by (subst socket_loop.simps) (simp only: Let_def prod.case round_bounds [OF _ reg(3)] sum.case if_True)
  then show ?case using 0 by simp
next
  case (Suc d)
  let ?sd = "hm_insert ''PROCESSORGROUP_ID'' (show_u16 g) sd"
  have q: "q < N div l" "q < 16" "\<forall>p. regular_machine l N (sub_windows n w p)"
    using Suc reg(1,4) by (auto simp: sub_windows_def)
  obtain s' p' where e: "explore_cpus (sub_windows n w) (of_nat q) (of_nat l) [q * l ..< (q + 1) * l]
      (CPUSocket_new (of_nat q) [] [] [] 1 ?sd) p = Inr (s', False, p')" "shape s' = round_shape l q"
    using full_round [OF q(3) reg(2,3) q(1,2), of "CPUSocket_new (of_nat q) [] [] [] 1 ?sd" p] by (auto simp: CPUSocket_new_def)
  define t1 where "t1 = safe_insert_socket s' t"
  have "sock_id s' = of_nat q" using e(2) by (simp add: shape_def round_shape_def)
  then have t1: "topo_sockets t1 = topo_sockets t @ [s']" "\<forall>s \<in> set (topo_sockets t1). unat (sock_id s) < Suc q"
    using safe_insert_new [OF Suc.prems(2) _ q(2)] Suc.prems(2) q(2)
    by (auto simp: t1_def unsigned_of_nat take_bit_nat_eq_self less_Suc_eq)
  have d: "d = N div l - Suc q" using Suc.hyps(2) by simp
  obtain sd' t' p2 where r: "socket_loop w (of_nat l) g (Suc n) (of_nat (Suc q)) (?sd, t1, p') = Some (Inr (sd', t', p2))"
    "map shape (topo_sockets t') = map shape (topo_sockets t1) @ map (round_shape l) [Suc q ..< N div l]"
    using Suc.hyps(1) [OF d _ t1(2), of "Suc n" ?sd p'] q(1) by (metis Suc_leI)
  have i: "(of_nat q + 1 :: u16) = of_nat (Suc q)" by simp
  have "socket_loop w (of_nat l) g n (of_nat q) (sd, t, p) = socket_loop w (of_nat l) g (Suc n) (of_nat q + 1) (?sd, t1, p')"
    using e by (subst socket_loop.simps) (simp only: Let_def prod.case round_bounds [OF q(2) reg(3)] sum.case if_False t1_def)
  then show ?case unfolding i using r t1(1) e(2) q(1) by (simp add: upt_conv_Cons del: of_nat_Suc)
qed

lemma finish_topology_ok:
  assumes "explored j (sd, t, p)" "\<forall>s \<in> set (topo_sockets t). sock_cpu_cores s \<noteq> []"
  shows "\<exists>t'. finish_topology k w (sd, t, p) = Inr t' \<and> map shape (topo_sockets t') = map shape (topo_sockets t)"
proof -
  let ?ss = "topo_sockets t" and ?w = "sub_windows 0 w"
  have e: "msr_data j sd" "\<forall>s \<in> set ?ss. sock_domains s = []" using assms(1) by (auto simp: explored_def list_all_iff)
  have loop: "domains_loop k ?w 0 sd ?ss [] = Inr (concat (map (domain_names_of k ?w) (enumerate 0 ?ss)),
      map (with_domains k ?w sd) (enumerate 0 ?ss))"
    using domains_loop_reply [OF e(1)] e(2) assms(2) by simp
  obtain r where r: "get_msr_value k (w [Suc 0]) 0 (ucast MSR_PLATFORM_ENERGY_STATUS) sd = Inr r"
    using get_msr_value_reply [OF e(1)] by blast
  have "shape (with_domains k ?w sd y) = shape (snd y)" for y by (simp add: shape_def with_domains_def)
  then have "map shape (map (with_domains k ?w sd) (enumerate 0 ?ss)) = map shape (map snd (enumerate 0 ?ss))"
    by (simp only: map_map comp_def)
  then have m: "map shape (map (with_domains k ?w sd) (enumerate 0 ?ss)) = map shape ?ss" by (simp only: map_snd_enumerate)
  show ?thesis using m by (cases r) (simp_all add: finish_topology_def loop r Let_def set_domains_names_def)
qed

lemma generate_regular:
  assumes "\<forall>p. regular_machine l N (w p)" "0 < l" "l \<le> 16" "N div l < 16" "w_group_count (w [0]) = 1"
  shows "\<exists>t. Msr_generate_topology k ebpf w (MsrRAPLSensor_new k x) = Some (Inr t) \<and>
    map shape (topo_sockets t) = map (round_shape l) [0 ..< N div l]"
proof -
  let ?m = "MsrRAPLSensor_new k x"
  let ?sd = "sensor_data_of ?m"
  let ?t = "Topology_new (w_env (w [0])) ebpf ?sd"
  let ?w = "sub_windows 0 (sub_windows 1 w)"
  let ?x = "?w [0]"
  have reg: "\<forall>p. regular_machine l N (sub_windows 1 ?w p)" "regular_machine l N ?x"
    using assms(1) by (simp_all add: sub_windows_def)
  obtain info ids where x: "w_extended_topology ?x Unplaced = Some info" "processors_of info = of_nat l"
    "w_get_affinity ?x" "w_set_affinity ?x = (\<lambda>_ _. True)" "w_core_ids ?x = Some ids"
    using reg(2) unfolding regular_machine_def affinity_ok_def by blast
  have none: "\<forall>s \<in> set (topo_sockets ?t). unat (sock_id s) < 0" by (simp add: Topology_new_def)
  obtain sd' t' p' where loop: "socket_loop (sub_windows 1 ?w) (of_nat l) 0 0 (of_nat 0) (?sd, ?t, On_Group 255 0) = Some (Inr (sd', t', p'))"
    "map shape (topo_sockets t') = map shape (topo_sockets ?t) @ map (round_shape l) [0 ..< N div l]"
    using socket_loop_regular [OF reg(1) assms(2-4) le0 none] by blast
  have g: "explore_group ?w 0 (?sd, ?t, Unplaced) = Some (Inr (sd', t', p'))"
    using loop(1) x by (simp add: explore_group_def)
  have ex: "explored (unit_exponent k x) (?sd, ?t, Unplaced)" using msr_data_new by (simp add: explored_def Topology_new_def)
  have "explore_groups (sub_windows 1 w) [0] (?sd, ?t, Unplaced) = Some (Inr (sd', t', p'))" using g by simp
  moreover from explore_groups_explored [OF this ex] have ex': "explored (unit_exponent k x) (sd', t', p')" .
  ultimately have gen: "Msr_generate_topology k ebpf w ?m = Some (finish_topology k (sub_windows 2 w) (sd', t', p'))"
    using assms(5) by (simp add: Msr_generate_topology_def Let_def)
  have sh: "map shape (topo_sockets t') = map (round_shape l) [0 ..< N div l]" using loop(2) by (simp add: Topology_new_def)
  have "sock_cpu_cores s \<noteq> []" if "s \<in> set (topo_sockets t')" for s
  proof -
    have "shape s \<in> round_shape l ` {0 ..< N div l}" using that sh by (metis image_eqI list.set_map set_upt)
    then show ?thesis using assms(2) by (auto simp: shape_def round_shape_def)
  qed
  then show ?thesis using gen finish_topology_ok [OF ex'] sh by (metis (no_types, lifting))
qed

text \<open>A processor that reports no CPU per package keeps the loop going for ever.\<close>

lemma socket_loop_needs_cpus: "socket_loop w l g n i st = Some r \<Longrightarrow> l \<noteq> 0"
  by (induction rule: socket_loop_induct) auto

lemma socket_loop_zero: "socket_loop w 0 g n i st = None"
  using socket_loop_needs_cpus [of w 0 g n i st] by (cases "socket_loop w 0 g n i st") auto

lemma domain_names_generated:
  "map (domain_names_of k w) (enumerate n (map (with_domains k w sd) (enumerate n ss))) =
   map (domain_names_of k w) (enumerate n ss)"
  by (induction ss arbitrary: n) (simp_all add: domain_names_of_def with_domains_def request_core_def)

lemma domains_generated:
  "map (\<lambda>s. map dom_name (sock_domains s)) (map (with_domains k w sd) (enumerate n ss)) =
   map (take 1 \<circ> domain_names_of k w) (enumerate n ss)"
  by (induction ss arbitrary: n)
    (simp_all add: domain_names_of_def with_domains_def domain_of_def Domain_new_def take_map)

lemma microjoules_between_wrapped:
  assumes "e1 < e0" "e0 < 2 ^ 52"
  shows "unat (microjoules_between u64_max (of_nat e0) (of_nat e1)) = 2 ^ 64 - 1 - (e0 - e1)"
proof -
  have u: "unat (of_nat e0 :: u64) = e0" "unat (of_nat e1 :: u64) = e1" using assms by (simp_all add: unat_of_nat_64)
  then have "\<not> (of_nat e0 :: u64) \<le> of_nat e1" using assms(1) by (simp add: word_le_nat_alt)
  then show ?thesis using assms
    by (simp only: microjoules_between_def if_False unat_saturating_add unat_saturating_sub u unat_u64_max) simp
qed

section \<open>A machine with nine CPUs\<close>

definition example_consts :: msr_consts where
  "example_consts = \<lparr>MSR_RAPL_POWER_UNIT = 0x606, MSR_PKG_ENERGY_STATUS = 0x611, MSR_DRAM_ENERGY_STATUS = 0x619,
     MSR_PP0_ENERGY_STATUS = 0x639, MSR_PP1_ENERGY_STATUS = 0x641, FILE_DEVICE_UNKNOWN = 0x22,
     METHOD_BUFFERED = 0, FILE_READ_DATA = 1, FILE_WRITE_DATA = 2\<rparr>"

text \<open>
  Two packages of four CPUs and a ninth CPU; the unit register holds \<open>0xA0E03\<close>, that is 14 bits for the
  energy. The package and memory counters of every CPU answer, and so does the one of the cores.
\<close>

definition example_win :: win where
  "example_win = \<lparr>w_env = env0, w_open = (\<lambda>d. d = driver_path), w_last_error = [],
     w_ioctl = (\<lambda>code r.
       if r = 0x606 then Some (0xA0E03, 8)
       else if take_bit 32 r = 0x611 then Some (0x700004000, 8)
       else if take_bit 32 r = 0x619 then Some (0x2000, 8)
       else if take_bit 32 r = 0x639 then Some (0x3000, 8) else None),
     w_group_count = 1, w_get_affinity = True, w_set_affinity = (\<lambda>_ _. True),
     w_set_for_current = (\<lambda>c. c < 9), w_core_ids = Some [0 ..< 9],
     w_extended_topology = (\<lambda>p. Some [
       \<lparr>tl_is_core = False, tl_processors = 2, tl_x2apic_id = 0\<rparr>,
       \<lparr>tl_is_core = True, tl_processors = 4,
        tl_x2apic_id = (case p of On_Cpu c \<Rightarrow> of_nat (16 * (c div 4) + c mod 4) | _ \<Rightarrow> 0)\<rparr>]),
     w_cpus = [\<lparr>cpu_name = ''cpu0'', cpu_frequency = 2400, cpu_vendor_id = ''GenuineIntel'', cpu_brand = ''Xeon''\<rparr>]\<rparr>"

lemma example_regular: "regular_machine 4 9 example_win"
  by (simp add: regular_machine_def affinity_ok_def example_win_def processors_of_def)

lemma example_requests:
  "request_reply example_consts example_win 0x606 0x606 = Some 0xA0E03"
  "register_reply example_consts example_win core 0x611 = Some 0x700004000"
  "register_reply example_consts example_win core 0x619 = Some 0x2000"
  "register_reply example_consts example_win core 0x639 = Some 0x3000"
  "register_reply example_consts example_win core 0x641 = None"
  "register_reply example_consts example_win core MSR_PLATFORM_ENERGY_STATUS = None"
proof -
  have t: "take_bit 32 (push_bit 32 (v :: u64) OR ucast (m :: u32)) = ucast m" for v m
  proof -
    have "unat m < 2 ^ 32" using unsigned_less [of m, where ?'a = nat] by simp
    then have "take_bit 32 (ucast m :: u64) = ucast m"
      by (simp add: word_unat_eq_iff unsigned_take_bit_eq unsigned_ucast_eq take_bit_nat_eq_self)
    then show ?thesis by (simp add: take_bit_push_bit)
  qed
  have n: "push_bit 32 (v :: u64) OR ucast (m :: u32) = 0x606 \<Longrightarrow> ucast m = (0x606 :: u64)" for v m
    using t [of v m] by simp
  show "request_reply example_consts example_win 0x606 0x606 = Some 0xA0E03"
    by (simp add: request_reply_def example_win_def)
  show "register_reply example_consts example_win core 0x611 = Some 0x700004000"
    using n [of "of_nat core" "0x611"] t [of "of_nat core" "0x611"]
    by (auto simp: register_reply_def request_reply_def example_win_def)
  show "register_reply example_consts example_win core 0x619 = Some 0x2000"
    using n [of "of_nat core" "0x619"] t [of "of_nat core" "0x619"]
    by (auto simp: register_reply_def request_reply_def example_win_def)
  show "register_reply example_consts example_win core 0x639 = Some 0x3000"
    using n [of "of_nat core" "0x639"] t [of "of_nat core" "0x639"]
    by (auto simp: register_reply_def request_reply_def example_win_def)
  show "register_reply example_consts example_win core 0x641 = None"
    using n [of "of_nat core" "0x641"] t [of "of_nat core" "0x641"]
    by (auto simp: register_reply_def request_reply_def example_win_def)
  show "register_reply example_consts example_win core MSR_PLATFORM_ENERGY_STATUS = None"
    using n [of "of_nat core" "0x64d"] t [of "of_nat core" "0x64d"]
    by (auto simp: register_reply_def request_reply_def example_win_def MSR_PLATFORM_ENERGY_STATUS_def)
qed

lemma example_unit: "unit_exponent example_consts example_win = 14"
  using example_requests(1) by (simp add: unit_exponent_def energy_bits_def example_consts_def)

lemma example_generated:
  "\<exists>t. Msr_generate_topology example_consts None (\<lambda>_. example_win) (MsrRAPLSensor_new example_consts example_win) =
     Some (Inr t) \<and> map shape (topo_sockets t) = map (round_shape 4) [0 ..< 2]"
  using generate_regular [of 4 9 "\<lambda>_. example_win" example_consts None example_win] example_regular
  by (simp add: example_win_def)

lemma example_fields:
  "MSR_RAPL_POWER_UNIT example_consts = 0x606" "MSR_PKG_ENERGY_STATUS example_consts = 0x611"
  "MSR_DRAM_ENERGY_STATUS example_consts = 0x619" "MSR_PP0_ENERGY_STATUS example_consts = 0x639"
  "MSR_PP1_ENERGY_STATUS example_consts = 0x641"
  by (simp_all add: example_consts_def)

lemma example_sockets:
  assumes "Msr_generate_topology example_consts None (\<lambda>_. example_win) (MsrRAPLSensor_new example_consts example_win) = Some (Inr t)"
    "s \<in> set (topo_sockets t)"
  shows "list_ex (\<lambda>d. dom_name d = ''dram'') (sock_domains s)"
proof -
  obtain sd ss where "topo_sockets t = map (with_domains example_consts (sub_windows 0 (sub_windows 2 (\<lambda>_. example_win))) sd) (enumerate 0 ss)"
    using generate_topology_spec [OF assms(1)] by (auto simp: generated_from_def)
  then obtain y where "s = with_domains example_consts (sub_windows 0 (sub_windows 2 (\<lambda>_. example_win))) sd y" using assms(2) by auto
  then show ?thesis using example_requests(3)
    by (simp add: with_domains_def answering_unfold sub_windows_def example_fields domain_of_def Domain_new_def)
qed

section \<open>Properties\<close>

text \<open>
  C18. The energy of a host whose topology the sensor generated: as long as the thread can be moved, the read
  returns, and the record holds the platform counter when the driver gives it, and otherwise the sum over
  the sockets of the package counter and, where there is a memory domain, of the memory counter; a counter
  that the driver does not give counts as zero. Every counter is its low 32 bits times a million divided
  by the power of two the unit register announces, rounded down only once, although the code goes through
  two floating point products and prints and parses the unit.
\<close>

theorem msr_host_energy:
  assumes "Msr_generate_topology k ebpf v (MsrRAPLSensor_new k x) = Some (Inr t)" "\<forall>p. affinity_ok (w p)"
  shows "\<exists>ts. Topology_read_msr k w t = Inr (Some \<lparr>timestamp = ts,
    rec_value = show_nat (case register_reply k (w [0]) 0 MSR_PLATFORM_ENERGY_STATUS of
       Some r \<Rightarrow> unat r mod 2 ^ 32 * 1000000 div 2 ^ unit_exponent k x
     | None \<Rightarrow> sum_list (map (\<lambda>(i, s). socket_energy k (unit_exponent k x) (\<lambda>p. w (1 # i # p)) s)
                          (enumerate 0 (topo_sockets t)))),
    rec_unit = MicroJoule\<rparr>)"
proof -
  obtain sd ss where g: "generated_from k (unit_exponent k x) (sub_windows 0 (sub_windows 2 v)) sd ss t"
    using generate_topology_spec [OF assms(1)] by blast
  show ?thesis using topology_msr_value [OF g assms(2)] unfolding sub_windows_def microjoules_of_def .
qed

theorem msr_host_energy_witness:
  "\<exists>t ts. Msr_generate_topology example_consts None (\<lambda>_. example_win) (MsrRAPLSensor_new example_consts example_win) =
     Some (Inr t) \<and>
   Topology_read_msr example_consts (\<lambda>_. example_win) t =
     Inr (Some \<lparr>timestamp = ts, rec_value = show_nat 3000000, rec_unit = MicroJoule\<rparr>)"
proof -
  obtain t where t: "Msr_generate_topology example_consts None (\<lambda>_. example_win) (MsrRAPLSensor_new example_consts example_win) =
      Some (Inr t)" "map shape (topo_sockets t) = map (round_shape 4) [0 ..< 2]"
    using example_generated by blast
  obtain s0 s1 where ss: "topo_sockets t = [s0, s1]" using t(2) by (auto simp: upt_conv_Cons)
  have aff: "\<forall>p. affinity_ok ((\<lambda>_. example_win) p)" by (simp add: affinity_ok_def example_win_def)
  have "socket_energy example_consts 14 (\<lambda>_. example_win) s = 1500000" if "s \<in> set (topo_sockets t)" for s
    using example_sockets [OF t(1) that] example_requests
    by (simp add: socket_energy_def energy_of_def microjoules_of_def example_fields)
  then show ?thesis using msr_host_energy [OF t(1) aff] example_requests(6) t(1)
    by (auto simp: ss example_unit)
qed

text \<open>
  C19. On a machine with \<open>l\<close> logical CPUs per package whose first \<open>N\<close> CPUs the thread can be moved to, the
  sensor returns a topology with one socket per full package: socket \<open>q\<close> has the number \<open>q\<close> and \<open>l\<close> cores
  numbered from \<open>q * (l - 1)\<close>. The CPUs of a last package that is not complete are left out, and the last
  core of a socket has the number of the first core of the next.
\<close>

theorem msr_topology_sockets:
  assumes "\<forall>p. regular_machine l N (w p)" "0 < l" "l \<le> 16" "N div l < 16" "w_group_count (w [0]) = 1"
  shows "\<exists>t. Msr_generate_topology k ebpf w (MsrRAPLSensor_new k x) = Some (Inr t) \<and>
    map (\<lambda>s. (sock_id s, map core_id (sock_cpu_cores s))) (topo_sockets t) =
    map (\<lambda>q. (of_nat q, map (\<lambda>c. of_nat (q * (l - 1) + c)) [0 ..< l])) [0 ..< N div l]"
  using generate_regular [OF assms] unfolding shape_def round_shape_def .

theorem msr_topology_sockets_witness:
  "\<exists>t. Msr_generate_topology example_consts None (\<lambda>_. example_win) (MsrRAPLSensor_new example_consts example_win) =
     Some (Inr t) \<and>
   map (\<lambda>s. (sock_id s, map core_id (sock_cpu_cores s))) (topo_sockets t) = [(0, [0, 1, 2, 3]), (1, [3, 4, 5, 6])]"
proof -
  have "[0 ..< 4] = [0, 1, 2, 3 :: nat]" "[0 ..< 9 div 4] = [0, 1 :: nat]" by code_simp+
  moreover have "w_group_count example_win = 1" by (simp add: example_win_def)
  ultimately show ?thesis
    using msr_topology_sockets [of 4 9 "\<lambda>_. example_win" example_consts None example_win] example_regular by simp
qed

text \<open>
  C38. The three domains of a socket are all created with the id 2: a socket gets the first of memory, cores
  and graphics whose counter the driver gives, and no other, while the names of the domains of the topology
  list every counter that was given, once per socket.
\<close>

theorem msr_domain_names:
  assumes "Msr_generate_topology k ebpf w (MsrRAPLSensor_new k x) = Some (Inr t)"
  defines "given \<equiv> map (\<lambda>(i, s). [name. (n, name, msr) \<leftarrow> enumerate 0
      [(''dram'', MSR_DRAM_ENERGY_STATUS k), (''core'', MSR_PP0_ENERGY_STATUS k), (''uncore'', MSR_PP1_ENERGY_STATUS k)],
      register_reply k (w [2, 0, i, n])
        (unat (core_id (last (sock_cpu_cores s)) + sock_id s * of_nat (length (sock_cpu_cores s)))) msr \<noteq> None])
      (enumerate 0 (topo_sockets t))"
  shows "map (\<lambda>s. map dom_name (sock_domains s)) (topo_sockets t) = map (take 1) given \<and>
    topo_domains_names t = Some (concat given)"
proof -
  let ?w = "sub_windows 0 (sub_windows 2 w)"
  obtain sd ss where g: "topo_sockets t = map (with_domains k ?w sd) (enumerate 0 ss)"
    "topo_domains_names t = Some (concat (map (domain_names_of k ?w) (enumerate 0 ss)))"
    using generate_topology_spec [OF assms(1)] by (auto simp: generated_from_def)
  have "given = map (domain_names_of k ?w) (enumerate 0 (topo_sockets t))"
    unfolding given_def
    by (rule map_cong) (auto simp: domain_names_of_def answering_unfold sub_windows_def request_core_def numeral_2_eq_2)
  then have "given = map (domain_names_of k ?w) (enumerate 0 ss)" unfolding g(1) domain_names_generated .
  then show ?thesis using domains_generated [of k ?w sd 0 ss] g by simp
qed


theorem msr_domain_names_witness:
  "\<exists>t. Msr_generate_topology example_consts None (\<lambda>_. example_win) (MsrRAPLSensor_new example_consts example_win) =
     Some (Inr t) \<and>
   map (\<lambda>s. map dom_name (sock_domains s)) (topo_sockets t) = [[''dram''], [''dram'']] \<and>
   topo_domains_names t = Some [''dram'', ''core'', ''dram'', ''core'']"
proof -
  obtain t where t: "Msr_generate_topology example_consts None (\<lambda>_. example_win) (MsrRAPLSensor_new example_consts example_win) =
      Some (Inr t)" "map shape (topo_sockets t) = map (round_shape 4) [0 ..< 2]"
    using example_generated by blast
  obtain s0 s1 where "topo_sockets t = [s0, s1]" using t(2) by (auto simp: upt_conv_Cons)
  then show ?thesis using msr_domain_names [OF t(1)] t(1) by (simp add: example_fields example_requests)
qed

text \<open>
  C39. The sockets and domains of this sensor have no counter range, so that the maximum of a 64-bit integer
  is taken for it. The counter goes on from zero after 32 bits: the energy of an interval in which it did
  is then computed as almost \<open>2 ^ 64\<close> microjoules, although no interval of the counter is worth \<open>2 ^ 52\<close>.
\<close>

theorem msr_counter_wrap:
  fixes prev curr :: u64
  assumes "Msr_generate_topology k ebpf w (MsrRAPLSensor_new k x) = Some (Inr t)" "s \<in> set (topo_sockets t)"
    and "rapl_max = sock_rapl_max_uj s \<or> (\<exists>d \<in> set (sock_domains s). rapl_max = dom_rapl_max_uj d)"
  defines "e0 \<equiv> unat prev mod 2 ^ 32 * 1000000 div 2 ^ unit_exponent k x"
    and "e1 \<equiv> unat curr mod 2 ^ 32 * 1000000 div 2 ^ unit_exponent k x"
  assumes "e1 < e0"
  shows "2 ^ 64 - 2 ^ 52 \<le> unat (microjoules_between rapl_max (of_nat e0) (of_nat e1))"
proof -
  let ?j = "unit_exponent k x"
  obtain sd ss where "generated_from k ?j (sub_windows 0 (sub_windows 2 w)) sd ss t"
    using generate_topology_spec [OF assms(1)] by blast
  then have "generated_socket k ?j s" using generated_sockets assms(2) by blast
  then have "sock_rapl_max_uj s = u64_max" "\<forall>d \<in> set (sock_domains s). dom_rapl_max_uj d = u64_max"
    by (auto simp: generated_socket_def msr_socket_def domain_of_def Domain_new_def rapl_max_of_def msr_data_def)
  then have "rapl_max = u64_max" using assms(3) by auto
  moreover have "e0 < 2 ^ 52" using microjoules_of_less [of ?j prev] by (simp add: e0_def microjoules_of_def)
  ultimately show ?thesis using microjoules_between_wrapped [of e1 e0] assms(6) by simp
qed

theorem msr_counter_wrap_witness:
  "\<exists>t s. Msr_generate_topology example_consts None (\<lambda>_. example_win) (MsrRAPLSensor_new example_consts example_win) =
     Some (Inr t) \<and> s \<in> set (topo_sockets t) \<and>
   2 ^ 64 - 2 ^ 52 \<le> unat (microjoules_between (sock_rapl_max_uj s) (of_nat (4294967295 * 1000000 div 2 ^ 14)) (of_nat 0))"
proof -
  obtain t where t: "Msr_generate_topology example_consts None (\<lambda>_. example_win) (MsrRAPLSensor_new example_consts example_win) =
      Some (Inr t)" "map shape (topo_sockets t) = map (round_shape 4) [0 ..< 2]"
    using example_generated by blast
  obtain s0 s1 where "topo_sockets t = [s0, s1]" using t(2) by (auto simp: upt_conv_Cons)
  then have s0: "s0 \<in> set (topo_sockets t)" by simp
  show ?thesis using msr_counter_wrap [OF t(1) s0 disjI1 [OF refl], where prev = "0xFFFFFFFF" and curr = "0"] t(1) s0
    by (auto simp: example_unit)
qed

end
