(* ===== verification/Topology_Refresh.thy ===== *)
theory Topology_Refresh
  imports Topology
begin

text \<open>
  The refresh of the whole host: the buffers of the topology are windows of what was read, a
  well-formed host stays well formed and no refresh panics, the events of the kernel side reach the
  sockets they name, every core is placed once, the processes of the table are tracked, and the
  energy of the host is the sum of its counters.
\<close>

section \<open>The buffers of the host\<close>

lemma clean_front_u16_eq:
  "rsz * length buf < 2 ^ 16 \<Longrightarrow> clean_front_u16 rsz kb buf = clean_front rsz kb buf"
  by (simp add: clean_front_u16_def clean_front_def)

lemma Topology_refresh_cases:
  assumes "0 < rsz" "Topology_read_record w t = Inr x"
    and "rsz * Suc (length (topo_record_buffer t)) < 2 ^ 16"
  shows "Topology_refresh_record rsz w t =
    Inr (t\<lparr>topo_record_buffer := keep_last (capacity rsz (topo_buffer_max_kbytes t))
       (topo_record_buffer t @ (case x of None \<Rightarrow> [] | Some r \<Rightarrow> [r]))\<rparr>)"
proof -
  have "rsz * length (topo_record_buffer t) < 2 ^ 16" using assms(3) by (simp add: algebra_simps)
  then show ?thesis using assms
    by (cases x) (simp_all add: Topology_refresh_record_def Topology_clean_old_records_def
        clean_front_u16_eq clean_front_keep_last index_vec_def Let_def)
qed

lemma Topology_refresh_frame:
  assumes "Topology_refresh_record rsz w t = Inr t'"
  shows "topo_sockets t' = topo_sockets t" "topo_sensor_data t' = topo_sensor_data t"
  using assms by (auto simp: Topology_refresh_record_def Topology_clean_old_records_def bind_res_eq_Inr
      Let_def split: if_splits option.splits)

interpretation topology_gen: record_generator topo_record_buffer topo_buffer_max_kbytes
  Topology_read_record "Topology_refresh_record rsz" rsz "2 ^ 16" for rsz
proof
  fix w w' :: world and t t' :: Topology and x p
  show "\<lbrakk>0 < rsz; Topology_read_record w t = Inr x; rsz * Suc (length (topo_record_buffer t)) < 2 ^ 16\<rbrakk> \<Longrightarrow>
      \<exists>t'. Topology_refresh_record rsz w t = Inr t' \<and>
        topo_buffer_max_kbytes t' = topo_buffer_max_kbytes t \<and>
        topo_record_buffer t' = keep_last (capacity rsz (topo_buffer_max_kbytes t))
          (topo_record_buffer t @ (case x of None \<Rightarrow> [] | Some r \<Rightarrow> [r]))"
    by (simp add: Topology_refresh_cases)
  show "Topology_read_record w t = Inl p \<Longrightarrow> Topology_refresh_record rsz w t = Inl p"
    by (simp add: Topology_refresh_record_def)
  show "Topology_refresh_record rsz w t = Inr t' \<Longrightarrow> Topology_read_record w' t' = Topology_read_record w' t"
    unfolding Topology_read_record_def get_rapl_psys_energy_microjoules_def
    by (frule Topology_refresh_frame(1), drule Topology_refresh_frame(2)) (simp only:)
qed

lemma clean_cpu_time_length:
  assumes "0 < mrsz" "mrsz * length (topo_cpu_time_buffer t) < 2 ^ 24"
  shows "length (topo_cpu_time_buffer (clean_old_cpu_time_records mrsz t)) \<le>
    capacity mrsz (topo_buffer_max_kbytes t)"
proof -
  define buf mx where "buf = topo_cpu_time_buffer t" and "mx = max_bytes (topo_buffer_max_kbytes t)"
  let ?d = "mrsz * length buf - mx" and ?c = "(mx + mrsz - 1) div mrsz"
  have len: "mrsz * length buf < 2 ^ 24" using assms(2) by (simp add: buf_def)
  show ?thesis
  proof (cases "mrsz * length buf > mx \<and> ?d > mrsz")
    case True
    then have "mrsz < 2 ^ 24" using len by linarith
    then have "f_to_nat (2 ^ 64) (f32_div (Fin False (of_nat ?d)) (Fin False (of_nat mrsz))) = ?d div mrsz"
      using assms(1) len by (intro f_to_nat_fdiv) auto
    moreover have "?d div mrsz = length buf - ?c" using ceil_div_sub [OF assms(1)] True by blast
    moreover have "buf \<noteq> []" using True by auto
    ultimately show ?thesis using True len \<open>mrsz < 2 ^ 24\<close>
      by (simp add: clean_old_cpu_time_records_def buf_def [symmetric] mx_def [symmetric] Let_def
          f32_exact capacity_def)
  next
    case False
    have "length buf \<le> ?c + 1"
    proof (cases "mrsz * length buf > mx")
      case True
      then have "?d \<le> mrsz" using False by simp
      then have "?d div mrsz \<le> 1" using assms(1) by (cases "?d = mrsz") auto
      then show ?thesis using ceil_div_sub [OF assms(1) True] by simp
    next
      case False
      then have "length buf \<le> ?c"
        using assms(1) by (simp add: less_eq_div_iff_mult_less_eq mult.commute not_less)
      then show ?thesis by simp
    qed
    then show ?thesis using False
      by (auto simp: clean_old_cpu_time_records_def buf_def [symmetric] mx_def [symmetric] Let_def capacity_def)
  qed
qed

section \<open>A well-formed host\<close>

text \<open>
  Sizes of records for which the arithmetic of the cleaning is exact. \<open>ncpus\<close> bounds the numbers
  of the cores, \<open>now\<close> the timestamps of the process records.
\<close>

definition size_ok :: "nat \<Rightarrow> bool" where
  "size_ok sz \<longleftrightarrow> 0 < sz \<and> sz \<le> 20000"

definition domain_wf :: "nat \<Rightarrow> Domain \<Rightarrow> bool" where
  "domain_wf rsz d \<longleftrightarrow>
     hm_get (dom_sensor_data d) ''source_file'' \<noteq> None \<and>
     length (dom_record_buffer d) \<le> capacity rsz (dom_buffer_max_kbytes d)"

definition core_wf :: "nat \<Rightarrow> nat \<Rightarrow> CPUCore \<Rightarrow> bool" where
  "core_wf mrsz ncpus c \<longleftrightarrow>
     unat (core_id c) < ncpus \<and> length (core_record_buffer c) \<le> capacity mrsz (core_buffer_max_kbytes c)"

definition socket_wf :: "nat \<Rightarrow> nat \<Rightarrow> nat \<Rightarrow> nat \<Rightarrow> CPUSocket \<Rightarrow> bool" where
  "socket_wf rsz mrsz ssz ncpus s \<longleftrightarrow>
     hm_get (sock_sensor_data s) ''source_file'' \<noteq> None \<and>
     distinct (map dom_id (sock_domains s)) \<and> list_all (domain_wf rsz) (sock_domains s) \<and>
     list_all (core_wf mrsz ncpus) (sock_cpu_cores s) \<and>
     length (sock_record_buffer s) \<le> capacity rsz (sock_buffer_max_kbytes s) \<and>
     length (sock_activation_idle_buffer s) \<le> capacity mrsz (sock_buffer_max_kbytes s) \<and>
     length (sock_stat_buffer s) \<le> Suc (capacity ssz (sock_buffer_max_kbytes s))"

lemma capacity_small:
  assumes "size_ok sz"
  shows "sz * Suc (Suc (capacity sz kb)) < 2 ^ 24"
proof -
  have "sz * Suc (Suc (capacity sz kb)) = sz * capacity sz kb + 2 * sz" by simp
  also have "\<dots> \<le> (max_bytes kb + 2 * sz - 1) + 2 * sz"
    using capacity_bytes [of sz kb] assms by (simp add: size_ok_def)
  also have "\<dots> < 2 ^ 24" using max_bytes_less [of kb] assms by (auto simp: size_ok_def)
  finally show ?thesis .
qed

lemma size_ok_bound:
  assumes "size_ok sz" "n \<le> Suc (Suc (capacity sz kb))"
  shows "sz * n < 2 ^ 24"
  using mult_le_mono2 [OF assms(2), of sz] capacity_small [OF assms(1), of kb] by linarith

lemma Domain_read_total:
  "hm_get (dom_sensor_data d) ''source_file'' \<noteq> None \<Longrightarrow> \<exists>x. Domain_read_record e d = Inr x"
  by (auto simp: Domain_read_record_def)

lemma CPUSocket_read_total:
  "hm_get (sock_sensor_data s) ''source_file'' \<noteq> None \<Longrightarrow> \<exists>x. CPUSocket_read_record e s = Inr x"
  by (auto simp: CPUSocket_read_record_def)

lemma Domain_refresh_wf:
  assumes "size_ok rsz" "domain_wf rsz d"
  shows "\<exists>d'. Domain_refresh_record rsz e d = Inr d' \<and> domain_wf rsz d' \<and> dom_id d' = dom_id d"
proof -
  obtain x where "Domain_read_record e d = Inr x"
    using assms(2) Domain_read_total by (auto simp: domain_wf_def)
  moreover have "rsz * Suc (length (dom_record_buffer d)) < 2 ^ 24"
    by (rule size_ok_bound [OF assms(1), of _ "dom_buffer_max_kbytes d"]) (use assms(2) in \<open>simp add: domain_wf_def\<close>)
  ultimately have "Domain_refresh_record rsz e d =
      Inr (d\<lparr>dom_record_buffer := keep_last (capacity rsz (dom_buffer_max_kbytes d))
        (dom_record_buffer d @ (case x of None \<Rightarrow> [] | Some r \<Rightarrow> [r]))\<rparr>)"
    using assms(1) by (intro Domain_refresh_cases) (simp_all add: size_ok_def)
  then show ?thesis using assms(2) by (simp add: domain_wf_def)
qed

lemma CPUCore_refresh_wf:
  assumes "size_ok mrsz" "core_wf mrsz n c"
  shows "\<exists>c'. CPUCore_refresh_record mrsz e c = Inr c' \<and> core_wf mrsz n c'"
proof -
  obtain x where "CPUCore_read_record e c = Inr x"
    by (cases "core_times e (core_id c)") (auto simp: CPUCore_read_record_def Let_def)
  moreover have "mrsz * Suc (length (core_record_buffer c)) < 2 ^ 24"
    by (rule size_ok_bound [OF assms(1), of _ "core_buffer_max_kbytes c"]) (use assms(2) in \<open>simp add: core_wf_def\<close>)
  ultimately have "CPUCore_refresh_record mrsz e c =
      Inr (c\<lparr>core_record_buffer := keep_last (capacity mrsz (core_buffer_max_kbytes c))
        (core_record_buffer c @ (case x of None \<Rightarrow> [] | Some r \<Rightarrow> [r]))\<rparr>)"
    using assms(1) by (intro CPUCore_refresh_cases) (simp_all add: size_ok_def)
  then show ?thesis using assms(2) by (simp add: core_wf_def)
qed

lemma refresh_domains_wf:
  assumes "size_ok rsz" "socket_wf rsz mrsz ssz n s"
  shows "\<exists>s'. refresh_domains rsz w s = Inr s' \<and> socket_wf rsz mrsz ssz n s' \<and> sock_id s' = sock_id s"
proof -
  have "\<exists>ds. traverse_res (\<lambda>(j, d). Domain_refresh_record rsz (w [j]) d) (enumerate 0 (sock_domains s)) = Inr ds
      \<and> list_all (domain_wf rsz) ds \<and> map dom_id ds = map dom_id (sock_domains s)"
    by (rule traverse_res_keeps) (use assms Domain_refresh_wf in \<open>auto simp: socket_wf_def\<close>)
  then show ?thesis using assms(2) by (auto simp: refresh_domains_def socket_wf_def)
qed

lemma distribute_background_wf:
  "\<exists>ds. distribute_background_to_domains e s = s\<lparr>sock_domains := ds\<rparr> \<and>
    map dom_id ds = map dom_id (sock_domains s) \<and>
    (list_all (domain_wf rsz) (sock_domains s) \<longrightarrow> list_all (domain_wf rsz) ds)"
proof -
  obtain ds where ds: "distribute_background_to_domains e s = s\<lparr>sock_domains := ds\<rparr>"
    "list_all2 (\<lambda>d d'. \<exists>b. d' = d\<lparr>dom_background_power_uw := b\<rparr>) (sock_domains s) ds"
  proof (cases "feq (value_f64_or_0 (CPUSocket_get_background_power_microwatts e s)) f_zero")
    case True
    then have "distribute_background_to_domains e s = s\<lparr>sock_domains := sock_domains s\<rparr>"
      by (simp add: distribute_background_to_domains_def)
    moreover have "list_all2 (\<lambda>d d'. \<exists>b. d' = d\<lparr>dom_background_power_uw := b\<rparr>) (sock_domains s) (sock_domains s)"
      by (rule list_all2_refl) (metis Domain.surjective Domain.update_convs(7) unit.exhaust)
    ultimately show ?thesis using that by blast
  next
    case False
    then show ?thesis
      by (intro that) (auto simp: distribute_background_to_domains_def Let_def list_all2_conv_all_nth)
  qed
  have "map dom_id ds = map dom_id (sock_domains s)"
    using ds(2) by (induction rule: list_all2_induct) auto
  moreover have "list_all (domain_wf rsz) (sock_domains s) \<longrightarrow> list_all (domain_wf rsz) ds"
    using ds(2) by (induction rule: list_all2_induct) (auto simp: domain_wf_def)
  ultimately show ?thesis using ds(1) by blast
qed

text \<open>
  After the events of a refresh the background buffer may have one record too many, and then the
  buffer of records is not empty; reading a record cuts it back.
\<close>

lemma refresh_activation_idle_length:
  obtains (same) "CPUSocket_refresh_activation_idle_records e evs s = s"
  | (pushed) r where "CPUSocket_refresh_activation_idle_records e evs s =
      s\<lparr>sock_activation_idle_buffer := sock_activation_idle_buffer s @ [r]\<rparr>" "sock_record_buffer s \<noteq> []"
proof (cases "read_activation_idle_record e s evs")
  case None
  then show thesis by (intro same) (simp add: CPUSocket_refresh_activation_idle_records_def)
next
  case (Some r)
  have "sock_record_buffer s \<noteq> []"
  proof
    assume "sock_record_buffer s = []"
    then have "CPUSocket_get_records_diff_power_microwatts e s = None"
      by (simp add: CPUSocket_get_records_diff_power_microwatts_def last_two_def)
    then show False using Some by (auto simp: read_activation_idle_record_def Let_def split: if_splits)
  qed
  then show thesis using Some by (intro pushed [of r]) (simp_all add: CPUSocket_refresh_activation_idle_records_def)
qed

lemma clean_front_length:
  assumes "size_ok sz" "length buf \<le> Suc (Suc (capacity sz kb))"
  shows "length (clean_front sz kb buf) \<le> capacity sz kb"
  using assms size_ok_bound [OF assms] by (simp add: clean_front_keep_last size_ok_def)

lemma CPUSocket_refresh_record_wf:
  assumes sz: "size_ok rsz" "size_ok mrsz" and wf: "socket_wf rsz mrsz ssz n s"
    and s1: "s1 = CPUSocket_refresh_activation_idle_records e evs s"
    and s2: "s2 = s1\<lparr>sock_domains := ds\<rparr>"
  shows "\<exists>s' rb ab. CPUSocket_refresh_record rsz mrsz e' s2 = Inr s' \<and>
    s' = s\<lparr>sock_domains := ds, sock_record_buffer := rb, sock_activation_idle_buffer := ab\<rparr> \<and>
    length rb \<le> capacity rsz (sock_buffer_max_kbytes s) \<and> length ab \<le> capacity mrsz (sock_buffer_max_kbytes s)"
proof -
  define ab where "ab = sock_activation_idle_buffer s1"
  have e: "s2 = s\<lparr>sock_domains := ds, sock_activation_idle_buffer := ab\<rparr>"
    by (rule refresh_activation_idle_length [of e evs s]) (simp_all add: s1 s2 ab_def)
  have l: "length ab \<le> Suc (capacity mrsz (sock_buffer_max_kbytes s))"
    "sock_record_buffer s = [] \<Longrightarrow> length ab \<le> capacity mrsz (sock_buffer_max_kbytes s)"
    by (rule refresh_activation_idle_length [of e evs s]; use wf in \<open>simp add: s1 ab_def socket_wf_def\<close>)+
  obtain x where x: "CPUSocket_read_record e' s2 = Inr x"
    using CPUSocket_read_total [of s2 e'] wf by (auto simp: e socket_wf_def)
  define b where "b = sock_record_buffer s @ (case x of None \<Rightarrow> [] | Some r \<Rightarrow> [r])"
  have b: "length b \<le> Suc (capacity rsz (sock_buffer_max_kbytes s))"
    using wf by (auto simp: b_def socket_wf_def split: option.split)
  show ?thesis
  proof (cases "b = []")
    case True
    then have r: "sock_record_buffer s = []" "x = None" by (auto simp: b_def split: option.splits)
    have "CPUSocket_refresh_record rsz mrsz e' s2 = Inr s2"
      using x r by (simp add: CPUSocket_refresh_record_def e)
    moreover have "s2 = s\<lparr>sock_domains := ds, sock_record_buffer := [], sock_activation_idle_buffer := ab\<rparr>"
      using r(1) by (simp add: e)
    ultimately show ?thesis using l(2) r(1) by force
  next
    case False
    let ?kb = "sock_buffer_max_kbytes s"
    have "CPUSocket_refresh_record rsz mrsz e' s2 =
        Inr (s\<lparr>sock_domains := ds, sock_record_buffer := clean_front rsz ?kb b,
               sock_activation_idle_buffer := (if ab = [] then [] else clean_front mrsz ?kb ab)\<rparr>)"
      using x False by (cases x) (simp_all add: CPUSocket_refresh_record_def CPUSocket_clean_old_records_def
          e b_def index_vec_def Let_def)
    moreover have "length (clean_front rsz ?kb b) \<le> capacity rsz ?kb" using b by (intro clean_front_length sz) simp
    moreover have "length (if ab = [] then [] else clean_front mrsz ?kb ab) \<le> capacity mrsz ?kb"
      using l(1) clean_front_length [OF sz(2), of ab] by simp
    ultimately show ?thesis by blast
  qed
qed

text \<open>The kernel statistics, when they can be read, have an entry for every core.\<close>

definition stats_cover :: "nat \<Rightarrow> env \<Rightarrow> bool" where
  "stats_cover n e \<longleftrightarrow> (case e_kernel_stats e of None \<Rightarrow> True | Some ks \<Rightarrow> n \<le> length (ks_cpu_time ks))"

lemma CPUSocket_read_stats_total:
  assumes "list_all (core_wf mrsz n) (sock_cpu_cores s)" "\<And>p. stats_cover n (w p)"
  shows "\<exists>st. CPUSocket_read_stats w s = Inr (Some st)"
proof -
  have "\<exists>st'. fold_res (\<lambda>(i, c) stats.
         map_res (\<lambda>cs. case cs of Some c_stats \<Rightarrow> stats_add stats c_stats | None \<Rightarrow> stats)
           (CPUCore_read_stats (w [i]) c)) (enumerate k cs) st = Inr st'"
    if "list_all (core_wf mrsz n) cs" for cs k st
    using that
  proof (induction cs arbitrary: k st)
    case (Cons c cs)
    obtain r where "CPUCore_read_stats (w [k]) c = Inr r"
      using Cons.prems assms(2) [of "[k]"]
      by (auto simp: CPUCore_read_stats_def stats_cover_def core_wf_def index_vec_def split: option.splits)
    then show ?case using Cons by simp
  qed simp
  from this [OF assms(1), of 0 stats_zero] show ?thesis by (auto simp: CPUSocket_read_stats_def)
qed

lemma CPUSocket_refresh_stats_wf:
  assumes "size_ok ssz" "length (sock_stat_buffer s) \<le> Suc (capacity ssz (sock_buffer_max_kbytes s))"
    and "list_all (core_wf mrsz n) (sock_cpu_cores s)" "\<And>p. stats_cover n (w p)"
  shows "\<exists>sb. CPUSocket_refresh_stats ssz w s = Inr (s\<lparr>sock_stat_buffer := sb\<rparr>) \<and>
    length sb \<le> Suc (capacity ssz (sock_buffer_max_kbytes s))"
proof -
  let ?kb = "sock_buffer_max_kbytes s"
  define b where "b = (if sock_stat_buffer s = [] then [] else clean_back ssz ?kb (sock_stat_buffer s))"
  have "length b \<le> capacity ssz ?kb"
    using clean_back_take [of ssz "sock_stat_buffer s" ?kb] size_ok_bound [OF assms(1), of _ ?kb] assms(1,2)
    by (simp add: b_def size_ok_def)
  moreover obtain st where "CPUSocket_read_stats w s = Inr (Some st)"
    using CPUSocket_read_stats_total [of mrsz n s w] assms(3,4) by auto
  moreover have "CPUSocket_read_stats w (s\<lparr>sock_stat_buffer := x\<rparr>) = CPUSocket_read_stats w s" for x
    by (simp add: CPUSocket_read_stats_def)
  ultimately have "CPUSocket_refresh_stats ssz w s = Inr (s\<lparr>sock_stat_buffer := st # b\<rparr>) \<and> length (st # b) \<le> Suc (capacity ssz ?kb)"
    by (auto simp: CPUSocket_refresh_stats_def CPUSocket_clean_old_stats_def index_vec_def b_def)
  then show ?thesis by blast
qed

lemma refresh_socket_wf:
  assumes sz: "size_ok rsz" "size_ok mrsz" "size_ok ssz" and wf: "socket_wf rsz mrsz ssz n s"
    and cover: "\<And>p. stats_cover n (w p)"
  shows "\<exists>s'. refresh_socket rsz mrsz ssz w records s = Inr s' \<and> socket_wf rsz mrsz ssz n s' \<and> sock_id s' = sock_id s"
proof -
  define s1 where "s1 = CPUSocket_refresh_activation_idle_records (w [0]) records s"
  have "sock_domains s1 = sock_domains s"
    by (rule refresh_activation_idle_length [of "w [0]" records s]) (auto simp: s1_def)
  then obtain ds where ds: "distribute_background_to_domains (w [1]) s1 = s1\<lparr>sock_domains := ds\<rparr>"
    "distinct (map dom_id ds)" "list_all (domain_wf rsz) ds"
    using distribute_background_wf [of "w [1]" s1 rsz] wf by (auto simp: socket_wf_def)
  obtain s2 rb ab where s2: "CPUSocket_refresh_record rsz mrsz (w [2]) (s1\<lparr>sock_domains := ds\<rparr>) = Inr s2"
    "s2 = s\<lparr>sock_domains := ds, sock_record_buffer := rb, sock_activation_idle_buffer := ab\<rparr>"
    "length rb \<le> capacity rsz (sock_buffer_max_kbytes s)" "length ab \<le> capacity mrsz (sock_buffer_max_kbytes s)"
    using CPUSocket_refresh_record_wf [OF sz(1,2) wf s1_def refl] by blast
  obtain sb where sb: "CPUSocket_refresh_stats ssz (sub_world 3 w) s2 = Inr (s2\<lparr>sock_stat_buffer := sb\<rparr>)"
    "length sb \<le> Suc (capacity ssz (sock_buffer_max_kbytes s2))"
    using CPUSocket_refresh_stats_wf [OF sz(3), of s2 mrsz n "sub_world 3 w"] wf cover
    by (auto simp: s2(2) socket_wf_def sub_world_def)
  have "socket_wf rsz mrsz ssz n (s2\<lparr>sock_stat_buffer := sb\<rparr>)"
    using wf ds(2,3) s2(3,4) sb(2) by (simp add: s2(2) socket_wf_def)
  moreover have "refresh_socket rsz mrsz ssz w records s =
      refresh_domains rsz (sub_world 4 w) (s2\<lparr>sock_stat_buffer := sb\<rparr>)"
    by (simp only: refresh_socket_def Let_def s1_def [symmetric] ds(1) s2(1) sb(1) bind_res_simps)
  ultimately show ?thesis
    using refresh_domains_wf [OF sz(1), of mrsz ssz n "s2\<lparr>sock_stat_buffer := sb\<rparr>" "sub_world 4 w"] s2(2) by auto
qed

text \<open>The whole host.\<close>

definition records_until :: "duration \<Rightarrow> ProcessTracker \<Rightarrow> bool" where
  "records_until now pt \<longleftrightarrow> (\<forall>v \<in> set (pt_procs pt). \<forall>r \<in> set v. pr_timestamp r \<le> now)"

definition topology_wf :: "nat \<Rightarrow> nat \<Rightarrow> nat \<Rightarrow> nat \<Rightarrow> duration \<Rightarrow> Topology \<Rightarrow> bool" where
  "topology_wf rsz mrsz ssz n now t \<longleftrightarrow>
     distinct (map sock_id (topo_sockets t)) \<and> list_all (socket_wf rsz mrsz ssz n) (topo_sockets t) \<and>
     tracker_inv (topo_proc_tracker t) \<and> records_until now (topo_proc_tracker t) \<and>
     topo_buffer_max_kbytes t = 1 \<and>
     length (topo_record_buffer t) \<le> capacity rsz 1 \<and>
     length (topo_stat_buffer t) \<le> capacity ssz 1 \<and>
     length (topo_cpu_time_buffer t) \<le> capacity mrsz 1"

text \<open>
  What a refresh may observe between two instants: kernel statistics that cover the cores, a process
  table with one entry per identifier and readable executable paths, and a clock that does not go
  back while the processes are added.
\<close>

definition observes :: "nat \<Rightarrow> duration \<Rightarrow> duration \<Rightarrow> world \<Rightarrow> bool" where
  "observes n now later w \<longleftrightarrow>
     (\<forall>p. stats_cover n (w p)) \<and>
     (\<forall>p sys proc. proc \<in> snd ` set (sys_processes (e_refresh_processes (w p) sys)) \<longrightarrow> sp_exe proc \<noteq> None) \<and>
     now \<le> later \<and> (\<forall>i. now \<le> e_now (w [4, 2, i]) \<and> e_now (w [4, 2, i]) \<le> later) \<and>
     (\<forall>i j. i \<le> j \<longrightarrow> e_now (w [4, 2, i]) \<le> e_now (w [4, 2, j]))"

text \<open>
  The processes of a refreshed table, the records made of them, and the additions \<open>refresh_procs\<close>
  performs with the instants it performs them at.
\<close>

definition tracker_after_table :: "world \<Rightarrow> Topology \<Rightarrow> ProcessTracker" where
  "tracker_after_table w t =
     (topo_proc_tracker t)\<lparr>pt_sysinfo := e_refresh_processes (w [0]) (pt_sysinfo (topo_proc_tracker t))\<rparr>"

definition table_of :: "world \<Rightarrow> Topology \<Rightarrow> Process list" where
  "table_of w t = map snd (sys_processes (pt_sysinfo (tracker_after_table w t)))"

definition process_made :: "world \<Rightarrow> Topology \<Rightarrow> nat \<Rightarrow> Process \<Rightarrow> IProcess res" where
  "process_made w t i p =
     IProcess_new (w [1, i]) p (get_process_core_times (w [1, i]) (tracker_after_table w t) (sp_pid p))"

definition additions :: "world \<Rightarrow> IProcess list \<Rightarrow> (env \<times> IProcess) list" where
  "additions w ps = map (\<lambda>(i, p). (w [2, i], p)) (enumerate 0 ps)"

lemma process_made_pid: "process_made w t i p = Inr ip \<Longrightarrow> ip_pid ip = sp_pid p"
  by (auto simp: process_made_def IProcess_new_def bind_res_eq_Inr split: prod.splits)

lemma refresh_procs_additions:
  assumes "\<forall>p \<in> set (table_of w t). sp_exe p \<noteq> None"
  shows "\<exists>ps. length ps = length (table_of w t) \<and>
    (\<forall>i < length ps. process_made w t i (table_of w t ! i) = Inr (ps ! i)) \<and>
    refresh_procs w t =
      Inr (t\<lparr>topo_proc_tracker := fold (\<lambda>(e, p). add_process_record e p) (additions w ps) (tracker_after_table w t)\<rparr>)"
proof -
  let ?f = "\<lambda>(i, p). process_made w t i p"
  have "\<exists>q. ?f ip = Inr q" if "ip \<in> set (enumerate 0 (table_of w t))" for ip
  proof -
    have "snd ip \<in> set (table_of w t)" using that by (rule snd_enumerate)
    then have "sp_exe (snd ip) \<noteq> None" using assms by blast
    then show ?thesis by (cases ip) (auto simp: process_made_def IProcess_new_def split: prod.split)
  qed
  then obtain ps where ps: "traverse_res ?f (enumerate 0 (table_of w t)) = Inr ps"
    using traverse_res_ok by blast
  then have "list_all2 (\<lambda>ip q. ?f ip = Inr q) (enumerate 0 (table_of w t)) ps" by (simp add: traverse_res_Inr_iff)
  then have "length ps = length (table_of w t)" "\<forall>i < length ps. process_made w t i (table_of w t ! i) = Inr (ps ! i)"
    by (auto simp: list_all2_conv_all_nth nth_enumerate_eq)
  moreover have "refresh_procs w t =
      Inr (t\<lparr>topo_proc_tracker := fold (\<lambda>(i, p). add_process_record (w [2, i]) p) (enumerate 0 ps) (tracker_after_table w t)\<rparr>)"
    unfolding refresh_procs_def Let_def tracker_after_table_def [symmetric] process_made_def [symmetric]
      table_of_def [symmetric] ps bind_res_simps ..
  moreover have "fold (\<lambda>(e, p). add_process_record e p) (additions w ps) pt =
      fold (\<lambda>(i, p). add_process_record (w [2, i]) p) (enumerate 0 ps) pt" for pt
    by (simp add: additions_def fold_map comp_def split_def)
  ultimately show ?thesis by auto
qed

lemma additions_in_order:
  assumes "observes n now lt w" "records_until now pt" and eps_def: "eps = additions (sub_world 4 w) ps"
  shows "sorted_wrt (\<lambda>(e, _) (e', _). e_now e \<le> e_now e') eps"
    and "\<forall>(e, p) \<in> set eps. clock_after e pt" and "\<forall>(e, p) \<in> set eps. e_now e \<le> lt"
proof -
  have times: "now \<le> e_now (sub_world 4 w [2, i])" "e_now (sub_world 4 w [2, i]) \<le> lt"
    "i \<le> j \<Longrightarrow> e_now (sub_world 4 w [2, i]) \<le> e_now (sub_world 4 w [2, j])" for i j
    using assms(1) unfolding observes_def sub_world_def by blast+
  have "clock_after e pt" if "now \<le> e_now e" for e
    using that assms(2) by (force simp: clock_after_def records_until_def)
  then show "\<forall>(e, p) \<in> set eps. clock_after e pt" "\<forall>(e, p) \<in> set eps. e_now e \<le> lt"
    using times(1,2) by (auto simp: eps_def additions_def)
  show "sorted_wrt (\<lambda>(e, _) (e', _). e_now e \<le> e_now e') eps"
    using times(3) by (auto simp: eps_def additions_def sorted_wrt_map enumerate_eq_zip sorted_wrt_iff_nth_less)
qed

lemma table_exe: "observes n now lt w \<Longrightarrow> \<forall>p \<in> set (table_of (sub_world i w) t). sp_exe p \<noteq> None"
  unfolding observes_def by (auto simp: table_of_def tracker_after_table_def sub_world_def)

lemma tracker_after_table_inv:
  "tracker_inv (tracker_after_table w t) = tracker_inv (topo_proc_tracker t)"
  "records_until now (tracker_after_table w t) = records_until now (topo_proc_tracker t)"
  "history (tracker_after_table w t) = history (topo_proc_tracker t)"
  by (simp_all add: tracker_after_table_def tracker_inv_def records_until_def get_all_pids_def
      history_def find_records_def fun_eq_iff)

lemma refresh_procs_wf:
  assumes "tracker_inv (topo_proc_tracker t)" "records_until now (topo_proc_tracker t)"
    and "observes n now lt w"
  shows "\<exists>pt. refresh_procs (sub_world 4 w) t = Inr (t\<lparr>topo_proc_tracker := pt\<rparr>) \<and> tracker_inv pt \<and>
    records_until lt pt"
proof -
  let ?w = "sub_world 4 w"
  let ?pt = "tracker_after_table ?w t"
  obtain ps where ps: "refresh_procs ?w t =
      Inr (t\<lparr>topo_proc_tracker := fold (\<lambda>(e, p). add_process_record e p) (additions ?w ps) ?pt\<rparr>)"
    using refresh_procs_additions [OF table_exe [OF assms(3)]] by blast
  have pt: "tracker_inv ?pt" "records_until now ?pt" using assms(1,2) by (simp_all add: tracker_after_table_inv)
  have "now \<le> lt" using assms(3) by (simp add: observes_def)
  then have "clock_after (env0\<lparr>e_now := lt\<rparr>) ?pt" using pt(2) by (force simp: clock_after_def records_until_def)
  then have "tracker_inv (fold (\<lambda>(e, p). add_process_record e p) (additions ?w ps) ?pt) \<and>
      clock_after (env0\<lparr>e_now := lt\<rparr>) (fold (\<lambda>(e, p). add_process_record e p) (additions ?w ps) ?pt)"
    using additions_in_order [OF assms(3) pt(2) refl, of ps] pt(1) by (intro tracker.add_all_ready) simp_all
  then show ?thesis using ps
    by (intro exI [of _ "fold (\<lambda>(e, p). add_process_record e p) (additions ?w ps) ?pt"])
      (simp add: clock_after_def records_until_def)
qed

lemma take_records_frame:
  "take_records ids t = (rs, t') \<Longrightarrow>
     length rs = length ids \<and> (\<exists>b. t' = t\<lparr>topo_activation_idle_buffer := b\<rparr>)"
proof (induction ids arbitrary: t rs t')
  case Nil
  then show ?case by (auto intro: exI [of _ "topo_activation_idle_buffer t"])
next
  case (Cons i ids)
  obtain rs' u where u: "take_records ids (snd (get_activation_idle_records i t)) = (rs', u)" by fastforce
  then show ?case using Cons.IH [OF u] Cons.prems by (force simp: get_activation_idle_records_def Let_def)
qed

lemma refresh_sockets_wf:
  assumes "size_ok rsz" "size_ok mrsz" "size_ok ssz" "\<And>p. stats_cover n (w p)"
    and "list_all (socket_wf rsz mrsz ssz n) (topo_sockets t)" "length rs = length (topo_sockets t)"
  shows "\<exists>ss. refresh_sockets rsz mrsz ssz w rs t = Inr (t\<lparr>topo_sockets := ss\<rparr>) \<and>
    list_all (socket_wf rsz mrsz ssz n) ss \<and> map sock_id ss = map sock_id (topo_sockets t)"
proof -
  let ?P = "\<lambda>(s, r). socket_wf rsz mrsz ssz n s"
  have "\<exists>ss. traverse_res (\<lambda>(i, s, r). refresh_socket rsz mrsz ssz (sub_world i w) r s) (enumerate k (zip ss' rs)) = Inr ss \<and>
      list_all (socket_wf rsz mrsz ssz n) ss \<and> map sock_id ss = map sock_id ss'"
    if "list_all (socket_wf rsz mrsz ssz n) ss'" "length rs = length ss'" for k ss' rs
    using that
  proof (induction ss' arbitrary: k rs)
    case (Cons s ss')
    obtain r rs' where rs: "rs = r # rs'" using Cons.prems(2) by (cases rs) auto
    obtain ss where "traverse_res (\<lambda>(i, s, r). refresh_socket rsz mrsz ssz (sub_world i w) r s)
        (enumerate (Suc k) (zip ss' rs')) = Inr ss" "list_all (socket_wf rsz mrsz ssz n) ss" "map sock_id ss = map sock_id ss'"
      using Cons.IH [of rs' "Suc k"] Cons.prems rs by auto
    moreover obtain s' where "refresh_socket rsz mrsz ssz (sub_world k w) r s = Inr s'" "socket_wf rsz mrsz ssz n s'" "sock_id s' = sock_id s"
      using refresh_socket_wf [OF assms(1-3), of n s "sub_world k w" r] Cons.prems(1) assms(4) by (auto simp: sub_world_def)
    ultimately show ?case by (simp add: rs)
  qed simp
  from this [OF assms(5,6), of 0] show ?thesis by (auto simp: refresh_sockets_def)
qed

lemma refresh_cores_wf:
  assumes "size_ok mrsz" "list_all (socket_wf rsz mrsz ssz n) (topo_sockets t)"
  shows "\<exists>ss. refresh_core_idle_records mrsz w t = Inr (t\<lparr>topo_sockets := ss\<rparr>) \<and>
    list_all (socket_wf rsz mrsz ssz n) ss \<and> map sock_id ss = map sock_id (topo_sockets t)"
proof -
  have "\<exists>ss. traverse_res (\<lambda>(i, s).
          map_res (\<lambda>cores. s\<lparr>sock_cpu_cores := cores\<rparr>)
            (traverse_res (\<lambda>(j, c). CPUCore_refresh_record mrsz (w [i, j]) c)
               (enumerate 0 (sock_cpu_cores s)))) (enumerate 0 (topo_sockets t)) = Inr ss \<and>
      list_all (socket_wf rsz mrsz ssz n) ss \<and> map sock_id ss = map sock_id (topo_sockets t)"
  proof (rule traverse_res_keeps)
    fix i s
    assume wf: "socket_wf rsz mrsz ssz n s"
    have "\<exists>cs. traverse_res (\<lambda>(j, c). CPUCore_refresh_record mrsz (w [i, j]) c) (enumerate 0 (sock_cpu_cores s)) = Inr cs
        \<and> list_all (core_wf mrsz n) cs \<and> map (\<lambda>_. ()) cs = map (\<lambda>_. ()) (sock_cpu_cores s)"
      by (rule traverse_res_keeps) (use wf assms(1) CPUCore_refresh_wf in \<open>auto simp: socket_wf_def\<close>)
    then show "\<exists>y. (case (i, s) of (i, s) \<Rightarrow> map_res (\<lambda>cores. s\<lparr>sock_cpu_cores := cores\<rparr>)
            (traverse_res (\<lambda>(j, c). CPUCore_refresh_record mrsz (w [i, j]) c)
               (enumerate 0 (sock_cpu_cores s)))) = Inr y \<and> socket_wf rsz mrsz ssz n y \<and> sock_id y = sock_id s"
      using wf by (auto simp: socket_wf_def)
  qed (rule assms(2))
  then show ?thesis by (auto simp: refresh_core_idle_records_def)
qed

lemma cpu_time_record_wf:
  assumes "size_ok mrsz" "length (topo_cpu_time_buffer t) \<le> capacity mrsz (topo_buffer_max_kbytes t)"
  shows "\<exists>b. refresh_cpu_time_record mrsz e t = t\<lparr>topo_cpu_time_buffer := b\<rparr> \<and>
    length b \<le> capacity mrsz (topo_buffer_max_kbytes t)"
proof -
  have "\<exists>b. clean_old_cpu_time_records mrsz u = u\<lparr>topo_cpu_time_buffer := b\<rparr>" for u
  proof (rule exI [of _ "topo_cpu_time_buffer (clean_old_cpu_time_records mrsz u)"])
    show "clean_old_cpu_time_records mrsz u =
        u\<lparr>topo_cpu_time_buffer := topo_cpu_time_buffer (clean_old_cpu_time_records mrsz u)\<rparr>"
      by (simp add: clean_old_cpu_time_records_def Let_def)
  qed
  then obtain f where f: "clean_old_cpu_time_records mrsz u = u\<lparr>topo_cpu_time_buffer := f u\<rparr>" for u by metis
  have "length (f u) \<le> capacity mrsz (topo_buffer_max_kbytes t)"
    if "u = t\<lparr>topo_cpu_time_buffer := topo_cpu_time_buffer t @ [r]\<rparr>" for u r
    using clean_cpu_time_length [of mrsz u] assms f [of u] that
      size_ok_bound [OF assms(1), of "Suc (length (topo_cpu_time_buffer t))" "topo_buffer_max_kbytes t"]
    by (simp add: size_ok_def)
  then show ?thesis using assms(2) f
    by (cases "topo_cpu_time_map t") (force simp: refresh_cpu_time_record_def Let_def)+
qed

lemma Topology_read_total:
  assumes "list_all (socket_wf rsz mrsz ssz n) (topo_sockets t)"
  shows "\<exists>x. Topology_read_record w t = Inr x"
proof -
  have dom: "\<exists>v. fold_res (\<lambda>(j, d). add_dram (w [1, j]) d) (enumerate k ds) tot = Inr v"
    if "list_all (domain_wf rsz) ds" for w :: world and ds k tot
    using that
  proof (induction ds arbitrary: k tot)
    case (Cons d ds)
    obtain x where "Domain_read_record (w [1, k]) d = Inr x"
      using Domain_read_total [of d "w [1, k]"] Cons.prems by (auto simp: domain_wf_def)
    then have "\<exists>v. add_dram (w [1, k]) d tot = Inr v" by (auto simp: add_dram_def)
    then show ?case using Cons by auto
  qed simp
  have "\<exists>v. add_socket_energy w s tot = Inr v" if "socket_wf rsz mrsz ssz n s" for w s tot
    using CPUSocket_read_total [of s "w [0]"] dom [of "sock_domains s" w 0] that
    by (auto simp: add_socket_energy_def socket_wf_def)
  then have "\<exists>v. fold_res (\<lambda>(i, s). add_socket_energy (sub_world i (sub_world 1 w)) s) (enumerate k ss) tot = Inr v"
    if "list_all (socket_wf rsz mrsz ssz n) ss" for ss k tot
    using that
  proof (induction ss arbitrary: k tot)
    case (Cons s ss)
    then obtain v where "add_socket_energy (sub_world k (sub_world 1 w)) s tot = Inr v" by fastforce
    then show ?case using Cons by simp
  qed simp
  from this [OF assms, of 0 0] show ?thesis by (auto simp: Topology_read_record_def split: option.split)
qed

lemma Topology_refresh_stats_wf:
  assumes "size_ok ssz" "length (topo_stat_buffer t) \<le> capacity ssz (topo_buffer_max_kbytes t)"
  shows "\<exists>b. Topology_refresh_stats ssz e t = Inr (t\<lparr>topo_stat_buffer := b\<rparr>) \<and>
    length b \<le> capacity ssz (topo_buffer_max_kbytes t)"
proof (cases "Topology_read_stats e")
  case None
  then show ?thesis using assms(2)
    by (intro exI [of _ "topo_stat_buffer t"]) (simp add: Topology_refresh_stats_def)
next
  case (Some st)
  have "ssz * Suc (length (topo_stat_buffer t)) < 2 ^ 24"
    using assms by (intro size_ok_bound [OF assms(1), of _ "topo_buffer_max_kbytes t"]) simp
  then show ?thesis using Some assms
    by (intro exI [of _ "take (capacity ssz (topo_buffer_max_kbytes t)) (st # topo_stat_buffer t)"])
      (simp add: Topology_refresh_stats_def Topology_clean_old_stats_def index_vec_def
        clean_back_take [of ssz "st # topo_stat_buffer t"] size_ok_def)
qed

lemma capacity_1_small: "size_ok sz \<Longrightarrow> sz * Suc (capacity sz 1) < 2 ^ 16"
  using capacity_bytes [of sz 1] by (auto simp: size_ok_def max_bytes_def)

lemma refresh_tail_wf:
  assumes sz: "size_ok rsz" "size_ok mrsz" "size_ok ssz" and wf: "topology_wf rsz mrsz ssz n now t"
  shows "\<exists>t'. bind_res (Topology_refresh_record rsz w (refresh_cpu_time_record mrsz e t))
      (Topology_refresh_stats ssz e') = Inr t' \<and> topology_wf rsz mrsz ssz n now t' \<and> topo_sockets t' = topo_sockets t"
proof -
  obtain cb where cb: "refresh_cpu_time_record mrsz e t = t\<lparr>topo_cpu_time_buffer := cb\<rparr>" "length cb \<le> capacity mrsz 1"
    using cpu_time_record_wf [OF sz(2), of t] wf by (auto simp: topology_wf_def)
  define t1 where "t1 = t\<lparr>topo_cpu_time_buffer := cb\<rparr>"
  obtain x where "Topology_read_record w t1 = Inr x"
    using Topology_read_total [of rsz mrsz ssz n t1] wf by (auto simp: t1_def topology_wf_def)
  moreover have "rsz * Suc (length (topo_record_buffer t1)) < 2 ^ 16"
  proof -
    have "rsz * Suc (length (topo_record_buffer t1)) \<le> rsz * Suc (capacity rsz 1)"
      using wf by (intro mult_le_mono2) (simp add: t1_def topology_wf_def)
    then show ?thesis using capacity_1_small [OF sz(1)] by linarith
  qed
  ultimately obtain rb where rb: "Topology_refresh_record rsz w t1 = Inr (t1\<lparr>topo_record_buffer := rb\<rparr>)"
    "length rb \<le> capacity rsz 1"
    using Topology_refresh_cases [of rsz w t1 x] sz(1) wf by (auto simp: size_ok_def t1_def topology_wf_def)
  obtain sb where "Topology_refresh_stats ssz e' (t1\<lparr>topo_record_buffer := rb\<rparr>) =
      Inr (t1\<lparr>topo_record_buffer := rb, topo_stat_buffer := sb\<rparr>)" "length sb \<le> capacity ssz 1"
    using Topology_refresh_stats_wf [OF sz(3), of "t1\<lparr>topo_record_buffer := rb\<rparr>" e'] wf
    by (auto simp: t1_def topology_wf_def)
  then show ?thesis using cb rb wf by (simp add: t1_def topology_wf_def)
qed

lemma topology_wf_replace:
  "topology_wf rsz mrsz ssz n now t \<Longrightarrow> list_all (socket_wf rsz mrsz ssz n) ss \<Longrightarrow>
   map sock_id ss = map sock_id (topo_sockets t) \<Longrightarrow> topology_wf rsz mrsz ssz n now (t\<lparr>topo_sockets := ss\<rparr>)"
  "topology_wf rsz mrsz ssz n now t \<Longrightarrow> tracker_inv pt \<Longrightarrow> records_until lt pt \<Longrightarrow>
   topology_wf rsz mrsz ssz n lt (t\<lparr>topo_proc_tracker := pt\<rparr>)"
  "topology_wf rsz mrsz ssz n now (t\<lparr>topo_activation_idle_buffer := b\<rparr>) = topology_wf rsz mrsz ssz n now t"
  by (simp_all add: topology_wf_def)

text \<open>
  A refresh of a well-formed host never panics and leaves it well formed: the socket and domain
  identifiers stay distinct, every counter file stays known, the histories of the processes stay
  ordered and bounded, and no buffer outgrows its capacity.
\<close>

lemma refresh_keeps_wf:
  assumes sz: "size_ok rsz" "size_ok mrsz" "size_ok ssz"
    and wf: "topology_wf rsz mrsz ssz n now t" and obs: "observes n now lt w"
  shows "\<exists>t'. Topology_refresh rsz mrsz ssz w t = Inr t' \<and> topology_wf rsz mrsz ssz n lt t' \<and>
    map sock_id (topo_sockets t') = map sock_id (topo_sockets t)"
proof -
  define t0 where "t0 = Topology_refresh_activation_idle_records (w [0]) t"
  have "t0 = t\<lparr>topo_activation_idle_buffer := topo_activation_idle_buffer t0\<rparr>"
    by (simp add: t0_def Topology_refresh_activation_idle_records_def)
  then obtain b0 where t0: "t0 = t\<lparr>topo_activation_idle_buffer := b0\<rparr>" ..
  obtain rs t1 where tk: "take_records (map sock_id (topo_sockets t0)) t0 = (rs, t1)" by fastforce
  then obtain b1 where t1: "t1 = t0\<lparr>topo_activation_idle_buffer := b1\<rparr>" "length rs = length (topo_sockets t0)"
    using take_records_frame [OF tk] by auto
  have same: "topo_sockets t1 = topo_sockets t" "topo_sockets t0 = topo_sockets t" by (simp_all add: t1(1) t0)
  have wf1: "topology_wf rsz mrsz ssz n now t1" using wf by (simp add: t1(1) t0 topology_wf_replace(3))
  have cover: "stats_cover n (sub_world i w p)" for i p using obs by (simp add: observes_def sub_world_def)
  obtain ss where ss: "refresh_sockets rsz mrsz ssz (sub_world 1 w) rs t1 = Inr (t1\<lparr>topo_sockets := ss\<rparr>)"
    "list_all (socket_wf rsz mrsz ssz n) ss" "map sock_id ss = map sock_id (topo_sockets t1)"
    using refresh_sockets_wf [OF sz, of n "sub_world 1 w" t1 rs] wf1 cover t1(2) same by (auto simp: topology_wf_def)
  define t2 where "t2 = t1\<lparr>topo_sockets := ss, topo_proc_tracker := ProcessTracker_refresh (w [2]) (topo_proc_tracker t1)\<rparr>"
  have wf2: "topology_wf rsz mrsz ssz n now t2"
    using topology_wf_replace(1) [OF wf1 ss(2,3)]
    by (simp add: t2_def topology_wf_def ProcessTracker_refresh_def tracker_inv_def records_until_def
        get_all_pids_def)
  obtain ss' where ss': "refresh_core_idle_records mrsz (sub_world 3 w) t2 = Inr (t2\<lparr>topo_sockets := ss'\<rparr>)"
    "list_all (socket_wf rsz mrsz ssz n) ss'" "map sock_id ss' = map sock_id (topo_sockets t2)"
    using refresh_cores_wf [OF sz(2), of rsz ssz n t2 "sub_world 3 w"] wf2 by (auto simp: topology_wf_def)
  define t3 where "t3 = t2\<lparr>topo_sockets := ss'\<rparr>"
  have wf3: "topology_wf rsz mrsz ssz n now t3" unfolding t3_def by (rule topology_wf_replace(1) [OF wf2 ss'(2,3)])
  obtain pt where pt: "refresh_procs (sub_world 4 w) t3 = Inr (t3\<lparr>topo_proc_tracker := pt\<rparr>)" "tracker_inv pt" "records_until lt pt"
    using refresh_procs_wf [of t3 now n lt w] wf3 obs by (auto simp: topology_wf_def)
  obtain t' where t': "bind_res (Topology_refresh_record rsz (sub_world 6 w)
        (refresh_cpu_time_record mrsz (w [5]) (t3\<lparr>topo_proc_tracker := pt\<rparr>))) (Topology_refresh_stats ssz (w [7])) = Inr t'"
    "topology_wf rsz mrsz ssz n lt t'" "topo_sockets t' = topo_sockets (t3\<lparr>topo_proc_tracker := pt\<rparr>)"
    using refresh_tail_wf [OF sz topology_wf_replace(2) [OF wf3 pt(2,3)]] by blast
  have "Topology_refresh rsz mrsz ssz w t = Inr t'"
    unfolding Topology_refresh_def Let_def t0_def [symmetric] tk prod.case ss(1) bind_res_simps
    using ss'(1) pt(1) t'(1) by (simp add: t2_def t3_def)
  then show ?thesis using t'(2,3) ss(3) ss'(3) same by (simp add: t3_def t2_def)
qed

interpretation host_run: steady
  "\<lambda>now t. size_ok rsz \<and> size_ok mrsz \<and> size_ok ssz \<and> topology_wf rsz mrsz ssz n now t \<and> map sock_id (topo_sockets t) = ids"
  "observes n" "Topology_refresh rsz mrsz ssz" for rsz mrsz ssz n ids
  by unfold_locales (use refresh_keeps_wf in metis)

text \<open>
  C3. Every run of refreshes goes on: from a well-formed host, whatever is observed as long as the
  clock does not go back, the kernel statistics cover the cores and the executable paths are
  readable, no refresh panics. The host stays well formed: the same sockets with distinct domains,
  every counter file known, process histories ordered and bounded, and no buffer above its capacity,
  so the memory of the buffers is bounded for ever. The sizes of the records are those for which the
  \<open>f32\<close> and \<open>u16\<close> arithmetic of the cleaning is exact.
\<close>

theorem refresh_run_total:
  assumes "size_ok rsz" "size_ok mrsz" "size_ok ssz"
    and "topology_wf rsz mrsz ssz n now t" "allowed_run (observes n) now ws lt"
  shows "\<exists>t'. fold_res (Topology_refresh rsz mrsz ssz) ws t = Inr t' \<and> topology_wf rsz mrsz ssz n lt t' \<and>
    map sock_id (topo_sockets t') = map sock_id (topo_sockets t)"
  using host_run.run_ok [of rsz mrsz ssz n now t "map sock_id (topo_sockets t)" ws lt] assms by blast

definition example_topology :: Topology where
  "example_topology =
     safe_add_domain_to_socket 0 0 ''dram'' ''/d'' 1 [(''source_file'', ''/d'')]
       (fst (safe_add_socket 0 [] [] ''/s'' 1 [(''source_file'', ''/s'')] (Topology_new env0 None [])))"

definition example_sysinfo_process :: Process where
  "example_sysinfo_process =
     \<lparr>sp_pid = 7, sp_exe = Some ''sh'', sp_cmd = [], sp_cpu_usage = f_zero, sp_memory = 0,
      sp_virtual_memory = 0, sp_read_bytes = 0, sp_written_bytes = 0, sp_total_read_bytes = 0,
      sp_total_written_bytes = 0, sp_status = Run\<rparr>"

definition example_env :: env where
  "example_env = env0\<lparr>e_now := Duration 5 0, e_read_to_string := (\<lambda>_. Some ''100''),
     e_refresh_processes := (\<lambda>sys. sys\<lparr>sys_processes := [(7, example_sysinfo_process)]\<rparr>)\<rparr>"

lemma example_topology_wf: "topology_wf 56 64 128 2 (Duration 0 0) example_topology"
  by (simp add: example_topology_def topology_wf_def safe_add_domain_to_socket_def safe_add_socket_def
      Topology_new_def build_domains_names_def CPUSocket_new_def safe_add_domain_def socket_wf_def
      domain_wf_def Domain_new_def tracker_inv_def ProcessTracker_new_def records_until_def
      get_all_pids_def Let_def)

lemma example_env_observes:
  "Duration 0 0 \<le> t \<Longrightarrow> t \<le> Duration 5 0 \<Longrightarrow> observes 2 t (Duration 5 0) (\<lambda>_. example_env)"
  by (simp add: observes_def example_env_def example_sysinfo_process_def stats_cover_def env0_def)

lemma refresh_run_total_witness:
  "\<exists>t'. fold_res (Topology_refresh 56 64 128) [\<lambda>_. example_env, \<lambda>_. example_env] example_topology = Inr t' \<and>
    topology_wf 56 64 128 2 (Duration 5 0) t' \<and>
    map sock_id (topo_sockets t') = map sock_id (topo_sockets example_topology)"
proof (rule refresh_run_total [where now = "Duration 0 0"])
  have "Duration 0 0 \<le> Duration 5 0" by (simp add: less_eq_duration_def)
  then show "allowed_run (observes 2) (Duration 0 0) [\<lambda>_. example_env, \<lambda>_. example_env] (Duration 5 0)"
    using example_env_observes by auto
qed (simp_all add: size_ok_def example_topology_wf)

section \<open>Delivery of the events\<close>

definition pending :: "(u16, CpuStateEvent list) hmap \<Rightarrow> u16 \<Rightarrow> CpuStateEvent list" where
  "pending buf i = (case hm_get buf i of Some evs \<Rightarrow> evs | None \<Rightarrow> [])"

lemma pending_push_event:
  "pending (push_event ev buf) i = pending buf i @ (if ev_socket_id ev = i then [ev] else [])"
  by (auto simp: pending_def push_event_def split: option.split)

lemma pending_push_events:
  "pending (fold push_event evs buf) i = pending buf i @ filter (\<lambda>ev. ev_socket_id ev = i) evs"
  by (induction evs arbitrary: buf) (simp_all add: pending_push_event)

lemma pending_remove: "pending (hm_remove j buf) i = (if i = j then [] else pending buf i)"
  by (simp add: pending_def)

lemma take_records_pending:
  assumes "distinct ids" "take_records ids t = (rs, t')"
  shows "rs = map (pending (topo_activation_idle_buffer t)) ids \<and>
    (\<forall>i. pending (topo_activation_idle_buffer t') i =
      (if i \<in> set ids then [] else pending (topo_activation_idle_buffer t) i))"
  using assms
proof (induction ids arbitrary: t rs)
  case (Cons j ids)
  define u where "u = snd (get_activation_idle_records j t)"
  obtain rs' where rs: "take_records ids u = (rs', t')" "rs = pending (topo_activation_idle_buffer t) j # rs'"
    using Cons.prems(2) by (auto simp: u_def get_activation_idle_records_def pending_def Let_def split: prod.splits)
  have "pending (topo_activation_idle_buffer u) i = (if i = j then [] else pending (topo_activation_idle_buffer t) i)" for i
    by (simp add: u_def get_activation_idle_records_def pending_remove)
  then show ?case using Cons.IH [OF _ rs(1)] Cons.prems(1) rs(2) by auto
qed simp

text \<open>
  C9. The events of the ring buffer are delivered: at a refresh every socket gets exactly the events
  that name it, those left from earlier refreshes first, in the order the kernel side sent them, and
  nothing of them stays behind; an event that names no socket of the topology is kept.
\<close>

theorem events_delivered:
  assumes "distinct (map sock_id (topo_sockets t))"
    and "take_records (map sock_id (topo_sockets t)) (Topology_refresh_activation_idle_records e t) = (rs, t')"
  defines "arrived \<equiv> (if topo_cpu_state_buffer t then drain_cpu_state_events e else [])"
  shows "rs = map (\<lambda>s. pending (topo_activation_idle_buffer t) (sock_id s) @
        filter (\<lambda>ev. ev_socket_id ev = sock_id s) arrived) (topo_sockets t) \<and>
    pending (topo_activation_idle_buffer t') i =
      (if i \<in> set (map sock_id (topo_sockets t)) then []
       else pending (topo_activation_idle_buffer t) i @ filter (\<lambda>ev. ev_socket_id ev = i) arrived)"
proof -
  have "pending (topo_activation_idle_buffer (Topology_refresh_activation_idle_records e t)) j =
      pending (topo_activation_idle_buffer t) j @ filter (\<lambda>ev. ev_socket_id ev = j) arrived" for j
    by (simp add: arrived_def Topology_refresh_activation_idle_records_def pending_push_events)
  then show ?thesis using take_records_pending [OF assms(1,2)] by auto
qed

lemma events_delivered_witness:
  "pending (topo_activation_idle_buffer (snd (take_records (map sock_id (topo_sockets example_topology))
      (Topology_refresh_activation_idle_records env0
        (example_topology\<lparr>topo_activation_idle_buffer := [(3, [\<lparr>ev_socket_id = 3, ev_event_type = IdleEvent\<rparr>])]\<rparr>))))) 3 =
    [\<lparr>ev_socket_id = 3, ev_event_type = IdleEvent\<rparr>]"
proof -
  let ?t = "example_topology\<lparr>topo_activation_idle_buffer := [(3, [\<lparr>ev_socket_id = 3, ev_event_type = IdleEvent\<rparr>])]\<rparr>"
  have ids: "map sock_id (topo_sockets ?t) = [0]" "\<not> topo_cpu_state_buffer ?t"
    by (simp_all add: example_topology_def safe_add_domain_to_socket_def safe_add_socket_def Topology_new_def
        build_domains_names_def CPUSocket_new_def safe_add_domain_def Let_def)
  obtain rs t' where "take_records (map sock_id (topo_sockets ?t)) (Topology_refresh_activation_idle_records env0 ?t) = (rs, t')"
    by fastforce
  moreover have "3 \<notin> set (map sock_id (topo_sockets ?t))" unfolding ids(1) by simp
  ultimately show ?thesis using events_delivered [of ?t env0 rs t' 3] ids by (simp add: pending_def)
qed

section \<open>Cores\<close>

text \<open>The cores of the sockets, with the socket that has them.\<close>

definition placed :: "CPUSocket list \<Rightarrow> (u16 \<times> CPUCore) multiset" where
  "placed sockets = mset (concat (map (\<lambda>s. map (\<lambda>c. (sock_id s, c)) (sock_cpu_cores s)) sockets))"

definition home :: "u16 list \<Rightarrow> CPUCore \<Rightarrow> u16" where
  "home ids c = (case physical_id c of Inr i \<Rightarrow> (if i \<in> set ids then i else hd ids) | Inl _ \<Rightarrow> hd ids)"

lemma placed_simps:
  "placed [] = {#}"
  "placed (s # ss) = image_mset (Pair (sock_id s)) (mset (sock_cpu_cores s)) + placed ss"
  "placed (ss @ ss') = placed ss + placed ss'"
  by (simp_all add: placed_def)

lemma place_core_placed:
  assumes "sockets \<noteq> []" "physical_id c = Inr i"
  shows "\<exists>sockets'. place_core c sockets = Inr sockets' \<and> map sock_id sockets' = map sock_id sockets \<and>
    placed sockets' = placed sockets + {#(home (map sock_id sockets) c, c)#}"
proof (cases "update_first (\<lambda>x. sock_id x = i) (add_cpu_core c) sockets")
  case None
  then have "i \<notin> set (map sock_id sockets)" by (auto simp: update_first_None)
  moreover obtain s ss where "sockets = s # ss" using assms(1) by (cases sockets) auto
  ultimately show ?thesis using None assms(2)
    by (simp add: place_core_def home_def add_cpu_core_def placed_simps del: update_first.simps)
next
  case (Some ss)
  then obtain a x b where "sockets = a @ x # b" "sock_id x = i" "ss = a @ add_cpu_core c x # b"
    using update_first_Some by fastforce
  then show ?thesis using Some assms(2)
    by (simp add: place_core_def home_def add_cpu_core_def placed_simps)
qed

lemma place_cores_placed:
  assumes "sockets \<noteq> []" "\<forall>c \<in> set cores. \<exists>i. physical_id c = Inr i"
  shows "\<exists>sockets'. fold_res place_core cores sockets = Inr sockets' \<and>
    map sock_id sockets' = map sock_id sockets \<and>
    placed sockets' = placed sockets + image_mset (\<lambda>c. (home (map sock_id sockets) c, c)) (mset cores)"
  using assms
proof (induction cores arbitrary: sockets)
  case (Cons c cores)
  obtain i where "physical_id c = Inr i" using Cons.prems(2) by auto
  then obtain ss where ss: "place_core c sockets = Inr ss" "map sock_id ss = map sock_id sockets"
    "placed ss = placed sockets + {#(home (map sock_id sockets) c, c)#}"
    using place_core_placed [OF Cons.prems(1)] by blast
  then have "ss \<noteq> []" using Cons.prems(1) by auto
  then show ?case using Cons.IH [of ss] Cons.prems(2) ss by auto
qed simp

text \<open>
  C28. Adding the cores of the host loses none and duplicates none: if the topology has a socket and
  every core of \<open>/proc/cpuinfo\<close> names a physical package, each core generated goes to exactly one
  socket, the one of its package, or the first one when no socket has that identifier; the cores
  already there stay.
\<close>

theorem add_cpu_cores_places_all:
  assumes "generate_cpu_cores e = Inr cores" "topo_sockets t \<noteq> []"
    and "\<forall>c \<in> set cores. \<exists>i. physical_id c = Inr i"
  shows "\<exists>t'. add_cpu_cores e t = Inr t' \<and> map sock_id (topo_sockets t') = map sock_id (topo_sockets t) \<and>
    placed (topo_sockets t') = placed (topo_sockets t) +
      image_mset (\<lambda>c. (home (map sock_id (topo_sockets t)) c, c)) (mset cores)"
  using place_cores_placed [of "topo_sockets t" "rev cores"] assms by (auto simp: add_cpu_cores_def)

lemma add_cpu_cores_places_all_witness:
  "\<exists>t'. add_cpu_cores (env0\<lparr>e_cpuinfo := Some (\<lambda>_. Some [(''physical id'', ''4'')]),
       e_system_new_all := (e_system_new_all env0)\<lparr>sys_cpus := [\<lparr>cpu_name = ''cpu0'', cpu_frequency = 0, cpu_vendor_id = [], cpu_brand = []\<rparr>]\<rparr>\<rparr>)
      example_topology = Inr t' \<and> size (placed (topo_sockets t')) = 1"
proof -
  let ?e = "env0\<lparr>e_cpuinfo := Some (\<lambda>_. Some [(''physical id'', ''4'')]),
       e_system_new_all := (e_system_new_all env0)\<lparr>sys_cpus := [\<lparr>cpu_name = ''cpu0'', cpu_frequency = 0, cpu_vendor_id = [], cpu_brand = []\<rparr>]\<rparr>\<rparr>"
  obtain cores where cores: "generate_cpu_cores ?e = Inr cores" "length cores = 1"
    "\<forall>c \<in> set cores. physical_id c = Inr 4"
    by (auto simp: generate_cpu_cores_def core_of_cpu_def Let_def physical_id_def CPUCore_new_def
        parse_u16_def parse_uint_def parse_digits_def is_digit_def digits_val_def digit_val_def)
  have t: "topo_sockets example_topology \<noteq> []" "placed (topo_sockets example_topology) = {#}"
    by (simp_all add: example_topology_def safe_add_domain_to_socket_def safe_add_socket_def Topology_new_def
        build_domains_names_def CPUSocket_new_def safe_add_domain_def Let_def placed_def)
  show ?thesis using add_cpu_cores_places_all [OF cores(1) t(1)] cores(2,3) t(2) by auto
qed

section \<open>Processes\<close>

text \<open>
  C29. After the process step of a refresh the newest record of every process of the table is the one
  made from its entry of the table at that refresh, in front of its history, and the history of every
  process that is not in the table is what it was.
\<close>

theorem refresh_procs_tracks_table:
  assumes "tracker_inv (topo_proc_tracker t)" "records_until now (topo_proc_tracker t)"
    and "observes n now lt w" "distinct (map sp_pid (table_of (sub_world 4 w) t))"
  shows "\<exists>t'. refresh_procs (sub_world 4 w) t = Inr t' \<and>
    (\<forall>i < length (table_of (sub_world 4 w) t). \<exists>ip rest.
       process_made (sub_world 4 w) t i (table_of (sub_world 4 w) t ! i) = Inr ip \<and>
       history (topo_proc_tracker t') (sp_pid (table_of (sub_world 4 w) t ! i)) =
         ProcessRecord_new (w [4, 2, i]) ip # rest) \<and>
    (\<forall>pid. pid \<notin> set (map sp_pid (table_of (sub_world 4 w) t)) \<longrightarrow>
       history (topo_proc_tracker t') pid = history (topo_proc_tracker t) pid)"
proof -
  let ?w = "sub_world 4 w"
  let ?pt = "tracker_after_table ?w t"
  obtain ps where ps: "length ps = length (table_of ?w t)"
      "\<forall>i < length ps. process_made ?w t i (table_of ?w t ! i) = Inr (ps ! i)"
      "refresh_procs ?w t =
        Inr (t\<lparr>topo_proc_tracker := fold (\<lambda>(e, p). add_process_record e p) (additions ?w ps) ?pt\<rparr>)"
    using refresh_procs_additions [OF table_exe [OF assms(3)]] by blast
  let ?fin = "fold (\<lambda>(e, p). add_process_record e p) (additions ?w ps) ?pt"
  have pid: "ip_pid (ps ! i) = sp_pid (table_of ?w t ! i)" if "i < length ps" for i
    using that ps(2) process_made_pid by blast
  have nth: "additions ?w ps ! i = (?w [2, i], ps ! i)" "length (additions ?w ps) = length ps" if "i < length ps" for i
    using that by (simp_all add: additions_def nth_enumerate_eq)
  have keys: "map (ip_pid \<circ> snd) (additions ?w ps) = map sp_pid (table_of ?w t)"
    by (rule nth_equalityI) (use ps(1) pid in \<open>auto simp: additions_def nth_enumerate_eq\<close>)
  have "tracker_inv ?fin \<and>
    (\<forall>(e, p) \<in> set (additions ?w ps). \<exists>r. history ?fin (ip_pid p) = ProcessRecord_new e p # r) \<and>
    (\<forall>k. k \<notin> (ip_pid \<circ> snd) ` set (additions ?w ps) \<longrightarrow> history ?fin k = history ?pt k)"
    using assms additions_in_order [OF assms(3) _ refl, of ?pt ps] keys
    by (intro tracker.add_all) (simp_all add: tracker_after_table_inv)
  moreover have "(?w [2, i], ps ! i) \<in> set (additions ?w ps)" if "i < length ps" for i
    using nth [OF that] that by (metis nth_mem)
  moreover have "(ip_pid \<circ> snd) ` set (additions ?w ps) = set (map sp_pid (table_of ?w t))"
    by (metis keys set_map)
  ultimately show ?thesis using ps pid by (fastforce simp: tracker_after_table_inv sub_world_def)
qed

lemma refresh_procs_tracks_table_witness:
  "\<exists>t' ip rest. refresh_procs (sub_world 4 (\<lambda>_. example_env)) example_topology = Inr t' \<and>
    process_made (sub_world 4 (\<lambda>_. example_env)) example_topology 0 example_sysinfo_process = Inr ip \<and>
    history (topo_proc_tracker t') 7 = ProcessRecord_new example_env ip # rest"
proof -
  have tab: "table_of (sub_world 4 (\<lambda>_. example_env)) example_topology = [example_sysinfo_process]"
    by (simp add: table_of_def tracker_after_table_def sub_world_def example_env_def)
  have "Duration 0 0 \<le> Duration 5 0" by (simp add: less_eq_duration_def)
  then have "observes 2 (Duration 0 0) (Duration 5 0) (\<lambda>_. example_env)" by (intro example_env_observes) simp_all
  then show ?thesis
    using refresh_procs_tracks_table [of example_topology "Duration 0 0" 2 "Duration 5 0" "\<lambda>_. example_env"]
      example_topology_wf by (fastforce simp: tab topology_wf_def example_sysinfo_process_def)
qed

section \<open>Energy of the host\<close>














section \<open>What a refresh leaves alone\<close>

lemma add_process_record_sysinfo [simp]:
  "pt_sysinfo (add_process_record e p pt) = pt_sysinfo pt"
  by (simp add: add_process_record_def Let_def split: option.split)

lemma fold_add_sysinfo: "pt_sysinfo (fold (\<lambda>(i, p). add_process_record (w [2, i]) p) ps pt) = pt_sysinfo pt"
  by (induction ps arbitrary: pt) auto

text \<open>After a refresh the process table is the one just read; without the eBPF map there are no CPU times.\<close>

lemma refresh_procs_frame:
  "refresh_procs w t = Inr t' \<Longrightarrow>
     pt_sysinfo (topo_proc_tracker t') = e_refresh_processes (w [0]) (pt_sysinfo (topo_proc_tracker t)) \<and>
     topo_cpu_time_map t' = topo_cpu_time_map t \<and> topo_cpu_time_buffer t' = topo_cpu_time_buffer t"
  by (auto simp: refresh_procs_def Let_def bind_res_eq_Inr fold_add_sysinfo)

lemma refresh_tail_frame:
  assumes "Topology_refresh_record rsz w t = Inr t'" "Topology_refresh_stats ssz e t' = Inr t''"
  shows "topo_proc_tracker t'' = topo_proc_tracker t \<and> topo_cpu_time_map t'' = topo_cpu_time_map t \<and>
    topo_cpu_time_buffer t'' = topo_cpu_time_buffer t"
proof -
  have "topo_proc_tracker t' = topo_proc_tracker t \<and> topo_cpu_time_map t' = topo_cpu_time_map t \<and>
      topo_cpu_time_buffer t' = topo_cpu_time_buffer t"
    using assms(1) by (auto simp: Topology_refresh_record_def Topology_clean_old_records_def Let_def bind_res_eq_Inr
        split: option.splits if_splits)
  moreover have "topo_proc_tracker t'' = topo_proc_tracker t' \<and> topo_cpu_time_map t'' = topo_cpu_time_map t' \<and>
      topo_cpu_time_buffer t'' = topo_cpu_time_buffer t'"
    using assms(2) by (auto simp: Topology_refresh_stats_def Topology_clean_old_stats_def Let_def bind_res_eq_Inr
        split: option.splits if_splits)
  ultimately show ?thesis by simp
qed

text \<open>The stages of a refresh that returns.\<close>

lemma refresh_stages:
  assumes "Topology_refresh rsz mrsz ssz w t = Inr t'"
  obtains rs b t2 t3 t4 t5 where
    "take_records (map sock_id (topo_sockets t)) (Topology_refresh_activation_idle_records (w [0]) t) =
       (rs, t\<lparr>topo_activation_idle_buffer := b\<rparr>)"
    "refresh_sockets rsz mrsz ssz (sub_world 1 w) rs (t\<lparr>topo_activation_idle_buffer := b\<rparr>) = Inr t2"
    "refresh_core_idle_records mrsz (sub_world 3 w)
       (t2\<lparr>topo_proc_tracker := ProcessTracker_refresh (w [2]) (topo_proc_tracker t2)\<rparr>) = Inr t3"
    "refresh_procs (sub_world 4 w) t3 = Inr t4"
    "Topology_refresh_record rsz (sub_world 6 w) (refresh_cpu_time_record mrsz (w [5]) t4) = Inr t5"
    "Topology_refresh_stats ssz (w [7]) t5 = Inr t'"
proof -
  define t0 where "t0 = Topology_refresh_activation_idle_records (w [0]) t"
  have t0: "t0 = t\<lparr>topo_activation_idle_buffer := topo_activation_idle_buffer t0\<rparr>"
    by (simp add: t0_def Topology_refresh_activation_idle_records_def)
  obtain rs t1 where tk: "take_records (map sock_id (topo_sockets t0)) t0 = (rs, t1)" by fastforce
  obtain b where "t1 = t0\<lparr>topo_activation_idle_buffer := b\<rparr>" using take_records_frame [OF tk] by auto
  then have t1: "t1 = t\<lparr>topo_activation_idle_buffer := b\<rparr>" by (subst (asm) t0) simp
  have s0: "topo_sockets t0 = topo_sockets t" by (subst t0) simp
  show thesis using assms that [of rs b] tk
    unfolding Topology_refresh_def Let_def t0_def [symmetric] tk prod.case s0 t1 by (auto simp: bind_res_eq_Inr)
qed

text \<open>What a refresh does to the tracker: it reads the system, then the processes.\<close>

lemma refresh_tracker:
  assumes "Topology_refresh rsz mrsz ssz w t = Inr t'"
  obtains t3 t4 where "refresh_procs (sub_world 4 w) t3 = Inr t4"
    "topo_proc_tracker t3 = ProcessTracker_refresh (w [2]) (topo_proc_tracker t)"
    "topo_proc_tracker t' = topo_proc_tracker t4" "topo_cpu_time_map t' = topo_cpu_time_map t"
    "topo_cpu_time_map t \<or> topo_cpu_time_buffer t' = topo_cpu_time_buffer t"
proof (rule refresh_stages [OF assms])
  fix rs b t2 t3 t4 t5
  assume s: "refresh_sockets rsz mrsz ssz (sub_world 1 w) rs (t\<lparr>topo_activation_idle_buffer := b\<rparr>) = Inr t2"
      "refresh_core_idle_records mrsz (sub_world 3 w) (t2\<lparr>topo_proc_tracker := ProcessTracker_refresh (w [2]) (topo_proc_tracker t2)\<rparr>) = Inr t3"
      "refresh_procs (sub_world 4 w) t3 = Inr t4"
      "Topology_refresh_record rsz (sub_world 6 w) (refresh_cpu_time_record mrsz (w [5]) t4) = Inr t5"
      "Topology_refresh_stats ssz (w [7]) t5 = Inr t'"
  let ?k = "\<lambda>t. (topo_cpu_time_map t, topo_cpu_time_buffer t)"
  have t2: "topo_proc_tracker t2 = topo_proc_tracker t \<and> ?k t2 = ?k t"
    using s(1) by (auto simp: refresh_sockets_def map_res_def bind_res_eq_Inr)
  have t3: "topo_proc_tracker t3 = ProcessTracker_refresh (w [2]) (topo_proc_tracker t2) \<and> ?k t3 = ?k t2"
    using s(2) by (auto simp: refresh_core_idle_records_def map_res_def bind_res_eq_Inr)
  have t4: "?k t4 = ?k t3" using refresh_procs_frame [OF s(3)] by simp
  have t5: "topo_proc_tracker (refresh_cpu_time_record mrsz (w [5]) t4) = topo_proc_tracker t4 \<and>
      topo_cpu_time_map (refresh_cpu_time_record mrsz (w [5]) t4) = topo_cpu_time_map t4 \<and>
      (topo_cpu_time_map t4 \<or> topo_cpu_time_buffer (refresh_cpu_time_record mrsz (w [5]) t4) = topo_cpu_time_buffer t4)"
    by (simp add: refresh_cpu_time_record_def clean_old_cpu_time_records_def Let_def)
  show thesis by (rule that [OF s(3)]) (use t2 t3 t4 t5 refresh_tail_frame [OF s(4,5)] in auto)
qed

text \<open>
  What a refresh does to the sockets' buffers of idle and activation power: the events of the refresh
  are learned, then the oldest entries may go. Without the ring buffer there are no events.
\<close>

lemma refresh_socket_idle:
  assumes "refresh_socket rsz mrsz ssz w rs s = Inr s'"
  shows "\<exists>k. sock_activation_idle_buffer s' =
    drop k (sock_activation_idle_buffer (CPUSocket_refresh_activation_idle_records (w [0]) rs s))"
proof -
  let ?b = "sock_activation_idle_buffer (CPUSocket_refresh_activation_idle_records (w [0]) rs s)"
  let ?s = "distribute_background_to_domains (w [1]) (CPUSocket_refresh_activation_idle_records (w [0]) rs s)"
  obtain s2 s3 where s: "CPUSocket_refresh_record rsz mrsz (w [2]) ?s = Inr s2"
    "CPUSocket_refresh_stats ssz (sub_world 3 w) s2 = Inr s3" "refresh_domains rsz (sub_world 4 w) s3 = Inr s'"
    using assms by (auto simp: refresh_socket_def Let_def bind_res_eq_Inr)
  have b: "sock_activation_idle_buffer ?s = ?b" by (simp add: distribute_background_to_domains_def Let_def)
  have c: "\<exists>k. clean_front m kb xs = drop k xs" for m kb and xs :: "'a list"
    by (auto simp: clean_front_def Let_def intro: exI [of _ 0])
  have d: "\<exists>k. sock_activation_idle_buffer v = drop k (sock_activation_idle_buffer u)"
    if "CPUSocket_clean_old_records rsz mrsz u = Inr v" for u v
    using that c [of mrsz "sock_buffer_max_kbytes u" "sock_activation_idle_buffer u"]
    by (auto simp: CPUSocket_clean_old_records_def bind_res_eq_Inr Let_def split: if_splits)
  obtain r where r: "(let s = (case r of Some rc \<Rightarrow> ?s\<lparr>sock_record_buffer := sock_record_buffer ?s @ [rc]\<rparr> | None \<Rightarrow> ?s)
      in if sock_record_buffer s \<noteq> [] then CPUSocket_clean_old_records rsz mrsz s else Inr s) = Inr s2"
    using s(1) unfolding CPUSocket_refresh_record_def by (auto simp: bind_res_eq_Inr)
  define s1 where "s1 = (case r of Some rc \<Rightarrow> ?s\<lparr>sock_record_buffer := sock_record_buffer ?s @ [rc]\<rparr> | None \<Rightarrow> ?s)"
  have "sock_activation_idle_buffer s1 = sock_activation_idle_buffer ?s" by (simp add: s1_def split: option.split)
  moreover have "\<exists>k. sock_activation_idle_buffer s2 = drop k (sock_activation_idle_buffer s1)"
    using r d [of s1 s2] unfolding Let_def s1_def [symmetric] by (cases "sock_record_buffer s1 = []") (auto intro: exI [of _ 0])
  ultimately have "\<exists>k. sock_activation_idle_buffer s2 = drop k (sock_activation_idle_buffer ?s)" by simp
  moreover have "sock_activation_idle_buffer s3 = sock_activation_idle_buffer s2" using s(2)
    by (auto simp: CPUSocket_refresh_stats_def CPUSocket_clean_old_stats_def bind_res_eq_Inr Let_def split: if_splits)
  moreover have "sock_activation_idle_buffer s' = sock_activation_idle_buffer s3"
    using s(3) by (auto simp: refresh_domains_def map_res_def bind_res_eq_Inr)
  ultimately show ?thesis unfolding b by simp
qed

lemma take_records_empty:
  "topo_activation_idle_buffer t = [] \<Longrightarrow> take_records ids t = (rs, t') \<Longrightarrow> t' = t \<and> list_all (\<lambda>r. r = []) rs"
proof (induction ids arbitrary: rs t')
  case (Cons i ids)
  have g: "get_activation_idle_records i t = ([], t)" using Cons.prems(1) by (simp add: get_activation_idle_records_def)
  obtain rs' u where u: "take_records ids t = (rs', u)" by fastforce
  show ?case using Cons.IH [OF Cons.prems(1) u] Cons.prems(2) by (auto simp: g u)
qed simp

lemma refresh_idle:
  assumes "Topology_refresh rsz mrsz ssz w t = Inr t'"
  shows "topo_cpu_state_buffer t' = topo_cpu_state_buffer t"
    and "\<not> topo_cpu_state_buffer t \<and> topo_activation_idle_buffer t = [] \<Longrightarrow> topo_activation_idle_buffer t' = []"
    and "s' \<in> set (topo_sockets t') \<Longrightarrow> \<exists>s \<in> set (topo_sockets t). \<exists>e records k.
      sock_activation_idle_buffer s' = drop k (sock_activation_idle_buffer (CPUSocket_refresh_activation_idle_records e records s)) \<and>
      (\<not> topo_cpu_state_buffer t \<and> topo_activation_idle_buffer t = [] \<longrightarrow> records = [])"
proof -
  obtain rs b t2 t3 t4 t5 where
    s: "take_records (map sock_id (topo_sockets t)) (Topology_refresh_activation_idle_records (w [0]) t) =
       (rs, t\<lparr>topo_activation_idle_buffer := b\<rparr>)"
      "refresh_sockets rsz mrsz ssz (sub_world 1 w) rs (t\<lparr>topo_activation_idle_buffer := b\<rparr>) = Inr t2"
      "refresh_core_idle_records mrsz (sub_world 3 w) (t2\<lparr>topo_proc_tracker := ProcessTracker_refresh (w [2]) (topo_proc_tracker t2)\<rparr>) = Inr t3"
      "refresh_procs (sub_world 4 w) t3 = Inr t4"
      "Topology_refresh_record rsz (sub_world 6 w) (refresh_cpu_time_record mrsz (w [5]) t4) = Inr t5"
      "Topology_refresh_stats ssz (w [7]) t5 = Inr t'"
    by (rule refresh_stages [OF assms])
  let ?deaf = "\<not> topo_cpu_state_buffer t \<and> topo_activation_idle_buffer t = []"
  let ?k = "\<lambda>t. (topo_cpu_state_buffer t, topo_activation_idle_buffer t)"
  have deaf: "b = [] \<and> list_all (\<lambda>r. r = []) rs" if ?deaf
  proof -
    have "Topology_refresh_activation_idle_records (w [0]) t = t" using that by (simp add: Topology_refresh_activation_idle_records_def)
    then have e: "t\<lparr>topo_activation_idle_buffer := b\<rparr> = t" "list_all (\<lambda>r. r = []) rs" using take_records_empty [of t] s(1) that by metis+
    have "topo_activation_idle_buffer (t\<lparr>topo_activation_idle_buffer := b\<rparr>) = b" by simp
    then show ?thesis using that e by metis
  qed
  have k5: "?k t5 = ?k t4" "topo_sockets t5 = topo_sockets t4" using s(5)
    by (auto simp: Topology_refresh_record_def Topology_clean_old_records_def refresh_cpu_time_record_def
        clean_old_cpu_time_records_def Let_def bind_res_eq_Inr split: option.splits if_splits)
  have k6: "?k t' = ?k t5" "topo_sockets t' = topo_sockets t5" using s(6)
    by (auto simp: Topology_refresh_stats_def Topology_clean_old_stats_def Let_def bind_res_eq_Inr split: option.splits if_splits)
  have k4: "?k t4 = ?k t3" "topo_sockets t4 = topo_sockets t3" using s(4) by (auto simp: refresh_procs_def Let_def bind_res_eq_Inr)
  obtain ss where ss: "traverse_res (\<lambda>(i, s, records). refresh_socket rsz mrsz ssz (sub_world i (sub_world 1 w)) records s)
      (enumerate 0 (zip (topo_sockets t) rs)) = Inr ss" "t2 = t\<lparr>topo_activation_idle_buffer := b, topo_sockets := ss\<rparr>"
    using s(2) by (auto simp: refresh_sockets_def map_res_def bind_res_eq_Inr)
  obtain ss' where ss': "traverse_res (\<lambda>(i, s). map_res (\<lambda>cores. s\<lparr>sock_cpu_cores := cores\<rparr>)
        (traverse_res (\<lambda>(j, c). CPUCore_refresh_record mrsz (sub_world 3 w [i, j]) c) (enumerate 0 (sock_cpu_cores s))))
      (enumerate 0 ss) = Inr ss'" "?k t3 = (topo_cpu_state_buffer t, b)" "topo_sockets t3 = ss'"
    using s(3) by (auto simp: refresh_core_idle_records_def map_res_def bind_res_eq_Inr ss(2))
  show "topo_cpu_state_buffer t' = topo_cpu_state_buffer t" "?deaf \<Longrightarrow> topo_activation_idle_buffer t' = []"
    using k4(1) k5(1) k6(1) ss'(2) deaf by auto
  assume "s' \<in> set (topo_sockets t')"
  then have mem: "s' \<in> set ss'" using k4(2) k5(2) k6(2) ss'(3) by simp
  obtain i s1 cs where x: "(i, s1) \<in> set (enumerate 0 ss)" "s' = s1\<lparr>sock_cpu_cores := cs\<rparr>"
    using traverse_res_set [OF ss'(1) mem] by (auto simp: map_res_def bind_res_eq_Inr)
  have "s1 \<in> set ss" using snd_enumerate [OF x(1)] by simp
  then obtain j s0 r where y: "(j, s0, r) \<in> set (enumerate 0 (zip (topo_sockets t) rs))"
    "refresh_socket rsz mrsz ssz (sub_world j (sub_world 1 w)) r s0 = Inr s1" using traverse_res_set [OF ss(1)] by fastforce
  have "s0 \<in> set (topo_sockets t)" "r \<in> set rs" using snd_enumerate [OF y(1)] by (auto dest: set_zip_leftD set_zip_rightD)
  then show "\<exists>s \<in> set (topo_sockets t). \<exists>e records k.
      sock_activation_idle_buffer s' = drop k (sock_activation_idle_buffer (CPUSocket_refresh_activation_idle_records e records s)) \<and>
      (?deaf \<longrightarrow> records = [])"
    using refresh_socket_idle [OF y(2)] deaf x(2) by (auto simp: list_all_iff intro!: bexI [of _ s0])
qed

lemma refresh_frame:
  assumes "Topology_refresh rsz mrsz ssz w t = Inr t'"
  shows "pt_sysinfo (topo_proc_tracker t') =
      e_refresh_processes (w [4, 0]) (e_refresh_system (w [2]) (pt_sysinfo (topo_proc_tracker t))) \<and>
    topo_cpu_time_map t' = topo_cpu_time_map t \<and>
    (topo_cpu_time_map t \<or> topo_cpu_time_buffer t' = topo_cpu_time_buffer t)"
proof (rule refresh_tracker [OF assms])
  fix t3 t4
  assume "refresh_procs (sub_world 4 w) t3 = Inr t4" "topo_proc_tracker t3 = ProcessTracker_refresh (w [2]) (topo_proc_tracker t)"
    "topo_proc_tracker t' = topo_proc_tracker t4" "topo_cpu_time_map t' = topo_cpu_time_map t"
    "topo_cpu_time_map t \<or> topo_cpu_time_buffer t' = topo_cpu_time_buffer t"
  then show ?thesis using refresh_procs_frame [of "sub_world 4 w" t3 t4] by (simp add: ProcessTracker_refresh_def sub_world_def)
qed

section \<open>Cloned topologies and cleaned trackers stay well formed\<close>

lemma clone_wf:
  assumes "topology_wf rsz mrsz ssz n now t"
  shows "topology_wf rsz mrsz ssz n now (Topology_clone e t)"
proof -
  have c: "core_wf mrsz n (CPUCore_clone c) = core_wf mrsz n c" for c by (simp add: core_wf_def CPUCore_clone_def)
  have "socket_wf rsz mrsz ssz n (CPUSocket_clone s) = socket_wf rsz mrsz ssz n s" for s
    by (simp add: socket_wf_def CPUSocket_clone_def list_all_iff c)
  moreover have "sock_id (CPUSocket_clone s) = sock_id s" for s by (simp add: CPUSocket_clone_def)
  ultimately show ?thesis using assms
    by (simp add: topology_wf_def Topology_clone_def list_all_iff ProcessTracker_clone_def tracker_inv_def
        records_until_def get_all_pids_def comp_def)
qed

lemma clean_terminated_frame:
  "pt_sysinfo (clean_terminated_process_records_vectors pt) = pt_sysinfo pt"
  "pt_max_records_per_process (clean_terminated_process_records_vectors pt) = pt_max_records_per_process pt"
  by (simp_all add: clean_terminated_process_records_vectors_def drop_empty_process_records_vectors_def)

lemma clean_terminated_vectors:
  assumes "v \<in> set (pt_procs (clean_terminated_process_records_vectors pt))"
  shows "v = [] \<or> v \<in> set (pt_procs pt)"
proof (cases "v = []")
  case False
  then have "v \<in> set (filter (\<lambda>v. v \<noteq> []) (pt_procs (clean_terminated_process_records_vectors pt)))" using assms by simp
  then show ?thesis unfolding clean_terminated_filter by simp
qed simp

lemma clean_terminated_inv:
  assumes "tracker_inv pt" "records_until now pt"
  shows "tracker_inv (clean_terminated_process_records_vectors pt)" "records_until now (clean_terminated_process_records_vectors pt)"
proof -
  have "get_all_pids (clean_terminated_process_records_vectors pt) =
      map (\<lambda>x. ip_pid (pr_process (hd x))) (filter (\<lambda>v. v \<noteq> [] \<and> still_tracked pt (ip_pid (pr_process (hd v)))) (pt_procs pt))"
    by (simp add: get_all_pids_def clean_terminated_filter)
  moreover have "filter (\<lambda>v. v \<noteq> [] \<and> still_tracked pt (ip_pid (pr_process (hd v)))) (pt_procs pt) =
      filter (\<lambda>v. still_tracked pt (ip_pid (pr_process (hd v)))) (filter (\<lambda>v. v \<noteq> []) (pt_procs pt))"
    by (simp only: filter_filter)
  ultimately have "distinct (get_all_pids (clean_terminated_process_records_vectors pt))"
    using assms(1) by (simp only: tracker_inv_def get_all_pids_def distinct_map_filter)
  moreover have "history_ok mx []" for mx by (simp add: history_ok_def)
  ultimately show "tracker_inv (clean_terminated_process_records_vectors pt)"
    using assms(1) clean_terminated_vectors [of _ pt] by (auto simp: tracker_inv_def clean_terminated_frame)
  show "records_until now (clean_terminated_process_records_vectors pt)"
    using assms(2) clean_terminated_vectors [of _ pt] by (fastforce simp: records_until_def)
qed

end
