(* ===== verification/Topology_Power.thy ===== *)
theory Topology_Power
  imports Topology_Refresh
begin

text \<open>
  What a topology answers (\<open>sensors/mod.rs\<close>, the getters of \<open>Topology\<close>): the background and the net
  power of the host, the power of every core, the metrics of a process and its share of the power
  of the cores, and the figures of the operating system.
\<close>

section \<open>Power of the host\<close>

definition Topology_get_idle_power_microwatts :: "env \<Rightarrow> Topology \<Rightarrow> Record option" where
  "Topology_get_idle_power_microwatts e t =
     (let tot = fold (\<lambda>s tot. tot + value_u64_or_0 (CPUSocket_get_idle_power_microwatts e s)) (topo_sockets t) 0
      in Some (Record_new (current_system_time_since_epoch e) (show_u64 tot) MicroWatt))"

definition Topology_get_activation_power_microwatts :: "env \<Rightarrow> Topology \<Rightarrow> Record option" where
  "Topology_get_activation_power_microwatts e t =
     (let tot = fold (\<lambda>s tot. tot + value_u64_or_0 (CPUSocket_get_activation_power_microwatts e s)) (topo_sockets t) 0
      in Some (Record_new (current_system_time_since_epoch e) (show_u64 tot) MicroWatt))"

definition Topology_get_background_power_microwatts :: "env \<Rightarrow> Topology \<Rightarrow> Record option" where
  "Topology_get_background_power_microwatts e t =
     (let idle = value_u64_or_0 (Topology_get_idle_power_microwatts e t);
          activation = value_u64_or_0 (Topology_get_activation_power_microwatts e t)
      in Some (Record_new (current_system_time_since_epoch e) (show_u64 (max idle activation)) MicroWatt))"

definition parse_unwrap :: "'a option \<Rightarrow> 'a res" where
  "parse_unwrap m = (case m of None \<Rightarrow> Inl Unwrap_Err | Some x \<Rightarrow> Inr x)"

definition Topology_get_records_diff :: "Topology \<Rightarrow> Record option res" where
  "Topology_get_records_diff t =
     (let len = length (topo_record_buffer t)
      in if len > 2 then
           let last_r = last (topo_record_buffer t); previous = topo_record_buffer t ! (len - 2)
           in bind_res (parse_unwrap (parse_u64 (rec_value last_r))) (\<lambda>last_value.
              bind_res (parse_unwrap (parse_u64 (rec_value previous))) (\<lambda>previous_value.
                Inr (if previous_value \<le> last_value
                     then Some (Record_new (timestamp last_r) (show_u64 (last_value - previous_value)) (rec_unit last_r))
                     else None)))
         else Inr None)"

definition Topology_get_records_diff_power_microwatts :: "env \<Rightarrow> Topology \<Rightarrow> Record option" where
  "Topology_get_records_diff_power_microwatts e t =
     (case last_two (topo_record_buffer t) of
        None \<Rightarrow> None
      | Some (previous_record, last_record) \<Rightarrow>
          let background_conso = value_u64_or_0 (Topology_get_background_power_microwatts e t)
          in (case parse_u128 (trim (rec_value previous_record)) of
                None \<Rightarrow> None
              | Some previous_microjoules \<Rightarrow>
                  (case parse_u128 (trim (rec_value last_record)) of
                     None \<Rightarrow> None
                   | Some last_microjoules \<Rightarrow>
                       if previous_microjoules > last_microjoules then None
                       else
                         let microjoules = last_microjoules - previous_microjoules;
                             time_diff = f64_sub (as_secs_f64 (timestamp last_record))
                                           (as_secs_f64 (timestamp previous_record));
                             microwatts = f64_div (f_of_nat f64_format microjoules) time_diff
                         in Some (Record_new (timestamp last_record)
                              (show_u64 (saturating_sub (f64_as_u64 microwatts) background_conso)) MicroWatt))))"

section \<open>Figures of the operating system\<close>

definition read_nb_process_total_count :: "env \<Rightarrow> u64 option" where
  "read_nb_process_total_count e = map_option ks_processes (e_kernel_stats e)"

definition read_nb_process_running_current :: "env \<Rightarrow> u32 option" where
  "read_nb_process_running_current e = Option.bind (e_kernel_stats e) ks_procs_running"

definition read_nb_process_blocked_current :: "env \<Rightarrow> u32 option" where
  "read_nb_process_blocked_current e = Option.bind (e_kernel_stats e) ks_procs_blocked"

definition read_nb_context_switches_total_count :: "env \<Rightarrow> u64 option" where
  "read_nb_context_switches_total_count e = map_option ks_ctxt (e_kernel_stats e)"

definition Topology_get_cpu_frequency :: "env \<Rightarrow> Topology \<Rightarrow> Record" where
  "Topology_get_cpu_frequency e t =
     Record_new (current_system_time_since_epoch e) (show_u64 (get_cpu_frequency (topo_proc_tracker t))) MegaHertz"

definition get_load_avg :: "env \<Rightarrow> Topology \<Rightarrow> Record list option" where
  "get_load_avg e t =
     (let load = pt_sysinfo (topo_proc_tracker t); ts = current_system_time_since_epoch e
      in Some [Record_new ts (show_f64 (sys_load_one load)) Numeric,
               Record_new ts (show_f64 (sys_load_five load)) Numeric,
               Record_new ts (show_f64 (sys_load_five load)) Numeric])"

text \<open>A metric of a map: its description, its attributes and its record.\<close>

definition insert_some :: "string \<Rightarrow> string option \<Rightarrow> (string, string) hmap \<Rightarrow> (string, string) hmap" where
  "insert_some k v m = (case v of Some x \<Rightarrow> hm_insert k x m | None \<Rightarrow> m)"

definition show_bool :: "bool \<Rightarrow> string" where
  "show_bool b = (if b then ''true'' else ''false'')"

definition disk_attributes :: "Disk \<Rightarrow> (string, string) hmap" where
  "disk_attributes d =
     insert_some ''disk_name'' (disk_name d)
       (hm_insert ''disk_is_removable'' (show_bool (disk_is_removable d))
         (hm_insert ''disk_type'' (case disk_type d of SSD \<Rightarrow> ''SSD'' | HDD \<Rightarrow> ''HDD'' | Unknown \<Rightarrow> ''Unknown'')
           (insert_some ''disk_mount_point'' (disk_mount_point d)
             (insert_some ''disk_file_system'' (disk_file_system d) []))))"

definition get_disks :: "env \<Rightarrow> Topology \<Rightarrow> (string, string \<times> (string, string) hmap \<times> Record) hmap" where
  "get_disks e t =
     (let ts = current_system_time_since_epoch e
      in fold (\<lambda>d res.
           let attributes = disk_attributes d
           in hm_insert ''scaph_host_disk_available_bytes''
                (''Available disk space, in bytes.'', attributes,
                 Record_new ts (show_u64 (disk_available_space d)) Bytes)
                (hm_insert ''scaph_host_disk_total_bytes''
                  (''Total disk size, in bytes.'', attributes,
                   Record_new ts (show_u64 (disk_total_space d)) Bytes) res))
         (sys_disks (pt_sysinfo (topo_proc_tracker t))) [])"

definition memory_record :: "(System \<Rightarrow> u64) \<Rightarrow> env \<Rightarrow> Topology \<Rightarrow> Record" where
  "memory_record f e t =
     \<lparr>timestamp = current_system_time_since_epoch e,
      rec_value = show_u64 (f (pt_sysinfo (topo_proc_tracker t))), rec_unit = Bytes\<rparr>"

definition get_total_memory_bytes :: "env \<Rightarrow> Topology \<Rightarrow> Record" where
  "get_total_memory_bytes = memory_record sys_total_memory"

definition get_available_memory_bytes :: "env \<Rightarrow> Topology \<Rightarrow> Record" where
  "get_available_memory_bytes = memory_record sys_available_memory"

definition get_free_memory_bytes :: "env \<Rightarrow> Topology \<Rightarrow> Record" where
  "get_free_memory_bytes = memory_record sys_free_memory"

definition get_total_swap_bytes :: "env \<Rightarrow> Topology \<Rightarrow> Record" where
  "get_total_swap_bytes = memory_record sys_total_swap"

definition get_free_swap_bytes :: "env \<Rightarrow> Topology \<Rightarrow> Record" where
  "get_free_swap_bytes = memory_record sys_free_swap"

section \<open>Cores\<close>

definition Topology_get_cores :: "Topology \<Rightarrow> CPUCore list" where
  "Topology_get_cores t = sort_by_key core_id (concat (map CPUSocket_get_cores (topo_sockets t)))"

fun socket_core_powers :: "world \<Rightarrow> nat \<Rightarrow> CPUSocket list \<Rightarrow> (u16 \<times> string) list option" where
  "socket_core_powers w i [] = Some []"
| "socket_core_powers w i (s # ss) =
     Option.bind (CPUSocket_get_proportional_core_diff_power_microwatts (w [i]) s) (\<lambda>r.
     Option.bind (socket_core_powers w (Suc i) ss) (\<lambda>rest.
       Some (zip (map core_id (CPUSocket_get_cores s)) (mv_values r) @ rest)))"

definition Topology_get_proportional_core_diff_power_microwatts :: "world \<Rightarrow> Topology \<Rightarrow> MultiValuedRecord option" where
  "Topology_get_proportional_core_diff_power_microwatts w t =
     Option.bind (socket_core_powers (sub_world 0 w) 0 (topo_sockets t)) (\<lambda>v.
       let v = sort_by_key fst v
       in Some (MultiValuedRecord_new (current_system_time_since_epoch (w [1])) (map snd v) (map (\<lambda>_. MicroWatt) v)))"

definition Topology_get_core_coefs :: "Topology \<Rightarrow> f64 list" where
  "Topology_get_core_coefs t =
     map snd (sort_by_key fst
       (concat (map (\<lambda>s. zip (map core_id (CPUSocket_get_cores s)) (CPUSocket_get_core_coefs s)) (topo_sockets t))))"

definition Topology_get_core_proportions :: "Topology \<Rightarrow> f64 list" where
  "Topology_get_core_proportions t = proportions_of (Topology_get_core_coefs t)"

section \<open>Processes\<close>

definition get_process_record ::
  "(Topology \<Rightarrow> ProcessRecord \<Rightarrow> string) \<Rightarrow> Unit \<Rightarrow> Topology \<Rightarrow> Pid \<Rightarrow> Record option" where
  "get_process_record f u t pid =
     (case get_process_last_record (topo_proc_tracker t) pid of
        Some r \<Rightarrow> Some (Record_new (pr_timestamp r) (f t r) u)
      | None \<Rightarrow> None)"

definition get_process_cpu_usage_percentage :: "Topology \<Rightarrow> Pid \<Rightarrow> Record option" where
  "get_process_cpu_usage_percentage =
     get_process_record (\<lambda>t r. show_f f32_format (f32_div (ip_cpu_usage_percentage (pr_process r))
       (f_of_nat f32_format (pt_nb_cores (topo_proc_tracker t))))) Percentage"

definition get_process_memory_virtual_bytes :: "Topology \<Rightarrow> Pid \<Rightarrow> Record option" where
  "get_process_memory_virtual_bytes = get_process_record (\<lambda>_ r. show_u64 (ip_virtual_memory (pr_process r))) Bytes"

definition get_process_memory_bytes :: "Topology \<Rightarrow> Pid \<Rightarrow> Record option" where
  "get_process_memory_bytes = get_process_record (\<lambda>_ r. show_u64 (ip_memory (pr_process r))) Bytes"

definition get_process_disk_written_bytes :: "Topology \<Rightarrow> Pid \<Rightarrow> Record option" where
  "get_process_disk_written_bytes = get_process_record (\<lambda>_ r. show_u64 (ip_disk_written (pr_process r))) Bytes"

definition get_process_disk_read_bytes :: "Topology \<Rightarrow> Pid \<Rightarrow> Record option" where
  "get_process_disk_read_bytes = get_process_record (\<lambda>_ r. show_u64 (ip_disk_read (pr_process r))) Bytes"

definition get_process_disk_total_read_bytes :: "Topology \<Rightarrow> Pid \<Rightarrow> Record option" where
  "get_process_disk_total_read_bytes = get_process_record (\<lambda>_ r. show_u64 (ip_total_disk_read (pr_process r))) Bytes"

definition get_process_disk_total_write_bytes :: "Topology \<Rightarrow> Pid \<Rightarrow> Record option" where
  "get_process_disk_total_write_bytes = get_process_record (\<lambda>_ r. show_u64 (ip_total_disk_written (pr_process r))) Bytes"

definition get_process_power_consumption_microwatts :: "env \<Rightarrow> Topology \<Rightarrow> Pid \<Rightarrow> Record option res" where
  "get_process_power_consumption_microwatts e t pid =
     (case get_process_last_record (topo_proc_tracker t) pid of
        None \<Rightarrow> Inr None
      | Some r \<Rightarrow>
          bind_res (unwrap_opt (get_process_cpu_usage_percentage t pid)) (\<lambda>process_cpu_percentage.
            case Topology_get_records_diff_power_microwatts e t of
              None \<Rightarrow> Inr None
            | Some conso \<Rightarrow>
                bind_res (parse_unwrap (parse_f64 (rec_value conso))) (\<lambda>conso_f64.
                bind_res (parse_unwrap (parse_f64 (rec_value process_cpu_percentage))) (\<lambda>percentage.
                  Inr (Some (Record_new (pr_timestamp r)
                    (show_f64 (f64_div (f64_mul conso_f64 percentage) (f64_lit 100))) MicroWatt))))))"

text \<open>
  \<open>get_process_core_time_data\<close>: per core the time of the process, the time of the core and their
  quotient, at most one; the time of the process is looked up by the number of the core and the
  lookup panics when the eBPF map has fewer entries.
\<close>

definition total_ns_of :: "MultiValuedRecord \<Rightarrow> CPUCore \<Rightarrow> u64" where
  "total_ns_of diff c = or_zero (Option.bind (get_vec (mv_values diff) (unat (core_id c))) parse_u64)"

definition core_share :: "u64 \<Rightarrow> u64 \<Rightarrow> f64" where
  "core_share proc_ns total_ns =
     (if total_ns > 0 then fmin (f64_div (u64_as_f64 proc_ns) (u64_as_f64 total_ns)) (f64_lit 1) else f_zero)"

definition get_process_core_time_data :: "Topology \<Rightarrow> Pid \<Rightarrow> (u64 list \<times> u64 list \<times> f64 list) option res" where
  "get_process_core_time_data t pid =
     (let cores = Topology_get_cores t
      in case get_per_core_cpu_time_delta (topo_proc_tracker t) pid of
           None \<Rightarrow> Inr None
         | Some core_time_deltas \<Rightarrow>
             (case get_cpu_time_diff t of
                None \<Rightarrow> Inr None
              | Some cpu_time_diff \<Rightarrow>
                  let total_ns = map (total_ns_of cpu_time_diff) cores
                  in bind_res (traverse_res (\<lambda>(c, tot).
                         if tot > 0 then map_res (\<lambda>d. core_share d tot) (index_vec core_time_deltas (unat (core_id c)))
                         else Inr f_zero) (zip cores total_ns)) (\<lambda>proportions.
                     bind_res (traverse_res (\<lambda>c. index_vec core_time_deltas (unat (core_id c))) cores) (\<lambda>proc_ns.
                       Inr (Some (proc_ns, total_ns, proportions))))))"

definition get_process_core_proportions :: "Topology \<Rightarrow> Pid \<Rightarrow> f64 list option res" where
  "get_process_core_proportions t pid =
     bind_res (get_process_core_time_data t pid) (\<lambda>data.
       case data of
         Some (_, _, proportions) \<Rightarrow> Inr (Some proportions)
       | None \<Rightarrow>
           (let cores_metrics = map get_core_metrics_delta (Topology_get_cores t)
            in Inr (case get_process_cpu_time_delta_as_percentage (topo_proc_tracker t) pid of
                 None \<Rightarrow> None
               | Some process_cpu_percentage \<Rightarrow>
                   Some (map (\<lambda>m. case m of
                       Some m \<Rightarrow> f64_mul (f64_div process_cpu_percentage (f64_lit 100))
                                   (f64_div (cm_cpu_time_percentage m) (f64_lit 100))
                     | None \<Rightarrow> f_zero) cores_metrics))))"

text \<open>The power of a process: the powers of the cores, each times the share of the process on it.\<close>

definition f64_or_0 :: "string \<Rightarrow> f64" where
  "f64_or_0 s = (case parse_f64 s of Some v \<Rightarrow> v | None \<Rightarrow> f_zero)"

definition process_power :: "string list \<Rightarrow> f64 list \<Rightarrow> f64 res" where
  "process_power powers core_percentages =
     map_res f64_sum (traverse_res (\<lambda>(i, conso).
       map_res (\<lambda>percentage. f64_mul (f64_or_0 conso) percentage)
         (index_vec core_percentages i)) (enumerate 0 powers))"

type_synonym process_metrics = "(string, string \<times> Record) hmap"

definition usage_metrics :: "ProcessRecord \<Rightarrow> f64 \<Rightarrow> process_metrics \<Rightarrow> process_metrics" where
  "usage_metrics r process_cpu_percentage res =
     (let p = pr_process r; ts = pr_timestamp r;
          res = hm_insert ''scaph_process_cpu_usage_percentage''
            (''CPU time consumed by the process, as a percentage of the capacity of all the CPU Cores'',
             Record_new ts (show_f64 process_cpu_percentage) Percentage) res;
          res = hm_insert ''scaph_process_memory_virtual_bytes''
            (''Virtual RAM usage by the process, in bytes'', Record_new ts (show_u64 (ip_virtual_memory p)) Percentage) res;
          res = hm_insert ''scaph_process_memory_bytes''
            (''Physical RAM usage by the process, in bytes'', Record_new ts (show_u64 (ip_memory p)) Bytes) res;
          res = hm_insert ''scaph_process_disk_write_bytes''
            (''Data written on disk by the process, in bytes'', Record_new ts (show_u64 (ip_disk_written p)) Bytes) res;
          res = hm_insert ''scaph_process_disk_read_bytes''
            (''Data read on disk by the process, in bytes'', Record_new ts (show_u64 (ip_disk_read p)) Bytes) res;
          res = hm_insert ''scaph_process_disk_total_write_bytes''
            (''Total data written on disk by the process, in bytes'', Record_new ts (show_u64 (ip_total_disk_written p)) Bytes) res
      in hm_insert ''scaph_process_disk_total_read_bytes''
            (''Total data read on disk by the process, in bytes'', Record_new ts (show_u64 (ip_total_disk_read p)) Bytes) res)"

definition core_time_metrics :: "ProcessRecord \<Rightarrow> u64 list \<times> u64 list \<times> f64 list \<Rightarrow> process_metrics \<Rightarrow> process_metrics" where
  "core_time_metrics r data res =
     (let (proc_ns, total_ns, proportions) = data; ts = pr_timestamp r;
          res = hm_insert ''scaph_process_core_time_ns''
            (''Per-core process busy time delta in nanoseconds (CSV, indexed by logical CPU)'',
             Record_new ts (join '','' (map show_u64 proc_ns)) Numeric) res;
          res = hm_insert ''scaph_process_core_total_time_ns''
            (''Per-core total CPU busy time delta in nanoseconds (CSV, indexed by logical CPU)'',
             Record_new ts (join '','' (map show_u64 total_ns)) Numeric) res
      in hm_insert ''scaph_process_core_proportion''
            (''Per-core fraction of CPU time used by this process (CSV, indexed by logical CPU)'',
             Record_new ts (join '','' (map show_f64 proportions)) Numeric) res)"

definition power_metrics ::
  "world \<Rightarrow> Topology \<Rightarrow> ProcessRecord \<Rightarrow> (u64 list \<times> u64 list \<times> f64 list) option \<Rightarrow> f64 list option \<Rightarrow>
   process_metrics \<Rightarrow> process_metrics res"
where
  "power_metrics w t r ebpf_core_data core_percentages res =
     (case core_percentages of
        None \<Rightarrow> Inr res
      | Some percentages \<Rightarrow>
          bind_res (case Topology_get_proportional_core_diff_power_microwatts w t of
              Some mv \<Rightarrow> process_power (mv_values mv) percentages
            | None \<Rightarrow> Inr f_zero) (\<lambda>result.
            let res = hm_insert ''scaph_process_power_consumption_microwatts''
                  (''Total data read on disk by the process, in bytes'',
                   Record_new (pr_timestamp r) (show_f64 result) MicroWatt) res
            in Inr (case ebpf_core_data of Some data \<Rightarrow> core_time_metrics r data res | None \<Rightarrow> res)))"

definition get_all_per_process :: "world \<Rightarrow> Topology \<Rightarrow> Pid \<Rightarrow> process_metrics option res" where
  "get_all_per_process w t pid =
     (case get_process_last_record (topo_proc_tracker t) pid of
        None \<Rightarrow> Inr (Some [])
      | Some r \<Rightarrow>
          bind_res (get_process_core_time_data t pid) (\<lambda>ebpf_core_data.
          bind_res (get_process_core_proportions t pid) (\<lambda>core_percentages.
            let res = (case get_process_cpu_time_delta_as_percentage (topo_proc_tracker t) pid of
                         Some pct \<Rightarrow> usage_metrics r pct []
                       | None \<Rightarrow> [])
            in map_res Some (power_metrics w t r ebpf_core_data core_percentages res))))"

section \<open>Net power of the host\<close>




section \<open>Cores and their powers\<close>

lemma map_insort_key: "map f (insort_key f x xs) = insort (f x) (map f xs)"
  by (induction xs) auto

lemma map_sort_key: "map f (sort_key f xs) = sort (map f xs)"
  by (induction xs) (simp_all add: map_insort_key)

lemma length_CPUSocket_powers:
  "CPUSocket_get_proportional_core_diff_power_microwatts e s = Some r \<Longrightarrow>
   length (mv_values r) = length (CPUSocket_get_cores s)"
  by (auto simp: CPUSocket_get_proportional_core_diff_power_microwatts_def MultiValuedRecord_new_def Let_def
      CPUSocket_get_core_proportions_def CPUSocket_get_core_coefs_def proportions_of_def split: option.splits)

lemma socket_core_powers_ids:
  "socket_core_powers w i ss = Some v \<Longrightarrow> map fst v = map core_id (concat (map CPUSocket_get_cores ss))"
proof (induction ss arbitrary: i v)
  case (Cons s ss)
  then obtain r rest where r: "CPUSocket_get_proportional_core_diff_power_microwatts (w [i]) s = Some r"
    "socket_core_powers w (Suc i) ss = Some rest" "v = zip (map core_id (CPUSocket_get_cores s)) (mv_values r) @ rest"
    by (auto simp: bind_eq_Some_conv)
  then show ?case using Cons.IH [OF r(2)] length_CPUSocket_powers [OF r(1)] by (simp add: r(3))
qed simp

lemma core_powers_ids:
  assumes "socket_core_powers w 0 (topo_sockets t) = Some v"
  shows "map fst (sort_by_key fst v) = map core_id (Topology_get_cores t)"
  using socket_core_powers_ids [OF assms] by (simp add: map_sort_key Topology_get_cores_def)

lemma length_core_powers:
  assumes "Topology_get_proportional_core_diff_power_microwatts w t = Some r"
  shows "length (mv_values r) = length (Topology_get_cores t)"
proof -
  obtain v where v: "socket_core_powers (sub_world 0 w) 0 (topo_sockets t) = Some v"
    "mv_values r = map snd (sort_by_key fst v)"
    using assms by (auto simp: Topology_get_proportional_core_diff_power_microwatts_def bind_eq_Some_conv
        MultiValuedRecord_new_def Let_def)
  then show ?thesis using arg_cong [OF core_powers_ids [OF v(1)], of length] by simp
qed

text \<open>
  The powers of the cores of the host line up with its cores: when every socket has a value, there
  is one value per core, the identifiers of the cores increase along the list, and the value at a
  position was computed by the socket for the core with the identifier of that position.
\<close>

theorem core_powers_aligned:
  assumes "Topology_get_proportional_core_diff_power_microwatts w t = Some r"
  shows "\<exists>v. socket_core_powers (sub_world 0 w) 0 (topo_sockets t) = Some v \<and>
    mset (zip (map core_id (Topology_get_cores t)) (mv_values r)) = mset v \<and>
    length (mv_values r) = length (Topology_get_cores t) \<and>
    sorted (map core_id (Topology_get_cores t))"
proof -
  obtain v where v: "socket_core_powers (sub_world 0 w) 0 (topo_sockets t) = Some v"
    "mv_values r = map snd (sort_by_key fst v)"
    using assms by (auto simp: Topology_get_proportional_core_diff_power_microwatts_def bind_eq_Some_conv
        MultiValuedRecord_new_def Let_def)
  have "zip (map core_id (Topology_get_cores t)) (mv_values r) = sort_by_key fst v"
    using core_powers_ids [OF v(1)] v(2) by (metis zip_map_fst_snd)
  then show ?thesis using v(1) length_core_powers [OF assms] by (simp add: Topology_get_cores_def)
qed

section \<open>Busy time\<close>

text \<open>
  The busy time of a CPU between two samples of its 64-bit counter is exact as long as the counter
  does not wrap around, and one nanosecond short when it does.
\<close>

theorem cpu_time_delta_of_counter:
  "cpu_time_delta (show_u64 (a + d)) (show_u64 a) = (if a \<le> a + d then d else d - 1)"
  by (simp add: cpu_time_delta_def Let_def u64_max_def)

section \<open>Power of a process\<close>

lemma f64_lit_1: "f64_lit 1 = Fin False 1"
  using f64_exact [of 1] by (simp add: f_of_nat_def)

lemma core_share_share: "share (core_share p n)"
proof (cases "n = 0")
  case False
  have one: "representable f64_format 1" using representable_of_int [of 1 f64_format] by simp
  obtain s x where a: "u64_as_f64 p = Fin s x" "0 \<le> x" using u64_as_f64_fin(1) [of p] by (cases "u64_as_f64 p") auto
  obtain t y where b: "u64_as_f64 n = Fin t y" "1 \<le> y"
    using u64_as_f64_fin(1) [of n] u64_as_f64_pos [OF False] by (cases "u64_as_f64 n") auto
  have nn: "0 \<le> x / y" using a b by simp
  have q: "f64_div (u64_as_f64 p) (u64_as_f64 n) = fl f64_format (s \<noteq> t) (x / y)" using a b by simp
  have "core_share p n = fmin (fl f64_format (s \<noteq> t) (x / y)) (Fin False 1)"
    using False by (simp add: core_share_def q f64_lit_1 word_gt_0)
  moreover have "share (fmin (fl f64_format (s \<noteq> t) (x / y)) (Fin False 1))"
    using nn by (rule fl_nonneg_cases [where fmt = f64_format and s = "s \<noteq> t"])
      (use one in \<open>simp_all add: fmin_def share_def rnd_representable\<close>)
  ultimately show ?thesis by simp
qed (auto simp: core_share_def share_def representable_def intro!: exI [of _ 0])

lemma core_time_data_cases:
  assumes "get_per_core_cpu_time_delta (topo_proc_tracker t) pid = Some ds" "get_cpu_time_diff t = Some diff"
  shows "get_process_core_time_data t pid =
    (if \<exists>c \<in> set (Topology_get_cores t). length ds \<le> unat (core_id c) then Inl Index_Out_Of_Bounds
     else Inr (Some (map (\<lambda>c. ds ! unat (core_id c)) (Topology_get_cores t),
            map (total_ns_of diff) (Topology_get_cores t),
            map (\<lambda>c. core_share (ds ! unat (core_id c)) (total_ns_of diff c)) (Topology_get_cores t))))"
proof -
  let ?bad = "\<lambda>c. length ds \<le> unat (core_id c)"
  let ?p = "\<lambda>(c, tot). if tot > 0 then map_res (\<lambda>d. core_share d tot) (index_vec ds (unat (core_id c))) else Inr f_zero"
  have ns: "traverse_res (\<lambda>c. index_vec ds (unat (core_id c))) cs =
      (if \<exists>c \<in> set cs. ?bad c then Inl Index_Out_Of_Bounds else Inr (map (\<lambda>c. ds ! unat (core_id c)) cs))" for cs
    by (induction cs) (auto simp: index_vec_def)
  have ok: "traverse_res ?p (zip cs (map (total_ns_of diff) cs)) =
      Inr (map (\<lambda>c. core_share (ds ! unat (core_id c)) (total_ns_of diff c)) cs)" if "\<not> (\<exists>c \<in> set cs. ?bad c)" for cs
    using that by (induction cs) (auto simp: index_vec_def core_share_def word_gt_0)
  have one: "traverse_res ?p (zip cs (map (total_ns_of diff) cs)) = Inl Index_Out_Of_Bounds \<or>
      (\<exists>ps. traverse_res ?p (zip cs (map (total_ns_of diff) cs)) = Inr ps)" for cs
    by (induction cs) (auto simp: index_vec_def)
  have bad: "bind_res (traverse_res ?p (zip cs (map (total_ns_of diff) cs))) (\<lambda>ps. Inl Index_Out_Of_Bounds) =
      (Inl Index_Out_Of_Bounds :: (u64 list \<times> u64 list \<times> f64 list) option res)" for cs
    using one [of cs] by (elim disjE exE) simp_all
  show ?thesis
  proof (cases "\<exists>c \<in> set (Topology_get_cores t). ?bad c")
    case True
    then show ?thesis
      unfolding get_process_core_time_data_def Let_def assms option.case ns by (simp only: if_True bind_res_simps bad)
  next
    case False
    then show ?thesis
      unfolding get_process_core_time_data_def Let_def assms option.case ns ok [OF False]
      by (simp only: if_False bind_res_simps)
  qed
qed

lemma core_time_data_None:
  "get_per_core_cpu_time_delta (topo_proc_tracker t) pid = None \<or> get_cpu_time_diff t = None \<Longrightarrow>
   get_process_core_time_data t pid = Inr None"
  by (cases "get_per_core_cpu_time_delta (topo_proc_tracker t) pid") (auto simp: get_process_core_time_data_def Let_def)

lemma core_time_data_shares:
  assumes "get_process_core_time_data t pid = Inr (Some (proc_ns, total_ns, shares))"
  shows "length shares = length (Topology_get_cores t) \<and> (\<forall>p \<in> set shares. share p)"
proof -
  obtain ds diff where "get_per_core_cpu_time_delta (topo_proc_tracker t) pid = Some ds" "get_cpu_time_diff t = Some diff"
    using assms core_time_data_None [of t pid] by fastforce
  then show ?thesis using assms core_time_data_cases [of t pid ds diff] core_share_share
    by (auto split: if_splits)
qed

lemma process_power_total:
  assumes "length powers \<le> length shares"
  shows "process_power powers shares = Inr (f64_sum (map2 (\<lambda>c p. f64_mul (f64_or_0 c) p) powers shares))"
proof -
  have "traverse_res (\<lambda>(i, conso). map_res (\<lambda>p. f64_mul (f64_or_0 conso) p) (index_vec shares i)) (enumerate k powers) =
      Inr (map2 (\<lambda>c p. f64_mul (f64_or_0 c) p) powers (drop k shares))" if "k + length powers \<le> length shares" for k
    using that
  proof (induction powers arbitrary: k)
    case (Cons c powers)
    then have "drop k shares = shares ! k # drop (Suc k) shares" by (simp add: Cons_nth_drop_Suc)
    then show ?case using Cons by (simp add: index_vec_def)
  qed simp
  from this [of 0] show ?thesis using assms by (simp add: process_power_def)
qed

lemma share_range: "share p \<Longrightarrow> \<exists>s x. p = Fin s x \<and> 0 \<le> x \<and> x \<le> 1"
  by (cases p) (auto simp: share_def)

lemma process_power_le:
  assumes "length shares = length powers" "\<forall>p \<in> set shares. share p"
    and "\<forall>v \<in> set powers. nonneg_fin f64_format (f64_or_0 v)" "is_fin (f64_sum (map f64_or_0 powers))"
  shows "\<exists>v. process_power powers shares = Inr v \<and> nonneg_fin f64_format v \<and>
    fin_val v \<le> fin_val (f64_sum (map f64_or_0 powers))"
proof -
  have "list_all2 (\<lambda>u v. nonneg_fin f64_format u \<and> nonneg_fin f64_format v \<and> fin_val u \<le> fin_val v)
      (map2 (\<lambda>c p. f64_mul (f64_or_0 c) p) powers shares) (map f64_or_0 powers)"
  proof (rule list_all2_all_nthI)
    fix i
    assume i: "i < length (map2 (\<lambda>c p. f64_mul (f64_or_0 c) p) powers shares)"
    then have m: "powers ! i \<in> set powers" "shares ! i \<in> set shares" by auto
    then have "fin_val (f64_or_0 (powers ! i)) < 2 powi emax f64_format"
      using fsum_bound [OF assms(4), of "f64_or_0 (powers ! i)"] assms(3) by auto
    then show "nonneg_fin f64_format (map2 (\<lambda>c p. f64_mul (f64_or_0 c) p) powers shares ! i) \<and>
        nonneg_fin f64_format (map f64_or_0 powers ! i) \<and>
        fin_val (map2 (\<lambda>c p. f64_mul (f64_or_0 c) p) powers shares ! i) \<le> fin_val (map f64_or_0 powers ! i)"
      using f64_mul_share [of "f64_or_0 (powers ! i)" "shares ! i"] assms(2,3) m i by auto
  qed (simp add: assms(1))
  then show ?thesis using fsum_mono [OF _ _ assms(4)] assms(1) by (simp add: process_power_total)
qed

text \<open>
  C6. The shares of a process on the cores, from the eBPF times, are one per core and each a number
  between 0 and 1, whatever the counters say. When moreover every core power is a finite
  non-negative number and their sum is finite, the power attributed to the process is such a number
  and at most the power of the cores, summed as the program sums it. (A core power can be NaN, as
  for a core that slept, and then the condition fails.)
\<close>

theorem ebpf_process_power_bounded:
  assumes "get_process_core_time_data t pid = Inr (Some (proc_ns, total_ns, shares))"
    and "Topology_get_proportional_core_diff_power_microwatts w t = Some r"
  shows "length shares = length (mv_values r) \<and>
    (\<forall>p \<in> set shares. \<exists>s x. p = Fin s x \<and> 0 \<le> x \<and> x \<le> 1) \<and>
    ((\<forall>v \<in> set (mv_values r). nonneg_fin f64_format (f64_or_0 v)) \<and>
       is_fin (f64_sum (map f64_or_0 (mv_values r))) \<longrightarrow>
     (\<exists>v. process_power (mv_values r) shares = Inr v \<and> nonneg_fin f64_format v \<and>
        fin_val v \<le> fin_val (f64_sum (map f64_or_0 (mv_values r)))))"
proof (intro conjI impI)
  have sh: "length shares = length (mv_values r)" "\<forall>p \<in> set shares. share p"
    using core_time_data_shares [OF assms(1)] length_core_powers [OF assms(2)] by simp_all
  then show "length shares = length (mv_values r)" by simp
  show "\<forall>p \<in> set shares. \<exists>s x. p = Fin s x \<and> 0 \<le> x \<and> x \<le> 1"
    using sh(2) share_range by blast
  assume fin: "(\<forall>v \<in> set (mv_values r). nonneg_fin f64_format (f64_or_0 v)) \<and>
    is_fin (f64_sum (map f64_or_0 (mv_values r)))"
  then show "\<exists>v. process_power (mv_values r) shares = Inr v \<and> nonneg_fin f64_format v \<and>
      fin_val v \<le> fin_val (f64_sum (map f64_or_0 (mv_values r)))"
    using process_power_le [OF sh] by blast
qed

lemma get_all_per_process_ok:
  assumes "get_process_core_time_data t pid = Inr d"
  shows "\<exists>m. get_all_per_process w t pid = Inr (Some m)"
proof -
  have rest: "\<exists>m. power_metrics w t r data pcts res = Inr m"
    if "\<And>ps. pcts = Some ps \<Longrightarrow> length ps = length (Topology_get_cores t)" for r data pcts res
    using that process_power_total length_core_powers [of w t]
    by (cases pcts; cases "Topology_get_proportional_core_diff_power_microwatts w t") (auto simp: power_metrics_def Let_def)
  have "\<exists>pcts. get_process_core_proportions t pid = Inr pcts \<and>
      (\<forall>ps. pcts = Some ps \<longrightarrow> length ps = length (Topology_get_cores t))"
    using assms core_time_data_shares
    by (cases d) (auto simp: get_process_core_proportions_def Let_def split: option.split)
  then obtain pcts where pcts: "get_process_core_proportions t pid = Inr pcts"
    "\<And>ps. pcts = Some ps \<Longrightarrow> length ps = length (Topology_get_cores t)" by blast
  show ?thesis
  proof (cases "get_process_last_record (topo_proc_tracker t) pid")
    case (Some r)
    show ?thesis
      unfolding get_all_per_process_def Some option.case assms bind_res_simps pcts(1) Let_def
      using rest [OF pcts(2)] by (metis map_res_simps(2))
  qed (simp add: get_all_per_process_def)
qed

text \<open>
  Collecting the metrics of a process panics in exactly one case: the eBPF times of the process
  and of the CPUs are there, and the times of the process have fewer entries than the number of some
  core of the host. In every other case there is a map of metrics.
\<close>

theorem get_all_per_process_panics_iff:
  "(\<exists>p. get_all_per_process w t pid = Inl p) \<longleftrightarrow>
    (\<exists>ds diff c. get_per_core_cpu_time_delta (topo_proc_tracker t) pid = Some ds \<and>
       get_cpu_time_diff t = Some diff \<and> c \<in> set (Topology_get_cores t) \<and> length ds \<le> unat (core_id c))"
  (is "?panic \<longleftrightarrow> ?bad")
proof -
  have panic: "?panic \<longleftrightarrow> get_process_last_record (topo_proc_tracker t) pid \<noteq> None \<and>
      (\<exists>p. get_process_core_time_data t pid = Inl p)"
  proof (cases "get_process_core_time_data t pid")
    case (Inl p)
    then show ?thesis by (auto simp: get_all_per_process_def split: option.split)
  next
    case (Inr d)
    then show ?thesis using get_all_per_process_ok [OF Inr, of w] by auto
  qed
  have "get_process_last_record (topo_proc_tracker t) pid \<noteq> None"
    if "get_per_core_cpu_time_delta (topo_proc_tracker t) pid = Some ds" for ds
    using that by (auto simp: get_per_core_cpu_time_delta_def get_process_last_record_def bind_eq_Some_conv)
  then show ?thesis unfolding panic using core_time_data_cases [of t pid] core_time_data_None [of t pid]
    by (cases "get_per_core_cpu_time_delta (topo_proc_tracker t) pid"; cases "get_cpu_time_diff t") (auto split: if_splits)
qed


definition example_host :: Topology where
  "example_host = (Topology_new env0 None [])\<lparr>topo_sockets := [add_cpu_core working_core example_socket],
     topo_cpu_time_buffer := [MultiValuedRecord_new (Duration 1 0) [''10''] [Numeric],
       MultiValuedRecord_new (Duration 2 0) [''50''] [Numeric]],
     topo_proc_tracker := (ProcessTracker_new env0 5 False)\<lparr>pt_procs :=
       [[\<lparr>pr_process = (example_process 7 ''sh'')\<lparr>ip_core_busy_times := Some [30]\<rparr>, pr_timestamp = Duration 2 0\<rparr>,
         \<lparr>pr_process = (example_process 7 ''sh'')\<lparr>ip_core_busy_times := Some [10]\<rparr>, pr_timestamp = Duration 1 0\<rparr>]]\<rparr>\<rparr>"

lemma add_cpu_core_frame [simp]:
  "raw_power_uw (add_cpu_core c s) = raw_power_uw s" "idle_uw (add_cpu_core c s) = idle_uw s"
  "activation_uw (add_cpu_core c s) = activation_uw s" "sock_domains (add_cpu_core c s) = sock_domains s"
  by (simp_all add: raw_power_uw_def idle_uw_def activation_uw_def add_cpu_core_def
      CPUSocket_get_idle_power_microwatts_def CPUSocket_get_activation_power_microwatts_def
      split: option.split prod.split)

lemma example_host_power:
  "Topology_get_proportional_core_diff_power_microwatts (\<lambda>_. env0) example_host =
     Some (MultiValuedRecord_new (Duration 0 0) [show_f64 (Fin False 70)] [MicroWatt])"
proof -
  let ?s = "add_cpu_core working_core example_socket"
  have "core_coef (CPUCore_clone working_core) = core_coef working_core"
    by (simp add: core_coef_def get_core_metrics_delta_def CPUCore_clone_def)
  then have "CPUSocket_get_core_coefs ?s = [Fin False 7]"
    by (simp add: CPUSocket_get_core_coefs_def CPUSocket_get_cores_def add_cpu_core_def
        CPUSocket_new_def working_core_coef example_socket_def)
  then have p: "CPUSocket_get_core_proportions ?s = [Fin False 1]"
    by (simp add: CPUSocket_get_core_proportions_def proportions_of_def float_eval)
  have "sock_domains ?s = []" by (simp add: example_socket_def CPUSocket_new_def)
  then have "CPUSocket_get_records_diff_power_microwatts_per_domain e (DomainResource_to_string CPU) ?s =
      Some (Record_new (timestamp (last (sock_record_buffer ?s))) (show_u64 70) MicroWatt)" for e
    by (simp add: CPUSocket_get_records_diff_power_microwatts_per_domain_def socket_power_net background_uw_def
        example_socket_values saturating_sub_def)
  moreover have "parse_f64 (show_u64 70) = Some (Fin False 70)"
    using parse_f64_show_u64 [of 70] f64_exact [of 70] by (simp add: u64_as_f64_def)
  moreover have "f64_mul (Fin False 1) (Fin False 70) = Fin False 70" by (simp add: float_eval)
  ultimately have "CPUSocket_get_proportional_core_diff_power_microwatts e ?s = Some (MultiValuedRecord_new (e_now e) [show_f64 (Fin False 70)] [Numeric])" for e
    using p by (simp add: CPUSocket_get_proportional_core_diff_power_microwatts_def Record_new_def current_system_time_since_epoch_def)
  moreover have "CPUSocket_get_cores ?s = [CPUCore_clone working_core]"
    by (simp add: CPUSocket_get_cores_def add_cpu_core_def example_socket_def CPUSocket_new_def)
  ultimately show ?thesis
    by (simp add: Topology_get_proportional_core_diff_power_microwatts_def example_host_def MultiValuedRecord_new_def
       current_system_time_since_epoch_def env0_def sub_world_def)
qed

lemma ebpf_process_power_bounded_witness:
  "\<exists>proc_ns total_ns v.
     get_process_core_time_data example_host 7 = Inr (Some (proc_ns, total_ns, [Fin False (1 / 2)])) \<and>
     process_power [show_f64 (Fin False 70)] [Fin False (1 / 2)] = Inr v \<and>
     nonneg_fin f64_format v \<and> fin_val v \<le> 70"
proof -
  have "get_per_core_cpu_time_delta (topo_proc_tracker example_host) 7 = Some [20]"
    by (simp add: get_per_core_cpu_time_delta_def find_records_def example_host_def has_pid_def example_process_def get_vec_def)
  moreover have "get_cpu_time_diff example_host = Some (MultiValuedRecord_new (Duration 2 0) [show_u64 40] [Numeric])"
    by (simp add: get_cpu_time_diff_def example_host_def last_two_def MultiValuedRecord_new_def cpu_time_delta_def
        text_eval parse_u64_def show_u64_def)
  moreover have "Topology_get_cores example_host = [CPUCore_clone working_core]"
    by (simp add: Topology_get_cores_def example_host_def CPUSocket_get_cores_def add_cpu_core_def example_socket_def CPUSocket_new_def)
  moreover have "core_share 20 40 = Fin False (1 / 2)" by (simp add: core_share_def float_eval)
  ultimately obtain proc_ns total_ns where
    d: "get_process_core_time_data example_host 7 = Inr (Some (proc_ns, total_ns, [Fin False (1 / 2)]))"
    by (simp add: core_time_data_cases CPUCore_clone_def working_core_def CPUCore_new_def MultiValuedRecord_new_def
        total_ns_of_def get_vec_def)
  have p: "f64_or_0 (show_f64 (Fin False 70)) = Fin False 70" "nonneg_fin f64_format (Fin False 70)"
  proof -
    have "f64_lit 70 = Fin False 70" using f64_exact [of 70] by (simp add: f_of_nat_def)
    then have "valid_f f64_format (Fin False 70)" using fl_valid [of f64_format False 70] by simp
    from parse_show_f64 [OF this] show "f64_or_0 (show_f64 (Fin False 70)) = Fin False 70"
      by (simp only: f64_or_0_def option.case)
    show "nonneg_fin f64_format (Fin False 70)" using representable_of_int [of 70 f64_format] by simp
  qed
  have s: "f64_sum [Fin False 70] = Fin False 70" by (simp add: float_eval)
  show ?thesis
    using ebpf_process_power_bounded [OF d example_host_power] p s d by (auto simp: MultiValuedRecord_new_def)
qed

section \<open>Disks\<close>

definition disk_entries :: "env \<Rightarrow> Disk \<Rightarrow> (string, string \<times> (string, string) hmap \<times> Record) hmap" where
  "disk_entries e d =
     [(''scaph_host_disk_total_bytes'', ''Total disk size, in bytes.'', disk_attributes d,
       Record_new (e_now e) (show_u64 (disk_total_space d)) Bytes),
      (''scaph_host_disk_available_bytes'', ''Available disk space, in bytes.'', disk_attributes d,
       Record_new (e_now e) (show_u64 (disk_available_space d)) Bytes)]"

text \<open>
  The disk metrics are keyed by their name only: of a host with several disks the map holds the
  size and the free space of the last disk, and nothing of the others.
\<close>

theorem get_disks_keeps_last:
  "get_disks e t =
     (case sys_disks (pt_sysinfo (topo_proc_tracker t)) of [] \<Rightarrow> [] | d # ds \<Rightarrow> disk_entries e (last (d # ds)))"
proof -
  let ?f = "\<lambda>d res. hm_insert ''scaph_host_disk_available_bytes''
                (''Available disk space, in bytes.'', disk_attributes d,
                 Record_new (e_now e) (show_u64 (disk_available_space d)) Bytes)
                (hm_insert ''scaph_host_disk_total_bytes''
                  (''Total disk size, in bytes.'', disk_attributes d,
                   Record_new (e_now e) (show_u64 (disk_total_space d)) Bytes) res)"
  have step: "?f d [] = disk_entries e d" "?f d (disk_entries e d') = disk_entries e d" for d d'
    by (simp_all add: disk_entries_def)
  have "fold ?f ds [] = (if ds = [] then [] else disk_entries e (last ds))" for ds
    by (induction ds rule: rev_induct) (simp_all add: step del: AList.update.simps)
  moreover have "get_disks e t = fold ?f (sys_disks (pt_sysinfo (topo_proc_tracker t))) []"
    by (simp only: get_disks_def current_system_time_since_epoch_def Let_def)
  ultimately show ?thesis by (simp split: list.split del: fold_simps)
qed

end
