(* ===== verification/Powercap.thy ===== *)
theory Powercap
  imports Topology_Power
begin

text \<open>
  The powercap sensor (\<open>sensors/powercap_rapl.rs\<close>): the sockets and RAPL domains found in the folders
  of the powercap tree, and the topology made of them. The regular expressions are those of the
  regex crate and stay parameters; so do the environment variable and the loaded kernel modules.
\<close>

section \<open>The sensor\<close>

record PowercapRAPLSensor =
  base_path :: string
  buffer_per_socket_max_kbytes :: u16
  buffer_per_domain_max_kbytes :: u16
  virtual_machine :: bool

definition PowercapRAPLSensor_new :: "string option \<Rightarrow> u16 \<Rightarrow> u16 \<Rightarrow> bool \<Rightarrow> PowercapRAPLSensor" where
  "PowercapRAPLSensor_new powercap_path_var socket_kb domain_kb vm =
     \<lparr>base_path =
        (if vm then (case powercap_path_var of Some val \<Rightarrow> val | None \<Rightarrow> ''/var/scaphandre'')
         else ''/sys/class/powercap''),
      buffer_per_socket_max_kbytes = socket_kb, buffer_per_domain_max_kbytes = domain_kb,
      virtual_machine = vm\<rparr>"

definition DEFAULT_BUFFER_PER_SOCKET_MAX_KBYTES :: u16 where
  "DEFAULT_BUFFER_PER_SOCKET_MAX_KBYTES = 1"

definition DEFAULT_BUFFER_PER_DOMAIN_MAX_KBYTES :: u16 where
  "DEFAULT_BUFFER_PER_DOMAIN_MAX_KBYTES = 1"

text \<open>The sensor of \<open>lib.rs\<close> for programs that use the crate.\<close>

definition get_default_sensor :: "string option \<Rightarrow> PowercapRAPLSensor" where
  "get_default_sensor powercap_path_var =
     PowercapRAPLSensor_new powercap_path_var DEFAULT_BUFFER_PER_SOCKET_MAX_KBYTES DEFAULT_BUFFER_PER_DOMAIN_MAX_KBYTES False"

text \<open>The names of the loaded modules, \<open>None\<close> when they cannot be listed.\<close>

definition check_module :: "string list option \<Rightarrow> (string + string) res" where
  "check_module modules =
     (case modules of
        None \<Rightarrow> Inl Unwrap_Err
      | Some names \<Rightarrow>
          Inr (if filter (\<lambda>n. n = ''intel_rapl'' \<or> n = ''intel_rapl_msr'' \<or> n = ''intel_rapl_common'') names \<noteq> []
               then Inr ''intel_rapl or intel_rapl_msr+intel_rapl_common modules found.''
               else Inl ''None of intel_rapl, intel_rapl_common or intel_rapl_msr kernel modules found.''))"

text \<open>\<open>is_match\<close> of the four regular expressions.\<close>

record powercap_regexes =
  re_socket :: "string \<Rightarrow> bool"
  re_domain :: "string \<Rightarrow> bool"
  re_socket_mmio :: "string \<Rightarrow> bool"
  re_domain_mmio :: "string \<Rightarrow> bool"

section \<open>Folders\<close>

text \<open>The number in the \<open>k\<close>-th field of a folder name split at its colons.\<close>

definition field_u16 :: "nat \<Rightarrow> string \<Rightarrow> u16 res" where
  "field_u16 k folder_name =
     bind_res (unwrap_opt (get_vec (split_char CHR '':'' folder_name) k)) (\<lambda>v. parse_unwrap (parse_u16 v))"

definition rapl_path :: "string \<Rightarrow> string \<Rightarrow> string" where
  "rapl_path base suffix = base @ ''/intel-rapl:'' @ suffix @ ''/energy_uj''"

definition insert_max :: "env \<Rightarrow> string \<Rightarrow> (string, string) hmap \<Rightarrow> (string, string) hmap" where
  "insert_max e dir data =
     (case e_read_to_string e (dir @ ''/max_energy_range_uj'') of
        Some mx \<Rightarrow> hm_insert ''max_energy_range_uj'' (trim mx) data
      | None \<Rightarrow> data)"

definition add_rapl_socket :: "env \<Rightarrow> PowercapRAPLSensor \<Rightarrow> u16 \<Rightarrow> Topology \<Rightarrow> Topology" where
  "add_rapl_socket e sn socket_id topo =
     (let path = rapl_path (base_path sn) (show_u16 socket_id);
          sensor_data_for_socket = insert_max e (base_path sn @ ''/intel-rapl:'' @ show_u16 socket_id)
            [(''source_file'', path)]
      in fst (safe_add_socket socket_id [] [] path (buffer_per_socket_max_kbytes sn) sensor_data_for_socket topo))"

definition domain_folder :: "env \<Rightarrow> PowercapRAPLSensor \<Rightarrow> string \<Rightarrow> Topology \<Rightarrow> Topology res" where
  "domain_folder e sn folder_name topo =
     bind_res (field_u16 1 folder_name) (\<lambda>socket_id.
     bind_res (field_u16 2 folder_name) (\<lambda>domain_id.
       let topo = add_rapl_socket e sn socket_id topo;
           path = rapl_path (base_path sn) (show_u16 socket_id @ '':'' @ show_u16 domain_id);
           sensor_data_for_domain = insert_max e folder_name [(''source_file'', path)]
       in case e_read_to_string e (folder_name @ ''/name'') of
            None \<Rightarrow> Inr topo
          | Some domain_name \<Rightarrow>
              map_res (\<lambda>resource.
                  safe_add_domain_to_socket socket_id domain_id (trim domain_name) path
                    (buffer_per_domain_max_kbytes sn)
                    (hm_insert ''related_resource'' (DomainResource_to_string resource) sensor_data_for_domain) topo)
                (DomainResource_parse (trim domain_name))))"

definition socket_mmio_folder :: "PowercapRAPLSensor \<Rightarrow> string \<Rightarrow> Topology \<Rightarrow> Topology res" where
  "socket_mmio_folder sn folder_name topo =
     map_res (\<lambda>socket_id.
         topo\<lparr>topo_sockets := map (\<lambda>s.
           if socket_id = sock_id s
           then s\<lparr>sock_sensor_data := hm_insert ''mmio''
                    (base_path sn @ ''/intel-rapl-mmio:'' @ show_u16 socket_id @ ''/energy_uj'') (sock_sensor_data s)\<rparr>
           else s) (topo_sockets topo)\<rparr>)
       (field_u16 1 folder_name)"

definition domain_mmio_folder :: "env \<Rightarrow> string \<Rightarrow> Topology \<Rightarrow> Topology res" where
  "domain_mmio_folder e folder_name topo =
     bind_res (field_u16 1 folder_name) (\<lambda>socket_id.
       map_res (\<lambda>sockets. topo\<lparr>topo_sockets := sockets\<rparr>)
         (traverse_res (\<lambda>s.
            if socket_id = sock_id s then
              map_res (\<lambda>ds. s\<lparr>sock_domains := ds\<rparr>)
                (traverse_res (\<lambda>d.
                   bind_res (parse_unwrap (e_read_to_string e (folder_name @ ''/name''))) (\<lambda>name_in_folder.
                     Inr (if trim (dom_name d) = trim name_in_folder
                          then d\<lparr>dom_sensor_data := hm_insert ''mmio'' (folder_name @ ''/energy_uj'') (dom_sensor_data d)\<rparr>
                          else d))) (sock_domains s))
            else Inr s) (topo_sockets topo)))"

section \<open>The topology\<close>

definition folders :: "env \<Rightarrow> PowercapRAPLSensor \<Rightarrow> string list res" where
  "folders e sn =
     bind_res (parse_unwrap (e_read_dir e (base_path sn)))
       (traverse_res (\<lambda>entry. map_res (path_join (base_path sn)) (parse_unwrap entry)))"

definition work_on_folder ::
  "powercap_regexes \<Rightarrow> env \<Rightarrow> PowercapRAPLSensor \<Rightarrow> string \<Rightarrow> Topology \<times> bool \<Rightarrow> (Topology \<times> bool) res" where
  "work_on_folder re e sn folder_name st =
     (let (topo, re_domain_matched) = st
      in if re_domain re folder_name then map_res (\<lambda>t. (t, True)) (domain_folder e sn folder_name topo)
         else if re_socket_mmio re folder_name then
           map_res (\<lambda>t. (t, re_domain_matched)) (socket_mmio_folder sn folder_name topo)
         else if re_domain_mmio re folder_name then
           map_res (\<lambda>t. (t, re_domain_matched)) (domain_mmio_folder e folder_name topo)
         else Inr (topo, re_domain_matched))"

text \<open>Without a domain folder, the folders of the sockets are used.\<close>

definition fallback_folder :: "powercap_regexes \<Rightarrow> env \<Rightarrow> PowercapRAPLSensor \<Rightarrow> string \<Rightarrow> Topology \<Rightarrow> Topology res" where
  "fallback_folder re e sn folder_name topo =
     (case e_read_to_string e (folder_name @ ''/name'') of
        None \<Rightarrow> Inr topo
      | Some domain_name \<Rightarrow>
          if domain_name \<noteq> ''psys'' \<and> re_socket re folder_name
          then map_res (\<lambda>socket_id. add_rapl_socket e sn socket_id topo) (field_u16 1 folder_name)
          else Inr topo)"

definition psys_folder :: "env \<Rightarrow> string \<Rightarrow> Topology \<Rightarrow> Topology" where
  "psys_folder e folder_name topo =
     (case e_read_to_string e (folder_name @ ''/name'') of
        None \<Rightarrow> topo
      | Some domain_name \<Rightarrow>
          if trim domain_name = ''psys''
          then topo\<lparr>topo_sensor_data := hm_insert ''psys'' folder_name (topo_sensor_data topo)\<rparr>
          else topo)"

text \<open>The tree of folders is observed at one instant, the cores at another.\<close>

definition generate_topology ::
  "powercap_regexes \<Rightarrow> string list option \<Rightarrow> bpf_object option \<Rightarrow> world \<Rightarrow> PowercapRAPLSensor \<Rightarrow> Topology res" where
  "generate_topology re modules ebpf w sn =
     bind_res (check_module modules) (\<lambda>_.
     bind_res (folders (w [1]) sn) (\<lambda>fs.
     bind_res (fold_res (work_on_folder re (w [1]) sn) fs (Topology_new (w [0]) ebpf [], False)) (\<lambda>(topo, re_domain_matched).
     bind_res (if re_domain_matched then Inr topo else fold_res (fallback_folder re (w [1]) sn) fs topo) (\<lambda>topo.
       add_cpu_cores (w [2]) (fold (psys_folder (w [1])) fs topo)))))"

definition get_topology ::
  "powercap_regexes \<Rightarrow> string list option \<Rightarrow> bpf_object option \<Rightarrow> world \<Rightarrow> PowercapRAPLSensor \<Rightarrow> Topology option res" where
  "get_topology re modules ebpf w sn = map_res Some (generate_topology re modules ebpf w sn)"

section \<open>A generated topology is well formed\<close>

lemma topology_wf_sockets:
  "topology_wf rsz mrsz ssz n now t \<Longrightarrow> distinct (map sock_id ss) \<Longrightarrow> list_all (socket_wf rsz mrsz ssz n) ss \<Longrightarrow>
   topology_wf rsz mrsz ssz n now (t\<lparr>topo_sockets := ss\<rparr>)"
  by (simp add: topology_wf_def)

lemma Topology_new_wf: "topology_wf rsz mrsz ssz n now (Topology_new e ebpf sd)"
  using new_tracker_inv(1) [of 5 e] by (simp add: topology_wf_def Topology_new_def records_until_def ProcessTracker_new_def Let_def)

lemma build_domains_names_wf [simp]:
  "topology_wf rsz mrsz ssz n now (build_domains_names t) = topology_wf rsz mrsz ssz n now t"
  by (simp add: build_domains_names_def topology_wf_def Let_def)

lemma add_rapl_socket_wf:
  assumes "topology_wf rsz mrsz ssz n now t"
  shows "topology_wf rsz mrsz ssz n now (add_rapl_socket e sn i t)"
proof (cases "list_ex (\<lambda>s. sock_id s = i) (topo_sockets t)")
  case True
  then show ?thesis using assms by (simp add: add_rapl_socket_def safe_add_socket_def Let_def)
next
  case False
  then have "i \<notin> sock_id ` set (topo_sockets t)" by (auto simp: list_ex_iff)
  then show ?thesis using False assms
    by (auto simp: add_rapl_socket_def safe_add_socket_def Let_def topology_wf_def socket_wf_def CPUSocket_new_def
        insert_max_def split: option.split)
qed

lemma safe_add_domain_wf:
  assumes "socket_wf rsz mrsz ssz n s" "hm_get sd ''source_file'' \<noteq> None"
  shows "socket_wf rsz mrsz ssz n (safe_add_domain (Domain_new i name path kb sd) s)"
    and "sock_id (safe_add_domain d s) = sock_id s"
  using assms by (auto simp: safe_add_domain_def socket_wf_def domain_wf_def Domain_new_def list_ex_iff)

lemma safe_add_domain_to_socket_wf:
  assumes "topology_wf rsz mrsz ssz n now t" "hm_get sd ''source_file'' \<noteq> None"
  shows "topology_wf rsz mrsz ssz n now (safe_add_domain_to_socket i j name path kb sd t)"
  unfolding safe_add_domain_to_socket_def build_domains_names_wf
proof (rule topology_wf_sockets [OF assms(1)])
  let ?f = "\<lambda>s. if sock_id s = i then safe_add_domain (Domain_new j name path kb sd) s else s"
  have eq: "map sock_id (map ?f (topo_sockets t)) = map sock_id (topo_sockets t)"
    by (simp add: safe_add_domain_def)
  show "distinct (map sock_id (map ?f (topo_sockets t)))" unfolding eq using assms(1) by (simp add: topology_wf_def)
  show "list_all (socket_wf rsz mrsz ssz n) (map ?f (topo_sockets t))"
    using assms safe_add_domain_wf(1) by (auto simp: topology_wf_def list_all_iff)
qed

lemma domain_folder_wf:
  assumes "topology_wf rsz mrsz ssz n now t" "domain_folder e sn f t = Inr t'"
  shows "topology_wf rsz mrsz ssz n now t'"
  using assms(2) add_rapl_socket_wf [OF assms(1)]
  by (auto simp: domain_folder_def bind_res_eq_Inr map_res_def insert_max_def Let_def
      intro!: safe_add_domain_to_socket_wf split: option.splits)

lemma socket_mmio_folder_wf:
  assumes "topology_wf rsz mrsz ssz n now t" "socket_mmio_folder sn f t = Inr t'"
  shows "topology_wf rsz mrsz ssz n now t'"
proof -
  obtain i where t': "t' = t\<lparr>topo_sockets := map (\<lambda>s. if i = sock_id s
      then s\<lparr>sock_sensor_data := hm_insert ''mmio'' (base_path sn @ ''/intel-rapl-mmio:'' @ show_u16 i @ ''/energy_uj'') (sock_sensor_data s)\<rparr>
      else s) (topo_sockets t)\<rparr>"
    using assms(2) by (auto simp: socket_mmio_folder_def map_res_def bind_res_eq_Inr)
  then have "map sock_id (topo_sockets t') = map sock_id (topo_sockets t)"
    "list_all (socket_wf rsz mrsz ssz n) (topo_sockets t')" "t' = t\<lparr>topo_sockets := topo_sockets t'\<rparr>"
    using assms(1) by (auto simp: topology_wf_def list_all_iff socket_wf_def)
  then show ?thesis using topology_wf_sockets [OF assms(1), of "topo_sockets t'"] assms(1) by (simp add: topology_wf_def)
qed

lemma domain_mmio_folder_wf:
  assumes "topology_wf rsz mrsz ssz n now t" "domain_mmio_folder e f t = Inr t'"
  shows "topology_wf rsz mrsz ssz n now t'"
proof -
  define g :: "Domain \<Rightarrow> Domain res" where "g = (\<lambda>d. bind_res (parse_unwrap (e_read_to_string e (f @ ''/name''))) (\<lambda>name_in_folder.
      Inr (if trim (dom_name d) = trim name_in_folder
           then d\<lparr>dom_sensor_data := hm_insert ''mmio'' (f @ ''/energy_uj'') (dom_sensor_data d)\<rparr> else d)))"
  obtain i ss where ss: "traverse_res (\<lambda>s. if i = sock_id s
      then map_res (\<lambda>ds. s\<lparr>sock_domains := ds\<rparr>) (traverse_res g (sock_domains s)) else Inr s) (topo_sockets t) = Inr ss"
    "t' = t\<lparr>topo_sockets := ss\<rparr>"
    using assms(2) unfolding domain_mmio_folder_def g_def [symmetric] by (auto simp: bind_res_eq_Inr map_res_def)
  have dom: "list_all (domain_wf rsz) ds' \<and> map dom_id ds' = map dom_id ds"
    if "traverse_res g ds = Inr ds'" "list_all (domain_wf rsz) ds" for ds ds'
    by (rule traverse_res_all [OF that(1) _ that(2)]) (auto simp: g_def bind_res_eq_Inr domain_wf_def)
  have "list_all (socket_wf rsz mrsz ssz n) ss \<and> map sock_id ss = map sock_id (topo_sockets t)"
  proof (rule traverse_res_all [OF ss(1)])
    fix s s'
    assume "socket_wf rsz mrsz ssz n s" "(if i = sock_id s
      then map_res (\<lambda>ds. s\<lparr>sock_domains := ds\<rparr>) (traverse_res g (sock_domains s)) else Inr s) = Inr s'"
    then show "socket_wf rsz mrsz ssz n s' \<and> sock_id s' = sock_id s"
      using dom by (auto simp: map_res_def bind_res_eq_Inr socket_wf_def split: if_splits)
  qed (use assms(1) in \<open>simp add: topology_wf_def\<close>)
  then show ?thesis unfolding ss(2) using assms(1) by (intro topology_wf_sockets) (simp_all add: topology_wf_def)
qed

lemma place_core_wf:
  assumes "core_wf mrsz n c" "list_all (socket_wf rsz mrsz ssz n) ss" "place_core c ss = Inr ss'"
  shows "list_all (socket_wf rsz mrsz ssz n) ss' \<and> map sock_id ss' = map sock_id ss"
proof -
  have add: "socket_wf rsz mrsz ssz n (add_cpu_core c s)" "sock_id (add_cpu_core c s) = sock_id s"
    if "socket_wf rsz mrsz ssz n s" for s
    using that assms(1) by (simp_all add: add_cpu_core_def socket_wf_def)
  obtain i where i: "physical_id c = Inr i" using assms(3) by (auto simp: place_core_def bind_res_eq_Inr)
  show ?thesis
  proof (cases "update_first (\<lambda>x. sock_id x = i) (add_cpu_core c) ss")
    case None
    then show ?thesis using assms(2,3) i add by (cases ss) (auto simp: place_core_def)
  next
    case (Some ss1)
    then obtain a x b where "ss = a @ x # b" "ss1 = a @ add_cpu_core c x # b" using update_first_Some by fastforce
    then show ?thesis using Some assms(2,3) i add by (auto simp: place_core_def)
  qed
qed

lemma add_cpu_cores_wf:
  assumes "topology_wf rsz mrsz ssz n now t" "add_cpu_cores e t = Inr t'" "generate_cpu_cores e = Inr cores"
    and "\<forall>c \<in> set cores. unat (core_id c) < n"
  shows "topology_wf rsz mrsz ssz n now t'"
proof -
  have "core_record_buffer c = []" if mem: "c \<in> set cores" for c
  proof -
    obtain info where "traverse_res (core_of_cpu e info) (enumerate 0 (sys_cpus (e_system_new_all e))) = Inr cores"
      using assms(3) by (auto simp: generate_cpu_cores_def split: option.splits)
    moreover obtain k where "k < length cores" "c = cores ! k" using mem by (auto simp: in_set_conv_nth)
    ultimately have "core_of_cpu e info (enumerate 0 (sys_cpus (e_system_new_all e)) ! k) = Inr c"
      by (simp add: traverse_res_Inr_iff list_all2_conv_all_nth)
    then show ?thesis by (auto simp: core_of_cpu_def CPUCore_new_def bind_res_eq_Inr Let_def split: prod.splits)
  qed
  then have cores: "\<forall>c \<in> set cores. core_wf mrsz n c" using assms(4) by (simp add: core_wf_def)
  obtain ss where ss: "fold_res place_core (rev cores) (topo_sockets t) = Inr ss" "t' = t\<lparr>topo_sockets := ss\<rparr>"
    using assms(2,3) by (auto simp: add_cpu_cores_def bind_res_eq_Inr)
  have "list_all (socket_wf rsz mrsz ssz n) ss \<and> map sock_id ss = map sock_id (topo_sockets t)"
    by (rule fold_res_invariant [OF ss(1), where P = "\<lambda>ss. list_all (socket_wf rsz mrsz ssz n) ss \<and> map sock_id ss = map sock_id (topo_sockets t)"])
      (use assms(1) cores place_core_wf in \<open>auto simp: topology_wf_def\<close>)
  then show ?thesis unfolding ss(2) using assms(1) by (intro topology_wf_sockets) (simp_all add: topology_wf_def)
qed

lemma generate_topology_keeps:
  assumes "generate_topology re modules ebpf w sn = Inr t" "P (Topology_new (w [0]) ebpf [])"
    and "\<And>x s s'. work_on_folder re (w [1]) sn x s = Inr s' \<Longrightarrow> P (fst s) \<Longrightarrow> P (fst s')"
    and "\<And>x s s'. fallback_folder re (w [1]) sn x s = Inr s' \<Longrightarrow> P s \<Longrightarrow> P s'"
    and "\<And>x s. P s \<Longrightarrow> P (psys_folder (w [1]) x s)" "\<And>s. add_cpu_cores (w [2]) s = Inr t \<Longrightarrow> P s \<Longrightarrow> P t"
  shows "P t"
proof -
  obtain fs t1 m t2 where g: "fold_res (work_on_folder re (w [1]) sn) fs (Topology_new (w [0]) ebpf [], False) = Inr (t1, m)"
    "(if m then Inr t1 else fold_res (fallback_folder re (w [1]) sn) fs t1) = Inr t2"
    "add_cpu_cores (w [2]) (fold (psys_folder (w [1])) fs t2) = Inr t"
    using assms(1) by (auto simp: generate_topology_def bind_res_eq_Inr)
  have t1: "P (fst (t1, m))" by (rule fold_res_invariant [OF g(1), where P = "\<lambda>s. P (fst s)"]) (use assms(2,3) in auto)
  have "P t2"
  proof (cases m)
    case False
    then have "fold_res (fallback_folder re (w [1]) sn) fs t1 = Inr t2" using g(2) by simp
    then show ?thesis by (rule fold_res_invariant [where P = P]) (use t1 assms(4) in auto)
  qed (use g(2) t1 in simp)
  then have "P (fold (psys_folder (w [1])) gs t2)" for gs
  proof (induction gs arbitrary: t2)
    case (Cons x gs)
    then show ?case using assms(5) by simp
  qed simp
  then show ?thesis using assms(6) [OF g(3)] by blast
qed

lemma sensor_data_wf [simp]: "topology_wf rsz mrsz ssz n now (t\<lparr>topo_sensor_data := d\<rparr>) = topology_wf rsz mrsz ssz n now t"
  by (simp add: topology_wf_def)

lemma generate_topology_wf:
  assumes "generate_topology re modules ebpf w sn = Inr t" "generate_cpu_cores (w [2]) = Inr cores"
    and "\<forall>c \<in> set cores. unat (core_id c) < n"
  shows "topology_wf rsz mrsz ssz n now t"
  by (rule generate_topology_keeps [OF assms(1)])
    (use add_cpu_cores_wf assms(2,3) in \<open>auto simp: Topology_new_wf work_on_folder_def fallback_folder_def psys_folder_def map_res_def
      bind_res_eq_Inr Let_def dest: domain_folder_wf socket_mmio_folder_wf domain_mmio_folder_wf intro: add_rapl_socket_wf
      split: if_splits prod.splits option.splits\<close>)

text \<open>Nothing of the construction touches the buffers of the host.\<close>

definition fresh :: "Topology \<Rightarrow> bool" where
  "fresh t \<longleftrightarrow> topo_record_buffer t = [] \<and> topo_stat_buffer t = [] \<and> topo_cpu_time_buffer t = [] \<and>
     topo_activation_idle_buffer t = [] \<and> pt_procs (topo_proc_tracker t) = []"

lemma fresh_frame [simp]:
  "fresh (t\<lparr>topo_sockets := ss\<rparr>) = fresh t" "fresh (t\<lparr>topo_sensor_data := d\<rparr>) = fresh t"
  "fresh (build_domains_names t) = fresh t" "fresh (add_rapl_socket e sn i t) = fresh t"
  "fresh (safe_add_domain_to_socket i j n p kb sd t) = fresh t"
  by (simp_all add: fresh_def build_domains_names_def add_rapl_socket_def safe_add_socket_def
      safe_add_domain_to_socket_def Let_def)

lemma generate_topology_fresh:
  assumes "generate_topology re modules ebpf w sn = Inr t"
  shows "fresh t"
proof (rule generate_topology_keeps [OF assms])
  show "fresh (Topology_new (w [0]) ebpf [])" by (simp add: fresh_def Topology_new_def ProcessTracker_new_def Let_def)
qed (auto simp: work_on_folder_def domain_folder_def socket_mmio_folder_def domain_mmio_folder_def fallback_folder_def
    psys_folder_def add_cpu_cores_def map_res_def bind_res_eq_Inr Let_def split: if_splits prod.splits option.splits)

text \<open>The process tracker stays the new one, and no socket has learned a power.\<close>

definition untouched :: "env \<Rightarrow> bpf_object option \<Rightarrow> Topology \<Rightarrow> bool" where
  "untouched e ebpf t \<longleftrightarrow> topo_proc_tracker t = topo_proc_tracker (Topology_new e ebpf []) \<and>
     list_all (\<lambda>s. sock_activation_idle_buffer s = []) (topo_sockets t)"

lemma untouched_frame [simp]:
  "untouched e b (t\<lparr>topo_sensor_data := d\<rparr>) = untouched e b t" "untouched e b (build_domains_names t) = untouched e b t"
  "untouched e b t \<Longrightarrow> untouched e b (add_rapl_socket e' sn i t)"
  "untouched e b t \<Longrightarrow> untouched e b (safe_add_domain_to_socket i j n p kb sd t)"
  by (auto simp: untouched_def build_domains_names_def add_rapl_socket_def safe_add_socket_def CPUSocket_new_def
      safe_add_domain_to_socket_def safe_add_domain_def list_all_iff Let_def)


lemma domain_mmio_folder_untouched:
  assumes "domain_mmio_folder e' f t = Inr t'" "untouched e b t"
  shows "untouched e b t'"
proof -
  define g :: "Domain \<Rightarrow> Domain res" where "g = (\<lambda>d. bind_res (parse_unwrap (e_read_to_string e' (f @ ''/name''))) (\<lambda>name_in_folder.
      Inr (if trim (dom_name d) = trim name_in_folder
           then d\<lparr>dom_sensor_data := hm_insert ''mmio'' (f @ ''/energy_uj'') (dom_sensor_data d)\<rparr> else d)))"
  obtain i ss where ss: "traverse_res (\<lambda>s. if i = sock_id s
      then map_res (\<lambda>ds. s\<lparr>sock_domains := ds\<rparr>) (traverse_res g (sock_domains s)) else Inr s) (topo_sockets t) = Inr ss"
    "t' = t\<lparr>topo_sockets := ss\<rparr>"
    using assms(1) unfolding domain_mmio_folder_def g_def [symmetric] by (auto simp: bind_res_eq_Inr map_res_def)
  have "list_all (\<lambda>s. sock_activation_idle_buffer s = []) ss"
    by (rule traverse_res_ball [OF ss(1)])
      (use assms(2) in \<open>auto simp: untouched_def map_res_def bind_res_eq_Inr split: if_splits\<close>)
  then show ?thesis using assms(2) ss(2) by (simp add: untouched_def)
qed

lemma place_core_untouched:
  assumes "place_core c ss = Inr ss'" "list_all (\<lambda>s. sock_activation_idle_buffer s = []) ss"
  shows "list_all (\<lambda>s. sock_activation_idle_buffer s = []) ss'"
proof -
  obtain i where i: "physical_id c = Inr i" using assms(1) by (auto simp: place_core_def bind_res_eq_Inr)
  show ?thesis
  proof (cases "update_first (\<lambda>x. sock_id x = i) (add_cpu_core c) ss")
    case None
    then show ?thesis using assms i by (cases ss) (auto simp: place_core_def add_cpu_core_def)
  next
    case (Some ss1)
    then obtain a x b where "ss = a @ x # b" "ss1 = a @ add_cpu_core c x # b" using update_first_Some by fastforce
    then show ?thesis using Some assms i by (auto simp: place_core_def add_cpu_core_def)
  qed
qed

lemma generate_topology_untouched:
  assumes "generate_topology re modules ebpf w sn = Inr t"
  shows "untouched (w [0]) ebpf t"
proof (rule generate_topology_keeps [OF assms])
  show "untouched (w [0]) ebpf (Topology_new (w [0]) ebpf [])" by (simp add: untouched_def Topology_new_def)
next
  fix s
  assume s: "add_cpu_cores (w [2]) s = Inr t" "untouched (w [0]) ebpf s"
  then obtain cores ss where ss: "fold_res place_core (rev cores) (topo_sockets s) = Inr ss" "t = s\<lparr>topo_sockets := ss\<rparr>"
    by (auto simp: add_cpu_cores_def bind_res_eq_Inr)
  have "list_all (\<lambda>s. sock_activation_idle_buffer s = []) ss"
    by (rule fold_res_invariant [OF ss(1)]) (use s(2) place_core_untouched in \<open>auto simp: untouched_def\<close>)
  then show "untouched (w [0]) ebpf t" using s(2) ss(2) by (simp add: untouched_def)
next
  fix x s s'
  assume "work_on_folder re (w [1]) sn x s = Inr s'" "untouched (w [0]) ebpf (fst s)"
  moreover have "untouched (w [0]) ebpf t'" if "socket_mmio_folder sn f t = Inr t'" "untouched (w [0]) ebpf t" for f t t'
    using that by (auto simp: socket_mmio_folder_def map_res_def bind_res_eq_Inr untouched_def list_all_iff)
  moreover have "untouched (w [0]) ebpf t'" if "domain_folder e sn f t = Inr t'" "untouched (w [0]) ebpf t" for e f t t'
    using that by (auto simp: domain_folder_def map_res_def bind_res_eq_Inr Let_def split: option.splits)
  ultimately show "untouched (w [0]) ebpf (fst s')" using domain_mmio_folder_untouched
    by (auto simp: work_on_folder_def map_res_def bind_res_eq_Inr Let_def split: if_splits prod.splits)
qed (auto simp: fallback_folder_def psys_folder_def map_res_def bind_res_eq_Inr split: if_splits option.splits)

text \<open>
  C13. Whatever the powercap tree holds, a topology the sensor generates is well formed: socket and
  domain identifiers are distinct and every socket and every domain knows its counter file. Its
  buffers and the process tracker are empty.
\<close>

theorem generated_topology_wf:
  assumes "generate_topology re modules ebpf w sn = Inr t" "generate_cpu_cores (w [2]) = Inr cores"
    and "\<forall>c \<in> set cores. unat (core_id c) < n"
  shows "topology_wf rsz mrsz ssz n now t \<and> fresh t"
  using generate_topology_wf [OF assms] generate_topology_fresh [OF assms(1)] by simp

definition example_regexes_powercap :: powercap_regexes where
  "example_regexes_powercap =
     \<lparr>re_socket = (\<lambda>s. length (split_char CHR '':'' s) = 2), re_domain = (\<lambda>s. length (split_char CHR '':'' s) = 3),
      re_socket_mmio = (\<lambda>_. False), re_domain_mmio = (\<lambda>_. False)\<rparr>"

definition example_tree :: env where
  "example_tree = env0\<lparr>e_read_dir := (\<lambda>_. Some [Some ''intel-rapl:0'', Some ''intel-rapl:0:0'']),
     e_read_to_string := (\<lambda>f. Some ''dram''),
     e_cpuinfo := Some (\<lambda>_. Some [(''physical id'', ''0'')]),
     e_system_new_all := (e_system_new_all env0)\<lparr>sys_cpus := [\<lparr>cpu_name = ''cpu0'', cpu_frequency = 0, cpu_vendor_id = [], cpu_brand = []\<rparr>],
       sys_processes := [(7, example_sysinfo_process)]\<rparr>\<rparr>"

lemma example_tree_generates:
  "\<exists>t cores. generate_topology example_regexes_powercap (Some [''intel_rapl'']) None (\<lambda>_. example_tree)
      (PowercapRAPLSensor_new None 1 1 False) = Inr t \<and> generate_cpu_cores example_tree = Inr cores \<and>
    (\<forall>c \<in> set cores. unat (core_id c) < 2)"
proof -
  let ?sn = "PowercapRAPLSensor_new None 1 1 False"
  have f: "folders example_tree ?sn = Inr [''/sys/class/powercap/intel-rapl:0'', ''/sys/class/powercap/intel-rapl:0:0'']"
    by (simp add: folders_def example_tree_def PowercapRAPLSensor_new_def parse_unwrap_def path_join_def)
  obtain cores where cores: "generate_cpu_cores example_tree = Inr cores" "\<forall>c \<in> set cores. unat (core_id c) < 2"
     "\<forall>c \<in> set cores. physical_id c = Inr 0"
    by (auto simp: generate_cpu_cores_def example_tree_def core_of_cpu_def Let_def physical_id_def CPUCore_new_def
        text_eval parse_u16_def)
  have fields: "field_u16 1 ''/sys/class/powercap/intel-rapl:0:0'' = Inr 0" "field_u16 2 ''/sys/class/powercap/intel-rapl:0:0'' = Inr 0"
    by (simp_all add: field_u16_def parse_unwrap_def get_vec_def text_eval parse_u16_def)
  define t0 where "t0 = Topology_new example_tree None []"
  have name: "e_read_to_string example_tree x = Some ''dram''" "trim ''dram'' = ''dram''" for x
    by (simp_all add: example_tree_def trim_def is_white_def)
  obtain t1 where t1: "domain_folder example_tree ?sn ''/sys/class/powercap/intel-rapl:0:0'' t0 = Inr t1" "topo_sockets t1 \<noteq> []"
    by (simp add: domain_folder_def fields [unfolded One_nat_def] fields name DomainResource_parse_def Let_def safe_add_domain_to_socket_def
        build_domains_names_def add_rapl_socket_def safe_add_socket_def t0_def Topology_new_def)
  have "fold_res (work_on_folder example_regexes_powercap example_tree ?sn)
      [''/sys/class/powercap/intel-rapl:0'', ''/sys/class/powercap/intel-rapl:0:0''] (t0, False) = Inr (t1, True)"
    using t1(1) by (simp add: work_on_folder_def example_regexes_powercap_def)
  moreover have "psys_folder example_tree f t1 = t1" for f by (simp add: psys_folder_def name)
  moreover obtain t where "add_cpu_cores example_tree t1 = Inr t"
    using place_cores_placed [OF t1(2), of "rev cores"] cores by (auto simp: add_cpu_cores_def)
  ultimately have g: "generate_topology example_regexes_powercap (Some [''intel_rapl'']) None (\<lambda>_. example_tree) ?sn = Inr t"
    using f by (simp add: generate_topology_def check_module_def t0_def)
  then show ?thesis using cores by blast
qed

lemma generated_topology_wf_witness:
  "\<exists>t. generate_topology example_regexes_powercap (Some [''intel_rapl'']) None (\<lambda>_. example_tree)
      (PowercapRAPLSensor_new None 1 1 False) = Inr t \<and> topology_wf 56 64 128 2 (Duration 0 0) t \<and> fresh t"
  using example_tree_generates generated_topology_wf by blast

text \<open>
  In the fallback on socket folders, the folder of the platform counter is taken for a socket: the
  kernel ends the name with a newline and the comparison with \<open>psys\<close> does not trim it, so the folder
  becomes a socket of the topology and, trimmed this time, its \<open>psys\<close> counter as well.
\<close>

theorem psys_folder_becomes_socket:
  assumes "e_read_to_string e (f @ ''/name'') = Some (''psys'' @ ws)" "ws \<noteq> []" "list_all is_white ws"
    and "re_socket re f" "field_u16 1 f = Inr i"
  shows "\<exists>t'. fallback_folder re e sn f t = Inr t' \<and> i \<in> set (map sock_id (topo_sockets t')) \<and>
    hm_get (topo_sensor_data (psys_folder e f t')) ''psys'' = Some f"
proof -
  have "dropWhile is_white (rev ws @ ''sysp'') = ''sysp''"
    using assms(3) by (subst dropWhile_append2) (auto simp: list_all_iff is_white_def)
  then have tr: "trim (''psys'' @ ws) = ''psys''" by (simp add: trim_def is_white_def)
  have "i \<in> set (map sock_id (topo_sockets (add_rapl_socket e sn i t)))"
    by (auto simp: add_rapl_socket_def safe_add_socket_def Let_def CPUSocket_new_def list_ex_iff)
  then show ?thesis using assms tr by (simp add: fallback_folder_def psys_folder_def)
qed

lemma psys_folder_becomes_socket_witness:
  "\<exists>t'. fallback_folder example_regexes_powercap (env0\<lparr>e_read_to_string := (\<lambda>_. Some (''psys'' @ [CHR 0x0A]))\<rparr>)
      (PowercapRAPLSensor_new None 1 1 False) ''/p/intel-rapl:1'' (Topology_new env0 None []) = Inr t' \<and>
    1 \<in> set (map sock_id (topo_sockets t'))"
proof -
  have "field_u16 1 ''/p/intel-rapl:1'' = Inr 1" "re_socket example_regexes_powercap ''/p/intel-rapl:1''"
    "list_all is_white [CHR 0x0A]"
    by (simp_all add: field_u16_def parse_unwrap_def get_vec_def text_eval parse_u16_def example_regexes_powercap_def is_white_def)
  then show ?thesis
    using psys_folder_becomes_socket [of "env0\<lparr>e_read_to_string := (\<lambda>_. Some (''psys'' @ [CHR 0x0A]))\<rparr>" "''/p/intel-rapl:1''" "[CHR 0x0A]"
        example_regexes_powercap 1 "PowercapRAPLSensor_new None 1 1 False" "Topology_new env0 None []"] by auto
qed

end
