(* ===== verification/Export_Utils.thy ===== *)
theory Export_Utils
  imports Float_Text
begin

text \<open>
  \<open>exporters/utils.rs\<close>: cleaning of command lines, the name of a virtual machine in a qemu command
  line, and the text of a Prometheus sample, with a reference parser that shows it is well formed.
\<close>

section \<open>Operations\<close>

definition filter_cmdline :: "string \<Rightarrow> string" where
  "filter_cmdline cmdline =
     replace_char (CHR 0x0A) [] (replace_char (CHR 0x22) [CHR 0x5C, CHR 0x22] cmdline)"

definition label_value :: "string \<Rightarrow> string" where
  "label_value v = replace_char (CHR 0x5C) [] (replace_char (CHR 0x22) ''_'' v)"

text \<open>The loop ends every label with a comma; the last character is then removed.\<close>

definition format_prometheus_metric :: "string \<Rightarrow> string \<Rightarrow> (string, string) hmap option \<Rightarrow> string" where
  "format_prometheus_metric key val labels =
     (case labels of
        None \<Rightarrow> key
      | Some labels \<Rightarrow>
          butlast (key @ ''{'' @ concat (map (\<lambda>(k, v). k @ ''='' @ [CHR 0x22] @ label_value v @ [CHR 0x22] @ '','') labels))
            @ ''}'')
     @ '' '' @ val @ [CHR 0x0A]"

definition filter_qemu_cmdline :: "string \<Rightarrow> string option res" where
  "filter_qemu_cmdline cmdline =
     (if contains cmdline ''qemu-system'' \<and> contains cmdline ''guest='' then
        let vmname = map (split_char CHR '','') (split_on ''guest='' cmdline)
        in bind_res (index_vec vmname 1) (\<lambda>fields.
           bind_res (index_vec fields 0) (\<lambda>name.
             Inr (if length fields = 1 then None else if name = [] then None else Some name)))
      else Inr None)"

text \<open>The version of the crate is a parameter.\<close>

definition get_scaphandre_version :: "string \<Rightarrow> string res" where
  "get_scaphandre_version crate_version =
     (let parts = split_char CHR ''.'' crate_version
      in bind_res (unwrap_opt (get_vec parts 0)) (\<lambda>major_version.
         bind_res (unwrap_opt (get_vec parts 1)) (\<lambda>patch_version.
         bind_res (unwrap_opt (get_vec parts 2)) (\<lambda>minor_version.
           Inr (major_version @ ''.'' @ patch_version @ minor_version)))))"

section \<open>A reference parser for samples\<close>

text \<open>
  The text exposition format of Prometheus, for one sample without a time: a metric name
  (\<open>[a-zA-Z_:][a-zA-Z0-9_:]*\<close>); in braces, if there are any, labels, each a name
  (\<open>[a-zA-Z_][a-zA-Z0-9_]*\<close>), an equals sign and a value in double quotes, in which a backslash escapes
  a backslash, a quote or \<open>n\<close> and a raw line feed is not allowed, separated by commas; one space;
  a number without white space in it; and a line feed, after which only blank lines may follow.
\<close>

definition is_letter :: "char \<Rightarrow> bool" where
  "is_letter c \<longleftrightarrow> (let n = of_char c :: nat in 97 \<le> n \<and> n \<le> 122 \<or> 65 \<le> n \<and> n \<le> 90)"

definition label_start :: "char \<Rightarrow> bool" where
  "label_start c \<longleftrightarrow> is_letter c \<or> c = CHR ''_''"

definition label_char :: "char \<Rightarrow> bool" where
  "label_char c \<longleftrightarrow> label_start c \<or> is_digit c"

definition metric_start :: "char \<Rightarrow> bool" where
  "metric_start c \<longleftrightarrow> label_start c \<or> c = CHR '':''"

definition metric_char :: "char \<Rightarrow> bool" where
  "metric_char c \<longleftrightarrow> metric_start c \<or> is_digit c"

definition name_of :: "(char \<Rightarrow> bool) \<Rightarrow> (char \<Rightarrow> bool) \<Rightarrow> string \<Rightarrow> bool" where
  "name_of start other s \<longleftrightarrow> (case s of [] \<Rightarrow> False | c # r \<Rightarrow> start c \<and> list_all other r)"

definition parse_name :: "(char \<Rightarrow> bool) \<Rightarrow> (char \<Rightarrow> bool) \<Rightarrow> string \<Rightarrow> (string \<times> string) option" where
  "parse_name start other s =
     (case s of
        [] \<Rightarrow> None
      | c # r \<Rightarrow> if start c then Some (c # takeWhile other r, dropWhile other r) else None)"

text \<open>The value of a label, after the opening quote.\<close>

fun parse_quoted :: "string \<Rightarrow> (string \<times> string) option" where
  "parse_quoted [] = None"
| "parse_quoted [c] = (if c = CHR 0x22 then Some ([], []) else None)"
| "parse_quoted (c # d # r) =
     (if c = CHR 0x22 then Some ([], d # r)
      else if c = CHR 0x0A then None
      else if c = CHR 0x5C then
        if d = CHR 0x5C \<or> d = CHR 0x22 then map_option (\<lambda>(v, r). (d # v, r)) (parse_quoted r)
        else if d = CHR ''n'' then map_option (\<lambda>(v, r). (CHR 0x0A # v, r)) (parse_quoted r)
        else None
      else map_option (\<lambda>(v, r). (c # v, r)) (parse_quoted (d # r)))"

definition parse_label :: "string \<Rightarrow> ((string \<times> string) \<times> string) option" where
  "parse_label s =
     (case parse_name label_start label_char s of
        Some (k, eq # q # r) \<Rightarrow>
          if eq = CHR ''='' \<and> q = CHR 0x22 then map_option (\<lambda>(v, r). ((k, v), r)) (parse_quoted r) else None
      | _ \<Rightarrow> None)"

lemma parse_quoted_length: "parse_quoted s = Some (v, r) \<Longrightarrow> length r < length s"
  by (induction s arbitrary: v rule: parse_quoted.induct) (fastforce split: if_splits)+

lemma parse_label_length: "parse_label s = Some (l, r) \<Longrightarrow> length r < length s"
proof -
  assume l: "parse_label s = Some (l, r)"
  obtain k x where k: "parse_name label_start label_char s = Some (k, x)"
    using l by (cases "parse_name label_start label_char s") (auto simp: parse_label_def)
  then have "length x < length s"
    using length_dropWhile_le by (auto simp: parse_name_def less_Suc_eq_le split: list.splits if_splits)
  moreover have "length r < length x"
    using l k parse_quoted_length by (fastforce simp: parse_label_def split: list.splits if_splits)
  ultimately show ?thesis by simp
qed

function parse_labels :: "string \<Rightarrow> ((string, string) hmap \<times> string) option" where
  "parse_labels s =
     (case parse_label s of
        Some (l, c # r) \<Rightarrow>
          if c = CHR ''}'' then Some ([l], r)
          else if c = CHR '','' then map_option (\<lambda>(ls, rest). (l # ls, rest)) (parse_labels r)
          else None
      | _ \<Rightarrow> None)"
  by pat_completeness auto

termination
  by (relation "measure length") (auto dest: parse_label_length)

declare parse_labels.simps [simp del]

definition sample_number :: "string \<Rightarrow> bool" where
  "sample_number tok \<longleftrightarrow> tok \<noteq> [] \<and> list_all (\<lambda>c. \<not> is_white c) tok \<and> parse_f64 tok \<noteq> None"

definition parse_number :: "string \<Rightarrow> string option" where
  "parse_number s =
     (let tok = takeWhile (\<lambda>c. \<not> is_white c) s; rest = dropWhile (\<lambda>c. \<not> is_white c) s
      in if sample_number tok \<and> rest \<noteq> [] \<and> list_all (\<lambda>c. c = CHR 0x0A) rest then Some tok else None)"

definition parse_sample :: "string \<Rightarrow> (string \<times> (string, string) hmap \<times> string) option" where
  "parse_sample s =
     (case parse_name metric_start metric_char s of
        Some (key, c # r) \<Rightarrow>
          if c = CHR ''{'' then
            (case parse_labels r of
               Some (labels, sp # rest) \<Rightarrow>
                 if sp = CHR '' '' then map_option (\<lambda>v. (key, labels, v)) (parse_number rest) else None
             | _ \<Rightarrow> None)
          else if c = CHR '' '' then map_option (\<lambda>v. (key, [], v)) (parse_number r)
          else None
      | _ \<Rightarrow> None)"

section \<open>Samples read back\<close>

definition label_text :: "string \<times> string \<Rightarrow> string" where
  "label_text l = fst l @ ''='' @ [CHR 0x22] @ label_value (snd l) @ [CHR 0x22]"

lemma butlast_labels:
  "ls \<noteq> [] \<Longrightarrow> butlast (concat (map (\<lambda>l. label_text l @ '','') ls)) = join '','' (map label_text ls)"
proof (induction ls rule: induct_list012)
  case (3 l l' ls)
  then show ?case by (simp add: butlast_append)
qed (simp_all add: butlast_append)

lemma format_labels:
  "labels \<noteq> [] \<Longrightarrow> format_prometheus_metric key val (Some labels) =
     key @ ''{'' @ join '','' (map label_text labels) @ ''} '' @ val @ [CHR 0x0A]"
  using butlast_labels [of labels]
  by (cases labels) (auto simp: format_prometheus_metric_def butlast_append label_text_def case_prod_unfold)

text \<open>Printed label values hold no quote and no backslash, and a line feed only if one was there.\<close>

lemma label_value_chars: "set (label_value v) \<subseteq> (set v \<union> {CHR ''_''}) - {CHR 0x22, CHR 0x5C}"
  using set_replace_char [of "CHR 0x22" "''_''" v] set_replace_char [of "CHR 0x5C" "[]" "replace_char (CHR 0x22) ''_'' v"]
  by (auto simp: label_value_def)

lemma filter_cmdline_line: "CHR 0x0A \<notin> set (filter_cmdline c)"
  using set_replace_char [of "CHR 0x0A" "[]" "replace_char (CHR 0x22) [CHR 0x5C, CHR 0x22] c"]
  by (auto simp: filter_cmdline_def)

lemma parse_name_stop:
  assumes "name_of start other k" "\<not> other c"
  shows "parse_name start other (k @ c # r) = Some (k, c # r)"
  using assms by (cases k) (simp_all add: name_of_def parse_name_def takeWhile_append dropWhile_append list_all_iff)

lemma parse_quoted_plain:
  "set v \<inter> {CHR 0x22, CHR 0x5C, CHR 0x0A} = {} \<Longrightarrow> parse_quoted (v @ CHR 0x22 # r) = Some (v, r)"
proof (induction v)
  case Nil
  show ?case by (cases r) simp_all
next
  case (Cons c v)
  then have "c \<noteq> CHR 0x22" "c \<noteq> CHR 0x5C" "c \<noteq> CHR 0x0A" "parse_quoted (v @ CHR 0x22 # r) = Some (v, r)" by auto
  then show ?case by (cases v) simp_all
qed

lemma not_label_char [simp]: "\<not> label_char CHR ''=''"
  by (simp add: label_char_def label_start_def is_letter_def is_digit_def)

lemma not_metric_char [simp]: "\<not> metric_char CHR ''{''" "\<not> metric_char CHR '' ''"
  by (simp_all add: metric_char_def metric_start_def label_start_def is_letter_def is_digit_def)

abbreviation label_ok :: "string \<times> string \<Rightarrow> bool" where
  "label_ok l \<equiv> name_of label_start label_char (fst l) \<and> CHR 0x0A \<notin> set (snd l)"

lemma parse_label_text:
  assumes "label_ok l"
  shows "parse_label (label_text l @ r) = Some ((fst l, label_value (snd l)), r)"
proof -
  have "set (label_value (snd l)) \<inter> {CHR 0x22, CHR 0x5C, CHR 0x0A} = {}"
    using label_value_chars [of "snd l"] assms by auto
  then show ?thesis using parse_name_stop [of label_start label_char "fst l"] assms
    by (simp add: parse_label_def label_text_def parse_quoted_plain)
qed

lemma parse_labels_join:
  assumes "labels \<noteq> []" "list_all label_ok labels"
  shows "parse_labels (join '','' (map label_text labels) @ CHR ''}'' # r) =
    Some (map (\<lambda>(k, v). (k, label_value v)) labels, r)"
  using assms
proof (induction labels rule: induct_list012)
  case (2 l)
  then show ?case by (subst parse_labels.simps) (simp add: parse_label_text case_prod_unfold)
next
  case (3 l l' ls)
  then show ?case by (subst parse_labels.simps) (simp add: parse_label_text case_prod_unfold)
qed simp

lemma parse_number_lines:
  assumes "sample_number tok"
  shows "parse_number (tok @ replicate n (CHR 0x0A) @ [CHR 0x0A]) = Some tok"
proof -
  have w: "is_white (CHR 0x0A)" by (simp add: is_white_def)
  have "takeWhile (\<lambda>c. \<not> is_white c) (replicate n (CHR 0x0A) @ [CHR 0x0A]) = []"
    "dropWhile (\<lambda>c. \<not> is_white c) (replicate n (CHR 0x0A) @ [CHR 0x0A]) = replicate n (CHR 0x0A) @ [CHR 0x0A]"
    using w by (cases n; simp)+
  then show ?thesis using assms
    by (simp add: parse_number_def sample_number_def takeWhile_append2 dropWhile_append2 list_all_iff)
qed

text \<open>
  A sample read back: the name, the labels in order with the values the program meant to send (quotes
  replaced, backslashes dropped), and the number. The text of a counter file ends with a line feed of
  its own, which makes a blank line.
\<close>

lemma parse_format:
  assumes "name_of metric_start metric_char key" "list_all label_ok labels" "sample_number tok"
  shows "parse_sample (format_prometheus_metric key (tok @ replicate n (CHR 0x0A)) (if labels = [] then None else Some labels)) =
    Some (key, map (\<lambda>(k, v). (k, label_value v)) labels, tok)"
proof (cases "labels = []")
  case True
  then show ?thesis using parse_name_stop [OF assms(1)] parse_number_lines [OF assms(3), of n]
    by (simp add: format_prometheus_metric_def parse_sample_def)
next
  case False
  then show ?thesis
    using parse_name_stop [OF assms(1)] parse_number_lines [OF assms(3), of n]
      parse_labels_join [OF False assms(2), of "CHR '' '' # tok @ replicate n (CHR 0x0A) @ [CHR 0x0A]"]
    by (simp add: format_labels parse_sample_def)
qed

section \<open>Names of virtual machines\<close>

lemma split_str_nonempty: "split_str p n acc s \<noteq> []"
  by (induction p n acc s rule: split_str.induct) auto

lemma split_str_length: "Suc (length s) \<le> n \<Longrightarrow> p \<noteq> [] \<Longrightarrow> contains s p \<Longrightarrow> 2 \<le> length (split_str p n acc s)"
proof (induction p n acc s rule: split_str.induct)
  case (3 p n acc x xs)
  show ?case
  proof (cases "starts_with (x # xs) p")
    case True
    then show ?thesis using split_str_nonempty by (simp add: Suc_le_eq)
  next
    case False
    then show ?thesis using 3 by simp
  qed
qed auto

lemma filter_qemu_cmdline_total: "\<exists>r. filter_qemu_cmdline c = Inr r"
proof (cases "contains c ''qemu-system'' \<and> contains c ''guest=''")
  case True
  then have "2 \<le> length (split_on ''guest='' c)" using split_str_length by (simp add: split_on_def)
  then show ?thesis using True by (auto simp: filter_qemu_cmdline_def Let_def index_vec_def)
qed (auto simp: filter_qemu_cmdline_def)

end
