(* ===== verification/Metrics.thy ===== *)
theory Metrics
  imports Topology_Power Containers Export_Utils
begin

text \<open>
  \<open>exporters/mod.rs\<close>: metrics, and the generator that turns the state of the topology into the list
  of metrics every exporter sends.
\<close>

section \<open>Data\<close>

datatype MetricValueType = Text string | IntUnsigned u64

fun MetricValueType_fmt :: "MetricValueType \<Rightarrow> string" where
  "MetricValueType_fmt (Text text) = text"
| "MetricValueType_fmt (IntUnsigned val) = show_u64 val"

record Metric =
  m_name :: string
  m_metric_type :: string
  m_ttl :: f32
  m_hostname :: string
  m_state :: string
  m_tags :: "string list"
  m_attributes :: "(string, string) hmap"
  m_description :: string
  m_metric_value :: MetricValueType
  m_timestamp :: duration

text \<open>
  The clients of docker and kubernetes cannot be inspected, so a field says whether the client is
  there; what the services answer is a parameter.
\<close>

record MetricGenerator =
  mg_data :: "Metric list"
  mg_topology :: Topology
  mg_hostname :: string
  mg_qemu :: bool
  mg_watch_containers :: bool
  mg_containers_last_check :: string
  mg_containers :: "Container list"
  mg_docker_version :: string
  mg_docker_client :: bool
  mg_watch_docker :: bool
  mg_watch_kubernetes :: bool
  mg_kubernetes_client :: bool
  mg_pods :: "Pod list"
  mg_pods_last_check :: string

text \<open>
  The container services at one instant: whether they can be reached, and the answers of
  \<open>get_version\<close>, \<open>get_containers\<close>, \<open>get_events\<close> (the number of events) and \<open>list_pods\<close>.
\<close>

record container_services =
  cs_docker_connect :: bool
  cs_kubernetes_connect :: bool
  cs_get_version :: "string option"
  cs_get_containers :: "Container list option"
  cs_get_events :: "string \<Rightarrow> string \<Rightarrow> nat option"
  cs_list_pods :: "Pod list option"

definition MetricGenerator_new ::
  "container_services \<Rightarrow> Topology \<Rightarrow> string \<Rightarrow> bool \<Rightarrow> bool \<Rightarrow> MetricGenerator" where
  "MetricGenerator_new cs topology hostname qemu watch_containers =
     \<lparr>mg_data = [], mg_topology = topology, mg_hostname = hostname, mg_qemu = qemu,
      mg_watch_containers = watch_containers, mg_containers_last_check = [], mg_containers = [],
      mg_docker_version = [], mg_docker_client = (watch_containers \<and> cs_docker_connect cs),
      mg_watch_docker = True, mg_watch_kubernetes = True,
      mg_kubernetes_client = (watch_containers \<and> cs_kubernetes_connect cs),
      mg_pods = [], mg_pods_last_check = []\<rparr>"

text \<open>The fields all metrics share: a time to live of 60 seconds, the state and the tag.\<close>

definition new_metric ::
  "string \<Rightarrow> string \<Rightarrow> string \<Rightarrow> duration \<Rightarrow> (string, string) hmap \<Rightarrow> string \<Rightarrow> MetricValueType \<Rightarrow> Metric" where
  "new_metric hostname name metric_type ts attributes description val =
     \<lparr>m_name = name, m_metric_type = metric_type, m_ttl = f32_lit 60, m_hostname = hostname,
      m_state = ''ok'', m_tags = [''scaphandre''], m_attributes = attributes,
      m_description = description, m_metric_value = val, m_timestamp = ts\<rparr>"

definition push_metrics :: "Metric list \<Rightarrow> MetricGenerator \<Rightarrow> MetricGenerator" where
  "push_metrics ms g = g\<lparr>mg_data := mg_data g @ ms\<rparr>"

text \<open>A metric with the value of a record that may be missing.\<close>

definition record_metric ::
  "string \<Rightarrow> string \<Rightarrow> string \<Rightarrow> (string, string) hmap \<Rightarrow> string \<Rightarrow> Record option \<Rightarrow> Metric list" where
  "record_metric hostname name metric_type attributes description r =
     (case r of
        None \<Rightarrow> []
      | Some r \<Rightarrow> [new_metric hostname name metric_type (timestamp r) attributes description (Text (rec_value r))])"

section \<open>Self metrics\<close>

text \<open>A metric with the number read back from the text of a record.\<close>

definition unsigned_metric ::
  "string \<Rightarrow> string \<Rightarrow> duration \<Rightarrow> (Record \<Rightarrow> string) \<Rightarrow> Record option \<Rightarrow> Metric list res" where
  "unsigned_metric hostname name ts description r =
     (case r of
        None \<Rightarrow> Inr []
      | Some r \<Rightarrow> map_res (\<lambda>v. [new_metric hostname name ''gauge'' ts [] (description r) (IntUnsigned v)])
          (parse_unwrap (parse_u64 (rec_value r))))"

definition self_socket_metrics :: "string \<Rightarrow> duration \<Rightarrow> CPUSocket \<Rightarrow> Metric list" where
  "self_socket_metrics hostname ts s =
     (let attributes = hm_insert ''socket_id'' (show_u16 (sock_id s)) []
      in [new_metric hostname ''scaph_self_socket_stats_nb'' ''gauge'' ts attributes
            ''Number of CPUStat traces stored for each socket'' (IntUnsigned (of_nat (length (sock_stat_buffer s)))),
          new_metric hostname ''scaph_self_socket_records_nb'' ''gauge'' ts attributes
            ''Number of energy consumption Records stored for each socket''
            (IntUnsigned (of_nat (length (sock_record_buffer s))))]
         @ map (\<lambda>d. new_metric hostname ''scaph_self_domain_records_nb'' ''gauge'' ts
                  (hm_insert ''rapl_domain_name'' (dom_name d) attributes)
                  ''Number of energy consumption Records stored for a Domain''
                  (IntUnsigned (of_nat (length (dom_record_buffer d)))))
             (sock_domains s))"

definition gen_self_metrics :: "string \<Rightarrow> world \<Rightarrow> MetricGenerator \<Rightarrow> MetricGenerator res" where
  "gen_self_metrics crate_version w g =
     (let t = mg_topology g; m = new_metric (mg_hostname g)
      in bind_res (IProcess_myself (w [0]) (topo_proc_tracker t)) (\<lambda>myself.
         let ts = current_system_time_since_epoch (w [1])
         in bind_res (get_scaphandre_version crate_version) (\<lambda>version.
            bind_res (unsigned_metric (mg_hostname g) ''scaph_self_memory_virtual_bytes'' ts
              (\<lambda>r. ''Total program size, measured in '' @ Unit_fmt (rec_unit r) @ ''.'')
              (get_process_memory_virtual_bytes t (ip_pid myself))) (\<lambda>virtual_bytes.
            bind_res (unsigned_metric (mg_hostname g) ''scaph_self_memory_bytes'' ts
              (\<lambda>_. ''Resident set size, measured in bytes.'')
              (get_process_memory_bytes t (ip_pid myself))) (\<lambda>memory_bytes.
              Inr (push_metrics
                ([m ''scaph_self_version'' ''gauge'' ts [] ''Version number of scaphandre represented as a float.'' (Text version)]
                 @ (case get_process_cpu_usage_percentage t (ip_pid myself) of
                      None \<Rightarrow> []
                    | Some r \<Rightarrow> [m ''scaph_self_cpu_usage_percent'' ''gauge'' (timestamp r) []
                          (''CPU time consumed by scaphandre, as '' @ Unit_fmt (rec_unit r)) (Text (rec_value r))])
                 @ virtual_bytes @ memory_bytes
                 @ [m ''scaph_self_topo_stats_nb'' ''gauge'' ts [] ''Number of CPUStat traces stored for the host.''
                      (IntUnsigned (of_nat (length (topo_stat_buffer t)))),
                    m ''scaph_self_topo_records_nb'' ''gauge'' ts [] ''Number of energy consumption Records stored for the host.''
                      (IntUnsigned (of_nat (length (topo_record_buffer t)))),
                    m ''scaph_self_topo_procs_nb'' ''gauge'' ts [] ''Number of processes monitored for the host.''
                      (IntUnsigned (of_nat (length (pt_procs (topo_proc_tracker t)))))]
                 @ concat (map (self_socket_metrics (mg_hostname g) ts) (topo_sockets t))) g))))))"

section \<open>Host metrics\<close>

definition value_source :: "(string, string) hmap \<Rightarrow> (string, string) hmap" where
  "value_source sensor_data =
     (if hm_contains_key sensor_data ''psys'' then hm_insert ''value_source'' ''powercap_rapl_psys'' []
      else if hm_contains_key sensor_data ''source_file'' then hm_insert ''value_source'' ''powercap_rapl_pkg'' []
      else if hm_contains_key sensor_data ''DRIVER_NAME'' then hm_insert ''value_source'' ''scaphandredrv_rapl_pkg'' []
      else [])"

text \<open>The metrics of the cores are labelled with the position of the value in the list.\<close>

definition core_metrics :: "string \<Rightarrow> string \<Rightarrow> duration \<Rightarrow> string \<Rightarrow> string list \<Rightarrow> Metric list" where
  "core_metrics hostname name ts description vals =
     map (\<lambda>(i, v). new_metric hostname name ''gauge'' ts (hm_insert ''core_id'' (show_nat i) []) description (Text v))
       (enumerate 0 vals)"

definition host_power_metrics :: "world \<Rightarrow> string \<Rightarrow> Topology \<Rightarrow> Metric list" where
  "host_power_metrics w hostname t =
     (let records = Topology_get_records_passive t
      in if records = [] then []
         else
           let r = last records; attributes = value_source (topo_sensor_data t);
               ts = current_system_time_since_epoch (w [5])
           in [new_metric hostname ''scaph_host_energy_microjoules'' ''counter'' (timestamp r) attributes
                 ''Energy measurement for the whole host, as extracted from the sensor, in microjoules.'' (Text (rec_value r))]
              @ record_metric hostname ''scaph_host_power_microwatts'' ''gauge'' attributes
                  ''Active power measurement on the whole host, in microwatts''
                  (Topology_get_records_diff_power_microwatts (w [0]) t)
              @ record_metric hostname ''scaph_host_idle_power_microwatts'' ''gauge'' []
                  ''Idle power measurement for the whole host, in microwatts''
                  (Topology_get_idle_power_microwatts (w [1]) t)
              @ record_metric hostname ''scaph_host_activation_power_microwatts'' ''gauge'' []
                  ''Activation power measurement for the whole host, in microwatts''
                  (Topology_get_activation_power_microwatts (w [2]) t)
              @ record_metric hostname ''scaph_host_background_power_microwatts'' ''gauge'' []
                  ''Background power (max of idle and activation) for the whole host, in microwatts''
                  (Topology_get_background_power_microwatts (w [3]) t)
              @ (case Topology_get_proportional_core_diff_power_microwatts (sub_world 4 w) t of
                   None \<Rightarrow> []
                 | Some cores \<Rightarrow> core_metrics hostname ''scaph_host_core_power_microwatts'' (mv_timestamp cores)
                     ''Per-core power consumption in microwatts'' (mv_values cores))
              @ core_metrics hostname ''scaph_host_core_coefficient'' ts
                  ''Per-core IPC/frequency coefficient used for power attribution''
                  (map show_f64 (Topology_get_core_coefs t))
              @ core_metrics hostname ''scaph_host_core_proportion'' ts
                  (''Per-core proportion of total power attributed to this core (0.0''
                     @ [CHR 0xE2, CHR 0x80, CHR 0x93] @ ''1.0)'')
                  (map show_f64 (Topology_get_core_proportions t)))"

definition load_metrics :: "string \<Rightarrow> Record list option \<Rightarrow> Metric list res" where
  "load_metrics hostname loads =
     (case loads of
        None \<Rightarrow> Inr []
      | Some v \<Rightarrow>
          traverse_res (\<lambda>(i, name, description).
              map_res (\<lambda>r. new_metric hostname name ''gauge'' (timestamp r) [] description (Text (rec_value r))) (index_vec v i))
            [(0, ''scaph_host_load_avg_one'', ''Load average on 1 minute.''),
             (1, ''scaph_host_load_avg_five'', ''Load average on 5 minutes.''),
             (2, ''scaph_host_load_avg_fifteen'', ''Load average on 15 minutes.'')])"

definition disk_metrics :: "string \<Rightarrow> (string, string \<times> (string, string) hmap \<times> Record) hmap \<Rightarrow> Metric list" where
  "disk_metrics hostname disks =
     map (\<lambda>(name, description, attributes, r).
            new_metric hostname name ''gauge'' (timestamp r) attributes description (Text (rec_value r))) disks"

definition memory_metrics :: "world \<Rightarrow> string \<Rightarrow> Topology \<Rightarrow> Metric list" where
  "memory_metrics w hostname t =
     map (\<lambda>(name, description, r). new_metric hostname name ''gauge'' (timestamp r) [] description (Text (rec_value r)))
       [(''scaph_host_memory_total_bytes'', ''Random Access Memory installed on the host, in bytes.'',
           get_total_memory_bytes (w [0]) t),
        (''scaph_host_memory_available_bytes'', ''Random Access Memory available to be re-used on the host, in bytes.'',
           get_available_memory_bytes (w [1]) t),
        (''scaph_host_memory_free_bytes'', ''Random Access Memory free to be used (not reused) on the host, in bytes.'',
           get_free_memory_bytes (w [2]) t),
        (''scaph_host_swap_free_bytes'', ''Swap space free to be used on the host, in bytes.'',
           get_free_swap_bytes (w [3]) t),
        (''scaph_host_swap_total_bytes'', ''Total swap space on the host, in bytes.'',
           get_total_swap_bytes (w [4]) t)]"

definition gen_host_metrics :: "world \<Rightarrow> MetricGenerator \<Rightarrow> MetricGenerator res" where
  "gen_host_metrics w g =
     (let t = mg_topology g; h = mg_hostname g; freq = Topology_get_cpu_frequency (w [2]) t
      in bind_res (load_metrics h (get_load_avg (w [1]) t)) (\<lambda>loads.
           Inr (push_metrics
             (host_power_metrics (sub_world 0 w) h t @ loads
              @ [new_metric h ''scaph_host_cpu_frequency'' ''gauge'' (timestamp freq) []
                   (''Global frequency of all the cpus. In '' @ Unit_fmt (rec_unit freq)) (Text (rec_value freq))]
              @ disk_metrics h (get_disks (w [3]) t)
              @ memory_metrics (sub_world 4 w) h t) g)))"

section \<open>Socket metrics\<close>

definition domain_metrics :: "env \<Rightarrow> string \<Rightarrow> CPUSocket \<Rightarrow> Domain \<Rightarrow> Metric list" where
  "domain_metrics e hostname s d =
     (let records = Domain_get_records_passive d
      in if records = [] then []
         else
           let r = last records;
               attributes = hm_insert ''socket_id'' (show_u16 (sock_id s))
                 (hm_insert ''domain_id'' (show_u16 (dom_id d)) (hm_insert ''domain_name'' (dom_name d) []))
           in [new_metric hostname ''scaph_domain_energy_microjoules'' ''counter'' (timestamp r) attributes
                 ''Domain related energy measurement in microjoules.'' (Text (rec_value r))]
              @ record_metric hostname ''scaph_domain_power_microwatts'' ''gauge'' attributes
                  ''Power measurement relative to a RAPL Domain, in microwatts''
                  (Domain_get_records_diff_power_microwatts d)
              @ record_metric hostname ''scaph_domain_rapl_mmio_energy_microjoules'' ''counter''
                  (hm_insert ''value_source'' ''powercap_rapl_mmio'' attributes)
                  (''Energy counter from RAPL mmio interface for the '' @ dom_name d @ '' domain, socket ''
                     @ show_u16 (sock_id s) @ ''.'')
                  (Domain_get_rapl_mmio_energy_microjoules e d))"

definition socket_metrics :: "world \<Rightarrow> string \<Rightarrow> CPUSocket \<Rightarrow> Metric list" where
  "socket_metrics w hostname s =
     (let records = CPUSocket_get_records_passive s;
          attributes = hm_insert ''socket_id'' (show_u16 (sock_id s)) []
      in (if records = [] then []
          else
            let r = last records
            in [new_metric hostname ''scaph_socket_energy_microjoules'' ''counter'' (timestamp r) attributes
                  ''Socket related energy measurement in microjoules.'' (Text (rec_value r))]
               @ record_metric hostname ''scaph_socket_power_microwatts'' ''gauge'' attributes
                   ''Active power measurement relative to a CPU socket, in microwatts''
                   (CPUSocket_get_records_diff_power_microwatts (w [0]) s)
               @ record_metric hostname ''scaph_socket_idle_power_microwatts'' ''gauge'' attributes
                   ''Idle power measurement relative to a CPU socket, in microwatts''
                   (CPUSocket_get_idle_power_microwatts (w [1]) s)
               @ record_metric hostname ''scaph_socket_activation_power_microwatts'' ''gauge'' attributes
                   ''Activation power measurement relative to a CPU socket, in microwatts''
                   (CPUSocket_get_activation_power_microwatts (w [2]) s)
               @ record_metric hostname ''scaph_socket_background_power_microwatts'' ''gauge'' attributes
                   ''Background power (max of idle and activation) relative to a CPU socket, in microwatts''
                   (CPUSocket_get_background_power_microwatts (w [3]) s))
         @ record_metric hostname ''scaph_socket_rapl_mmio_energy_microjoules'' ''counter'' attributes
             (''Energy counter from RAPL mmio interface for Package-0 of CPU socket '' @ show_u16 (sock_id s))
             (CPUSocket_get_rapl_mmio_energy_microjoules (w [4]) s)
         @ concat (map (\<lambda>(i, d). domain_metrics (w [5, i]) hostname s d) (enumerate 0 (sock_domains s))))"

definition gen_socket_metrics :: "world \<Rightarrow> MetricGenerator \<Rightarrow> MetricGenerator" where
  "gen_socket_metrics w g =
     push_metrics (concat (map (\<lambda>(i, s). socket_metrics (sub_world i w) (mg_hostname g) s)
       (enumerate 0 (topo_sockets (mg_topology g))))) g"

section \<open>System metrics\<close>

definition count_metric ::
  "string \<Rightarrow> string \<Rightarrow> string \<Rightarrow> duration \<Rightarrow> string \<Rightarrow> u64 option \<Rightarrow> Metric list" where
  "count_metric hostname name metric_type ts description n =
     (case n of
        None \<Rightarrow> []
      | Some v \<Rightarrow> [new_metric hostname name metric_type ts [] description (IntUnsigned v)])"

definition gen_system_metrics :: "world \<Rightarrow> MetricGenerator \<Rightarrow> MetricGenerator" where
  "gen_system_metrics w g =
     (let h = mg_hostname g; ts = current_system_time_since_epoch (w [0])
      in push_metrics
           (count_metric h ''scaph_forks_since_boot_total'' ''counter'' ts
              ''Number of forks that have occured since boot (number of processes to have existed so far).''
              (read_nb_process_total_count (w [1]))
            @ count_metric h ''scaph_processes_running_current'' ''gauge'' ts
                ''Number of processes currently running.''
                (map_option ucast (read_nb_process_running_current (w [2])))
            @ count_metric h ''scaph_processes_blocked_current'' ''gauge'' ts
                ''Number of processes currently blocked waiting for I/O.''
                (map_option ucast (read_nb_process_blocked_current (w [3])))
            @ count_metric h ''scaph_context_switches_total'' ''counter'' ts
                ''Number of context switches since boot.''
                (read_nb_context_switches_total_count (w [4]))) g)"

section \<open>Process metrics\<close>

definition gen_docker_containers_basic_metadata :: "container_services \<Rightarrow> env \<Rightarrow> MetricGenerator \<Rightarrow> MetricGenerator" where
  "gen_docker_containers_basic_metadata cs e g =
     (if mg_watch_docker g \<and> mg_docker_client g then
        (case cs_get_containers cs of
           Some containers_result \<Rightarrow>
             g\<lparr>mg_containers := containers_result,
               mg_containers_last_check := show_u64 (as_secs (current_system_time_since_epoch e))\<rparr>
         | None \<Rightarrow> g)
      else g)"

definition gen_kubernetes_pods_basic_metadata :: "container_services \<Rightarrow> env \<Rightarrow> MetricGenerator \<Rightarrow> MetricGenerator" where
  "gen_kubernetes_pods_basic_metadata cs e g =
     (if mg_watch_kubernetes g then
        let g = (if mg_kubernetes_client g
                 then (case cs_list_pods cs of Some pods_result \<Rightarrow> g\<lparr>mg_pods := pods_result\<rparr> | None \<Rightarrow> g)
                 else g)
        in g\<lparr>mg_pods_last_check := show_u64 (as_secs (current_system_time_since_epoch e))\<rparr>
      else g)"

definition check_docker :: "container_services \<Rightarrow> world \<Rightarrow> string \<Rightarrow> MetricGenerator \<Rightarrow> MetricGenerator" where
  "check_docker cs w now g =
     (if mg_watch_docker g \<and> mg_docker_client g then
        let last_check = mg_containers_last_check g;
            g = (if last_check = [] then
                   (case cs_get_version cs of
                      Some version \<Rightarrow> gen_docker_containers_basic_metadata cs (w [0]) (g\<lparr>mg_docker_version := version\<rparr>)
                    | None \<Rightarrow> g\<lparr>mg_watch_docker := False\<rparr>)
                 else
                   (case cs_get_events cs last_check now of
                      Some events \<Rightarrow> if events \<noteq> 0 then gen_docker_containers_basic_metadata cs (w [0]) g else g
                    | None \<Rightarrow> g))
        in g\<lparr>mg_containers_last_check := show_u64 (as_secs (current_system_time_since_epoch (w [1])))\<rparr>
      else g)"

definition parse_i32 :: "string \<Rightarrow> int option" where
  "parse_i32 s = parse_sint (2 ^ 31) s"

definition i32_sub :: "int \<Rightarrow> int \<Rightarrow> int" where
  "i32_sub a b = (a - b + 2 ^ 31) mod 2 ^ 32 - 2 ^ 31"

definition check_kubernetes ::
  "container_services \<Rightarrow> container_services \<Rightarrow> world \<Rightarrow> string \<Rightarrow> MetricGenerator \<Rightarrow> MetricGenerator res" where
  "check_kubernetes cs cs' w now g =
     (if mg_watch_kubernetes g \<and> mg_kubernetes_client g then
        let g = (if mg_pods_last_check g = [] then gen_kubernetes_pods_basic_metadata cs (w [0]) g else g)
        in bind_res (parse_unwrap (parse_i32 now)) (\<lambda>n.
           bind_res (parse_unwrap (parse_i32 (mg_pods_last_check g))) (\<lambda>l.
             Inr (if i32_sub n l > 20 then gen_kubernetes_pods_basic_metadata cs' (w [1]) g else g)))
      else Inr g)"

definition refresh_containers :: "(nat \<Rightarrow> container_services) \<Rightarrow> world \<Rightarrow> MetricGenerator \<Rightarrow> MetricGenerator res" where
  "refresh_containers cs w g =
     (if mg_watch_containers g then
        let now = show_u64 (as_secs (current_system_time_since_epoch (w [0])))
        in check_kubernetes (cs 1) (cs 2) (sub_world 2 w) now (check_docker (cs 0) (sub_world 1 w) now g)
      else Inr g)"

definition container_attributes ::
  "cgroup_regexes \<Rightarrow> env \<Rightarrow> MetricGenerator \<Rightarrow> Pid \<Rightarrow> (string, string) hmap res" where
  "container_attributes re e g pid =
     (if mg_watch_containers g \<and> (mg_containers g \<noteq> [] \<or> mg_pods g \<noteq> []) then
        map_res (\<lambda>container_data. fold (\<lambda>(k, v). hm_insert k v) container_data [])
          (get_process_container_description re e (topo_proc_tracker (mg_topology g)) pid
             (mg_containers g) (mg_docker_version g) (mg_pods g))
      else Inr [])"

definition cmdline_attributes ::
  "bool \<Rightarrow> string option \<Rightarrow> (string, string) hmap \<Rightarrow> (string, string) hmap res" where
  "cmdline_attributes qemu cmdline attributes =
     (case cmdline of
        None \<Rightarrow> Inr attributes
      | Some cmdline_str \<Rightarrow>
          let attributes = hm_insert ''cmdline'' (filter_cmdline cmdline_str) attributes
          in if qemu then
               map_res (\<lambda>vm. case vm of Some vmname \<Rightarrow> hm_insert ''vmname'' vmname attributes | None \<Rightarrow> attributes)
                 (filter_qemu_cmdline cmdline_str)
             else Inr attributes)"

definition process_metrics_of ::
  "cgroup_regexes \<Rightarrow> world \<Rightarrow> MetricGenerator \<Rightarrow> Pid \<Rightarrow> Metric list res" where
  "process_metrics_of re w g pid =
     (let pt = topo_proc_tracker (mg_topology g)
      in bind_res (get_process_name pt pid) (\<lambda>exe.
         bind_res (get_process_cmdline pt pid) (\<lambda>cmdline.
         bind_res (container_attributes re (w [0]) g pid) (\<lambda>attributes.
         bind_res (cmdline_attributes (mg_qemu g) cmdline
             (hm_insert ''exe'' exe (hm_insert ''pid'' (show_int pid) attributes))) (\<lambda>attributes.
         bind_res (get_all_per_process (sub_world 1 w) (mg_topology g) pid) (\<lambda>metrics.
           Inr (case metrics of
                  None \<Rightarrow> []
                | Some metrics \<Rightarrow>
                    map (\<lambda>(k, description, r). new_metric (mg_hostname g) k ''gauge'' (timestamp r) attributes
                           description (Text (rec_value r))) metrics)))))))"

definition gen_process_metrics ::
  "cgroup_regexes \<Rightarrow> (nat \<Rightarrow> container_services) \<Rightarrow> world \<Rightarrow> MetricGenerator \<Rightarrow> MetricGenerator res" where
  "gen_process_metrics re cs w g =
     bind_res (refresh_containers cs (sub_world 0 w) g) (\<lambda>g.
     bind_res (traverse_res (\<lambda>(i, pid). process_metrics_of re (sub_world i (sub_world 1 w)) g pid)
         (enumerate 0 (get_alive_pids (topo_proc_tracker (mg_topology g))))) (\<lambda>mss.
       Inr (push_metrics (concat mss) g)))"

section \<open>All metrics\<close>

definition gen_all_metrics ::
  "string \<Rightarrow> cgroup_regexes \<Rightarrow> (nat \<Rightarrow> container_services) \<Rightarrow> world \<Rightarrow> MetricGenerator \<Rightarrow> MetricGenerator res" where
  "gen_all_metrics crate_version re cs w g =
     bind_res (gen_self_metrics crate_version (sub_world 0 w) g) (\<lambda>g.
     bind_res (gen_host_metrics (sub_world 1 w) g) (\<lambda>g.
       gen_process_metrics re cs (sub_world 4 w)
         (gen_system_metrics (sub_world 3 w) (gen_socket_metrics (sub_world 2 w) g))))"

function pop_loop :: "'a list \<Rightarrow> 'a list \<Rightarrow> 'a list \<times> 'a list" where
  "pop_loop data res = (if data \<noteq> [] then pop_loop (butlast data) (res @ [last data]) else (data, res))"
  by pat_completeness auto
termination by (relation "measure (\<lambda>(data, res). length data)") auto

declare pop_loop.simps [simp del]

definition pop_metrics :: "MetricGenerator \<Rightarrow> Metric list \<times> MetricGenerator" where
  "pop_metrics g = (let (data, res) = pop_loop (mg_data g) [] in (res, g\<lparr>mg_data := data\<rparr>))"

definition get_processes_filtered_by_container_name ::
  "cgroup_regexes \<Rightarrow> (string \<Rightarrow> bool) \<Rightarrow> world \<Rightarrow> MetricGenerator \<Rightarrow> (IProcess \<times> f64) list res" where
  "get_processes_filtered_by_container_name re is_match w g =
     (let pt = topo_proc_tracker (mg_topology g)
      in fold_res (\<lambda>(i, p) consumers.
           if length p > 1 then
             let diff = get_cpu_usage_percentage pt (ip_pid (pr_process (hd p))) (pt_nb_cores pt);
                 p_record = last p
             in bind_res (get_process_container_description re (w [i]) pt (ip_pid (pr_process p_record))
                  (mg_containers g) (mg_docker_version g) (mg_pods g)) (\<lambda>description.
                    Inr (case hm_get description ''container_names'' of
                           Some name \<Rightarrow>
                             if is_match name then sort_by higher_first (consumers @ [(pr_process p_record, diff)])
                             else consumers
                         | None \<Rightarrow> consumers))
           else Inr consumers) (enumerate 0 (pt_procs pt)) [])"

section \<open>Draining the metrics\<close>

lemma pop_loop_rev: "pop_loop data res = ([], res @ rev data)"
proof (induction data arbitrary: res rule: rev_induct)
  case Nil
  then show ?case by (simp add: pop_loop.simps)
next
  case (snoc x xs)
  then show ?case by (subst pop_loop.simps) simp
qed

text \<open>
  Draining the metrics ends, empties the generator and hands over every metric exactly once, the
  newest first; the rest of the generator stays as it was.
\<close>

theorem pop_metrics_drains: "pop_metrics g = (rev (mg_data g), g\<lparr>mg_data := []\<rparr>)"
  by (simp add: pop_metrics_def pop_loop_rev)

section \<open>Generation never panics\<close>

lemma push_metrics_push: "push_metrics b (push_metrics a g) = push_metrics (a @ b) g"
  by (simp add: push_metrics_def)

lemma push_metrics_simps [simp]:
  "mg_data (push_metrics ms g) = mg_data g @ ms"
  "mg_topology (push_metrics ms g) = mg_topology g"
  "mg_hostname (push_metrics ms g) = mg_hostname g"
  "mg_watch_containers (push_metrics ms g) = mg_watch_containers g"
  "mg_kubernetes_client (push_metrics ms g) = mg_kubernetes_client g"
  "mg_pods_last_check (push_metrics ms g) = mg_pods_last_check g"
  by (simp_all add: push_metrics_def)

lemma unsigned_metric_ok:
  "\<exists>ms. unsigned_metric h n ts d (get_process_memory_virtual_bytes t pid) = Inr ms"
  "\<exists>ms. unsigned_metric h n ts d (get_process_memory_bytes t pid) = Inr ms"
  by (auto simp: unsigned_metric_def get_process_memory_virtual_bytes_def get_process_memory_bytes_def
      get_process_record_def Record_new_def parse_unwrap_def split: option.split)

text \<open>The program finds itself in the process table.\<close>

definition knows_itself :: "Pid \<Rightarrow> Topology \<Rightarrow> bool" where
  "knows_itself pid t \<longleftrightarrow>
     (\<exists>p. hm_get (sys_processes (pt_sysinfo (topo_proc_tracker t))) pid = Some p \<and> sp_exe p \<noteq> None)"

lemma gen_self_metrics_ok:
  assumes "knows_itself (e_current_pid (w [0])) (mg_topology g)" "3 \<le> length (split_char CHR ''.'' version)"
  shows "\<exists>ms. gen_self_metrics version w g = Inr (push_metrics ms g) \<and> ms \<noteq> []"
proof -
  let ?t = "mg_topology g"
  have "\<exists>me. IProcess_myself (w [0]) (topo_proc_tracker ?t) = Inr me"
    using assms(1) by (auto simp: knows_itself_def IProcess_myself_def IProcess_new_def split: prod.split)
  then obtain me where me: "IProcess_myself (w [0]) (topo_proc_tracker ?t) = Inr me" ..
  obtain v where v: "get_scaphandre_version version = Inr v"
    using assms(2) by (auto simp: get_scaphandre_version_def Let_def get_vec_def)
  obtain a where a: "unsigned_metric (mg_hostname g) ''scaph_self_memory_virtual_bytes'' (current_system_time_since_epoch (w [1]))
      (\<lambda>r. ''Total program size, measured in '' @ Unit_fmt (rec_unit r) @ ''.'') (get_process_memory_virtual_bytes ?t (ip_pid me)) = Inr a"
    using unsigned_metric_ok by blast
  obtain b where b: "unsigned_metric (mg_hostname g) ''scaph_self_memory_bytes'' (current_system_time_since_epoch (w [1]))
      (\<lambda>_. ''Resident set size, measured in bytes.'') (get_process_memory_bytes ?t (ip_pid me)) = Inr b"
    using unsigned_metric_ok by blast
  show ?thesis unfolding gen_self_metrics_def Let_def me bind_res_simps v a b by (rule exI, rule conjI, rule refl) simp
qed

lemma gen_host_metrics_ok: "\<exists>ms. gen_host_metrics w g = Inr (push_metrics ms g)"
proof -
  have "\<exists>l. load_metrics h (get_load_avg e t) = Inr l" for h e t
    by (simp add: load_metrics_def get_load_avg_def Let_def index_vec_def)
  then obtain l where "load_metrics (mg_hostname g) (get_load_avg (w [1]) (mg_topology g)) = Inr l" by blast
  then show ?thesis unfolding gen_host_metrics_def Let_def by simp blast
qed

lemma gen_socket_system_push:
  "\<exists>ms. gen_socket_metrics w g = push_metrics ms g" "\<exists>ms. gen_system_metrics w' g = push_metrics ms g"
  by (auto simp: gen_socket_metrics_def gen_system_metrics_def Let_def)

text \<open>Kubernetes: the seconds of the clock are read back as \<open>i32\<close>.\<close>

lemma parse_i32_show_u64:
  "parse_i32 (show_u64 s) = (if unat s < 2 ^ 31 then Some (int (unat s)) else None)"
proof -
  obtain c cs where c: "show_nat (unat s) = c # cs" "is_digit c" using show_nat_hd by blast
  then have "c \<noteq> CHR ''-''" using is_digit_plus_minus by auto
  then have "parse_sint (2 ^ 31) (show_nat (unat s)) = map_option int (parse_uint (2 ^ 31) (show_nat (unat s)))"
    using c(1) by (simp add: parse_sint_def)
  then show ?thesis by (simp add: parse_i32_def show_u64_def parse_uint_show_nat)
qed

definition pods_checked :: "MetricGenerator \<Rightarrow> bool" where
  "pods_checked g \<longleftrightarrow> mg_pods_last_check g = [] \<or> parse_i32 (mg_pods_last_check g) \<noteq> None"

definition before_2038 :: "world \<Rightarrow> bool" where
  "before_2038 w \<longleftrightarrow> (\<forall>p. unat (as_secs (e_now (w p))) < 2 ^ 31)"

abbreviation same_reports :: "MetricGenerator \<Rightarrow> MetricGenerator \<Rightarrow> bool" where
  "same_reports g g' \<equiv> mg_data g' = mg_data g \<and> mg_topology g' = mg_topology g \<and>
     mg_watch_containers g' = mg_watch_containers g \<and> mg_kubernetes_client g' = mg_kubernetes_client g"

lemma gen_kubernetes_keeps:
  "same_reports g (gen_kubernetes_pods_basic_metadata cs e g)"
  "mg_watch_kubernetes g \<Longrightarrow> mg_pods_last_check (gen_kubernetes_pods_basic_metadata cs e g) = show_u64 (as_secs (e_now e))"
  by (simp_all add: gen_kubernetes_pods_basic_metadata_def Let_def current_system_time_since_epoch_def split: option.split)

lemma check_docker_keeps:
  "same_reports g (check_docker cs w now g) \<and> mg_pods_last_check (check_docker cs w now g) = mg_pods_last_check g"
  by (simp add: check_docker_def gen_docker_containers_basic_metadata_def Let_def split: option.split)

lemma check_kubernetes_ok:
  assumes "pods_checked g" "before_2038 w" "unat s < 2 ^ 31"
  shows "\<exists>g'. check_kubernetes cs cs' w (show_u64 s) g = Inr g' \<and> same_reports g g' \<and> pods_checked g'"
proof (cases "mg_watch_kubernetes g \<and> mg_kubernetes_client g")
  case True
  define g1 where "g1 = (if mg_pods_last_check g = [] then gen_kubernetes_pods_basic_metadata cs (w [0]) g else g)"
  have b: "unat (as_secs (e_now (w p))) < 2 ^ 31" for p using assms(2) by (auto simp: before_2038_def)
  have k: "parse_i32 (show_u64 (as_secs (e_now (w p)))) = Some (int (unat (as_secs (e_now (w p)))))" for p
    using b [of p] by (simp add: parse_i32_show_u64)
  have g1: "same_reports g g1" "mg_watch_kubernetes g1" using True gen_kubernetes_keeps(1) [of cs "w [0]" g]
    by (auto simp: g1_def gen_kubernetes_pods_basic_metadata_def Let_def split: option.split)
  have "\<exists>i. parse_i32 (mg_pods_last_check g1) = Some i"
    using assms(1) True k gen_kubernetes_keeps(2) [of g cs "w [0]"] by (auto simp: g1_def pods_checked_def)
  then obtain i where i: "parse_i32 (mg_pods_last_check g1) = Some i" ..
  define g2 where "g2 = (if 20 < i32_sub (int (unat s)) i then gen_kubernetes_pods_basic_metadata cs' (w [1]) g1 else g1)"
  have "check_kubernetes cs cs' w (show_u64 s) g = Inr g2"
    using True assms(3) i by (simp add: check_kubernetes_def Let_def g1_def [symmetric] g2_def parse_i32_show_u64 parse_unwrap_def)
  moreover have "same_reports g g2" using g1(1) gen_kubernetes_keeps(1) [of cs' "w [1]" g1] by (simp add: g2_def)
  moreover have "pods_checked g2" using i g1(2) k gen_kubernetes_keeps(2) [of g1 cs' "w [1]"] by (auto simp: g2_def pods_checked_def)
  ultimately show ?thesis by blast
qed (use assms in \<open>auto simp: check_kubernetes_def\<close>)

lemma refresh_containers_ok:
  assumes "pods_checked g" "mg_kubernetes_client g \<Longrightarrow> before_2038 w"
  shows "\<exists>g'. refresh_containers cs w g = Inr g' \<and> same_reports g g' \<and> pods_checked g'"
proof (cases "mg_watch_containers g")
  case True
  let ?now = "as_secs (e_now (w [0]))"
  define g1 where "g1 = check_docker (cs 0) (sub_world 1 w) (show_u64 ?now) g"
  have g1: "same_reports g g1" "mg_pods_last_check g1 = mg_pods_last_check g"
    using check_docker_keeps [of "cs 0" "sub_world 1 w" "show_u64 ?now" g] by (simp_all add: g1_def)
  have r: "refresh_containers cs w g = check_kubernetes (cs 1) (cs 2) (sub_world 2 w) (show_u64 ?now) g1"
    using True by (simp add: refresh_containers_def g1_def current_system_time_since_epoch_def Let_def)
  have p: "pods_checked g1" using assms(1) g1(2) by (simp add: pods_checked_def)
  show ?thesis
  proof (cases "mg_kubernetes_client g")
    case True
    have "before_2038 (sub_world 2 w)" "unat ?now < 2 ^ 31"
      using assms(2) [OF True] by (auto simp: before_2038_def sub_world_def)
    then show ?thesis using check_kubernetes_ok [OF p] g1(1) unfolding r by (metis (no_types, lifting))
  next
    case False
    then show ?thesis using p g1(1) unfolding r by (auto simp: check_kubernetes_def)
  qed
qed (use assms in \<open>auto simp: refresh_containers_def\<close>)

lemma alive_pid_vector:
  assumes "tracker_inv pt" "pid \<in> set (get_alive_pids pt)"
  shows "\<exists>v. filter (has_pid pid) (pt_procs pt) = [v]"
proof -
  obtain v where v: "v \<in> set (pt_procs pt)" "has_pid pid v"
    using assms(2) by (auto simp: get_alive_pids_def get_alive_processes_def has_pid_iff)
  then obtain a b where ab: "pt_procs pt = a @ v # b" by (meson split_list)
  have "\<forall>x \<in> set a \<union> set b. \<not> has_pid pid x" by (rule tracker_find(2) [OF assms(1) ab v(2)])
  then have "filter (has_pid pid) a = []" "filter (has_pid pid) b = []" by (auto simp: filter_empty_conv)
  then show ?thesis using ab v(2) by simp
qed

lemma process_metrics_of_ok:
  assumes "tracker_inv (topo_proc_tracker (mg_topology g))" "pid \<in> set (get_alive_pids (topo_proc_tracker (mg_topology g)))"
    and "get_process_core_time_data (mg_topology g) pid = Inr d"
  shows "\<exists>ms. process_metrics_of re w g pid = Inr ms"
proof -
  let ?pt = "topo_proc_tracker (mg_topology g)"
  obtain v where v: "filter (has_pid pid) (pt_procs ?pt) = [v]" using alive_pid_vector [OF assms(1,2)] by blast
  have n: "get_process_name ?pt pid = Inr (ip_comm (pr_process (hd v)))"
    "get_process_cmdline ?pt pid = Inr (map_option concat (IProcess_cmdline ?pt (pr_process (hd v))))"
    by (simp_all add: get_process_name_def get_process_cmdline_def v)
  have "\<exists>a. container_attributes re (w [0]) g pid = Inr a"
    by (simp add: container_attributes_def get_process_container_description_def v)
  then obtain a where a: "container_attributes re (w [0]) g pid = Inr a" ..
  have "\<exists>a'. cmdline_attributes q c l = Inr a'" for q c l
  proof (cases c)
    case (Some x)
    then show ?thesis using filter_qemu_cmdline_total [of x] by (auto simp: cmdline_attributes_def Let_def)
  qed (simp add: cmdline_attributes_def)
  then obtain a' where a': "cmdline_attributes (mg_qemu g) (map_option concat (IProcess_cmdline ?pt (pr_process (hd v))))
      (hm_insert ''exe'' (ip_comm (pr_process (hd v))) (hm_insert ''pid'' (show_int pid) a)) = Inr a'" by blast
  obtain m where m: "get_all_per_process (sub_world 1 w) (mg_topology g) pid = Inr (Some m)"
    using get_all_per_process_ok [OF assms(3)] by blast
  show ?thesis unfolding process_metrics_of_def Let_def n a bind_res_simps a' m by blast
qed

text \<open>What a report of all metrics relies on.\<close>

definition reportable :: "Pid \<Rightarrow> Topology \<Rightarrow> bool" where
  "reportable me t \<longleftrightarrow> tracker_inv (topo_proc_tracker t) \<and> knows_itself me t \<and>
     (\<forall>pid. \<exists>d. get_process_core_time_data t pid = Inr d)"

text \<open>
  Collecting all metrics returns; the new metrics are appended to the ones waiting, the topology is
  not touched and the next collection finds the same conditions.
\<close>

lemma gen_all_metrics_ok:
  assumes "reportable (e_current_pid (w [0, 0])) (mg_topology g)" "3 \<le> length (split_char CHR ''.'' version)"
    and "pods_checked g" "mg_kubernetes_client g \<Longrightarrow> before_2038 w"
  shows "\<exists>ms g'. gen_all_metrics version re cs w g = Inr g' \<and> mg_data g' = mg_data g @ ms \<and> ms \<noteq> [] \<and>
    mg_topology g' = mg_topology g \<and> pods_checked g' \<and> mg_kubernetes_client g' = mg_kubernetes_client g"
proof -
  obtain a where a: "gen_self_metrics version (sub_world 0 w) g = Inr (push_metrics a g)" "a \<noteq> []"
    using gen_self_metrics_ok [of "sub_world 0 w" g version] assms(1,2) by (auto simp: reportable_def sub_world_def)
  obtain b where b: "gen_host_metrics (sub_world 1 w) (push_metrics a g) = Inr (push_metrics b (push_metrics a g))"
    using gen_host_metrics_ok by blast
  obtain c where c: "gen_system_metrics (sub_world 3 w) (gen_socket_metrics (sub_world 2 w) (push_metrics (a @ b) g)) =
      push_metrics (a @ b @ c) g"
    using gen_socket_system_push(1) [of "sub_world 2 w" "push_metrics (a @ b) g"] gen_socket_system_push(2) [of "sub_world 3 w"]
    by (metis push_metrics_push append_assoc)
  let ?g = "push_metrics (a @ b @ c) g"
  obtain g' where g': "refresh_containers cs (sub_world 0 (sub_world 4 w)) ?g = Inr g'" "same_reports ?g g'" "pods_checked g'"
    using refresh_containers_ok [of ?g "sub_world 0 (sub_world 4 w)" cs] assms(3,4)
    by (auto simp: pods_checked_def before_2038_def sub_world_def)
  have "\<exists>mss. traverse_res (\<lambda>(i, pid). process_metrics_of re (sub_world i (sub_world 1 (sub_world 4 w))) g' pid)
      (enumerate 0 (get_alive_pids (topo_proc_tracker (mg_topology g')))) = Inr mss"
  proof (rule traverse_res_ok)
    fix x
    assume "x \<in> set (enumerate 0 (get_alive_pids (topo_proc_tracker (mg_topology g'))))"
    then have "snd x \<in> set (get_alive_pids (topo_proc_tracker (mg_topology g')))"
      by (rule snd_enumerate)
    then show "\<exists>y. (case x of (i, pid) \<Rightarrow> process_metrics_of re (sub_world i (sub_world 1 (sub_world 4 w))) g' pid) = Inr y"
      using process_metrics_of_ok [of g' "snd x"] assms(1) g'(2) unfolding reportable_def by (cases x) fastforce
  qed
  then show ?thesis using a b c g' by (auto simp: gen_all_metrics_def gen_process_metrics_def push_metrics_push pods_checked_def)
qed

text \<open>
  From 2038 on the seconds no longer fit \<open>i32\<close>, and with kubernetes every collection panics.
\<close>

lemma kubernetes_panics_from_2038:
  assumes "mg_watch_containers g" "mg_watch_kubernetes g" "mg_kubernetes_client g"
    and "2 ^ 31 \<le> unat (as_secs (e_now (w [0])))"
  shows "refresh_containers cs w g = Inl Unwrap_Err"
proof -
  let ?now = "show_u64 (as_secs (e_now (w [0])))"
  have "mg_watch_kubernetes (check_docker c v n g) = mg_watch_kubernetes g" for c v n
    by (simp add: check_docker_def gen_docker_containers_basic_metadata_def Let_def split: option.split)
  then have "check_kubernetes c c' v ?now (check_docker (cs 0) (sub_world 1 w) ?now g) = Inl Unwrap_Err" for c c' v
    using assms check_docker_keeps [of "cs 0" "sub_world 1 w" ?now g]
    by (simp add: check_kubernetes_def Let_def parse_i32_show_u64 parse_unwrap_def)
  then show ?thesis using assms(1) by (simp add: refresh_containers_def current_system_time_since_epoch_def Let_def)
qed

section \<open>Names of metrics and labels\<close>

text \<open>
  Every metric has a name and label names that the exposition format allows, and its command line, if
  it has one, holds no line feed.
\<close>

abbreviation name_ok :: "string \<Rightarrow> bool" where
  "name_ok \<equiv> name_of metric_start metric_char"

abbreviation key_ok :: "string \<Rightarrow> bool" where
  "key_ok \<equiv> name_of label_start label_char"

definition keys_ok :: "(string, string) hmap \<Rightarrow> bool" where
  "keys_ok attributes \<longleftrightarrow> (\<forall>(k, v) \<in> set attributes. key_ok k \<and> (k = ''cmdline'' \<longrightarrow> CHR 0x0A \<notin> set v))"

definition metric_ok :: "Metric \<Rightarrow> bool" where
  "metric_ok m \<longleftrightarrow> name_ok (m_name m) \<and> keys_ok (m_attributes m)"

lemma metric_names_ok:
  "list_all name_ok
    [''scaph_context_switches_total'', ''scaph_domain_energy_microjoules'',
     ''scaph_domain_power_microwatts'', ''scaph_domain_rapl_mmio_energy_microjoules'',
     ''scaph_forks_since_boot_total'', ''scaph_host_activation_power_microwatts'',
     ''scaph_host_background_power_microwatts'', ''scaph_host_core_coefficient'',
     ''scaph_host_core_power_microwatts'', ''scaph_host_core_proportion'', ''scaph_host_cpu_frequency'',
     ''scaph_host_disk_available_bytes'', ''scaph_host_disk_total_bytes'', ''scaph_host_energy_microjoules'',
     ''scaph_host_idle_power_microwatts'', ''scaph_host_load_avg_fifteen'', ''scaph_host_load_avg_five'',
     ''scaph_host_load_avg_one'', ''scaph_host_memory_available_bytes'', ''scaph_host_memory_free_bytes'',
     ''scaph_host_memory_total_bytes'', ''scaph_host_power_microwatts'', ''scaph_host_swap_free_bytes'',
     ''scaph_host_swap_total_bytes'', ''scaph_process_core_proportion'', ''scaph_process_core_time_ns'',
     ''scaph_process_core_total_time_ns'', ''scaph_process_cpu_usage_percentage'',
     ''scaph_process_disk_read_bytes'', ''scaph_process_disk_total_read_bytes'',
     ''scaph_process_disk_total_write_bytes'', ''scaph_process_disk_write_bytes'',
     ''scaph_process_memory_bytes'', ''scaph_process_memory_virtual_bytes'',
     ''scaph_process_power_consumption_microwatts'', ''scaph_processes_blocked_current'',
     ''scaph_processes_running_current'', ''scaph_self_cpu_usage_percent'', ''scaph_self_domain_records_nb'',
     ''scaph_self_memory_bytes'', ''scaph_self_memory_virtual_bytes'', ''scaph_self_socket_records_nb'',
     ''scaph_self_socket_stats_nb'', ''scaph_self_topo_procs_nb'', ''scaph_self_topo_records_nb'',
     ''scaph_self_topo_stats_nb'', ''scaph_self_version'', ''scaph_socket_activation_power_microwatts'',
     ''scaph_socket_background_power_microwatts'', ''scaph_socket_energy_microjoules'',
     ''scaph_socket_idle_power_microwatts'', ''scaph_socket_power_microwatts'',
     ''scaph_socket_rapl_mmio_energy_microjoules'']"
  by code_simp

lemma label_names_ok:
  "list_all key_ok
    [''socket_id'', ''rapl_domain_name'', ''value_source'', ''core_id'', ''domain_id'', ''domain_name'',
     ''disk_name'', ''disk_is_removable'', ''disk_type'', ''disk_mount_point'', ''disk_file_system'',
     ''exe'', ''pid'', ''cmdline'', ''vmname'', ''container_scheduler'', ''container_runtime'',
     ''container_id'', ''container_names'', ''container_docker_version'', ''kubernetes_pod_name'',
     ''kubernetes_pod_namespace'', ''kubernetes_node_name'', ''container_label_'']"
  by code_simp

lemmas literal_names_ok [simp] = metric_names_ok [unfolded list.pred_inject] label_names_ok [unfolded list.pred_inject]

lemma keys_ok_Nil [simp]: "keys_ok []"
  by (simp add: keys_ok_def)

lemma keys_ok_Cons [simp]:
  "keys_ok ((k, v) # m) \<longleftrightarrow> key_ok k \<and> (k = ''cmdline'' \<longrightarrow> CHR 0x0A \<notin> set v) \<and> keys_ok m"
  by (auto simp: keys_ok_def)

lemma keys_ok_insert [simp]:
  assumes "key_ok k" "k = ''cmdline'' \<longrightarrow> CHR 0x0A \<notin> set v" "keys_ok m"
  shows "keys_ok (hm_insert k v m)"
proof -
  have "set (hm_insert k v m) \<subseteq> insert (k, v) (set m)" by (induction m) auto
  then show ?thesis using assms by (fastforce simp: keys_ok_def)
qed

lemma keys_ok_fold:
  assumes "keys_ok m" "\<And>kv. kv \<in> set kvs \<Longrightarrow> key_ok (f kv) \<and> (f kv = ''cmdline'' \<longrightarrow> CHR 0x0A \<notin> set (h kv))"
  shows "keys_ok (fold (\<lambda>kv. hm_insert (f kv) (h kv)) kvs m)"
  using assms by (induction kvs arbitrary: m) auto

lemma metric_ok_new [simp]: "metric_ok (new_metric h n ty ts a d v) \<longleftrightarrow> name_ok n \<and> keys_ok a"
  by (simp add: metric_ok_def new_metric_def)

lemma metric_ok_record [simp]:
  "list_all metric_ok (record_metric h n ty a d r) \<longleftrightarrow> r = None \<or> name_ok n \<and> keys_ok a"
  "list_all metric_ok (count_metric h n ty ts d c) \<longleftrightarrow> c = None \<or> name_ok n"
  by (auto simp: record_metric_def count_metric_def split: option.split)

lemma metric_ok_core [intro]: "name_ok n \<Longrightarrow> list_all metric_ok (core_metrics h n ts d vals)"
  by (auto simp: core_metrics_def list_all_iff)

lemma self_metrics_names:
  assumes "gen_self_metrics version w g = Inr g'" "list_all metric_ok (mg_data g)"
  shows "list_all metric_ok (mg_data g')"
proof -
  have u: "list_all metric_ok ms" if "unsigned_metric h n ts d r = Inr ms" "name_ok n" for h n ts d r ms
    using that by (auto simp: unsigned_metric_def parse_unwrap_def split: option.splits)
  have s: "list_all metric_ok (self_socket_metrics h ts s)" for h ts s
    by (auto simp: self_socket_metrics_def Let_def list_all_iff)
  have ss: "list_all metric_ok (concat (map (self_socket_metrics h ts) xs))" for h ts xs
    using s by (auto simp: list_all_iff)
  show ?thesis using assms u ss
    by (auto simp: gen_self_metrics_def Let_def bind_res_eq_Inr split: option.split)
qed

text \<open>Maps from metric names.\<close>

definition names_ok :: "(string, 'v) hmap \<Rightarrow> bool" where
  "names_ok m \<longleftrightarrow> (\<forall>n \<in> fst ` set m. name_ok n)"

lemma names_ok_simps [simp]:
  "names_ok []" "names_ok ((n, v) # m) \<longleftrightarrow> name_ok n \<and> names_ok m" "names_ok (hm_insert n v m) \<longleftrightarrow> name_ok n \<and> names_ok m"
  by (auto simp: names_ok_def dom_update)

lemma disk_metrics_names: "list_all metric_ok (disk_metrics h (get_disks e t))"
proof -
  let ?f = "\<lambda>d res. hm_insert ''scaph_host_disk_available_bytes''
      (''Available disk space, in bytes.'', disk_attributes d, Record_new (e_now e) (show_u64 (disk_available_space d)) Bytes)
      (hm_insert ''scaph_host_disk_total_bytes'' (''Total disk size, in bytes.'', disk_attributes d,
         Record_new (e_now e) (show_u64 (disk_total_space d)) Bytes) res)"
  have a: "keys_ok (disk_attributes d)" for d
    by (simp add: disk_attributes_def insert_some_def Let_def split: option.split DiskType.split)
  have u: "\<forall>x \<in> snd ` set m. keys_ok (fst (snd x)) \<Longrightarrow> keys_ok (fst (snd v)) \<Longrightarrow>
      \<forall>x \<in> snd ` set (hm_insert n v m). keys_ok (fst (snd x))"
    for n v and m :: "(string, string \<times> (string, string) hmap \<times> Record) hmap" by (induction m) auto
  have "names_ok m \<and> (\<forall>x \<in> snd ` set m. keys_ok (fst (snd x))) \<Longrightarrow>
      names_ok (fold ?f ds m) \<and> (\<forall>x \<in> snd ` set (fold ?f ds m). keys_ok (fst (snd x)))" for m ds
  proof (induction ds arbitrary: m)
    case (Cons d ds)
    have "names_ok (?f d m) \<and> (\<forall>x \<in> snd ` set (?f d m). keys_ok (fst (snd x)))"
    proof
      show "names_ok (?f d m)" using Cons.prems by (simp add:)
      show "\<forall>x \<in> snd ` set (?f d m). keys_ok (fst (snd x))"
        using Cons.prems a [of d] by (metis u fst_conv snd_conv)
    qed
    from Cons.IH [OF this] show ?case unfolding fold_simps .
  qed simp
  from this [of "[]"] have "names_ok (get_disks e t)" "\<forall>x \<in> snd ` set (get_disks e t). keys_ok (fst (snd x))"
    by (simp_all add: get_disks_def Let_def current_system_time_since_epoch_def)
  moreover have "list_all metric_ok (disk_metrics h m)"
    if "names_ok m" "\<forall>x \<in> snd ` set m. keys_ok (fst (snd x))" for m using that by (induction m) (auto simp: disk_metrics_def)
  ultimately show ?thesis by blast
qed

lemma host_metrics_names:
  assumes "gen_host_metrics w g = Inr g'" "list_all metric_ok (mg_data g)"
  shows "list_all metric_ok (mg_data g')"
proof -
  have p: "list_all metric_ok (host_power_metrics v h t)" for v h t
    by (auto simp: host_power_metrics_def Let_def value_source_def split: option.split)
  have m: "list_all metric_ok (memory_metrics v h t)" for v h t by (simp add: memory_metrics_def)
  have l: "list_all metric_ok ms" if "load_metrics h (get_load_avg e t) = Inr ms" for h e t ms
    using that by (auto simp: load_metrics_def get_load_avg_def Let_def index_vec_def)
  show ?thesis using assms p m l disk_metrics_names
    by (auto simp: gen_host_metrics_def Let_def bind_res_eq_Inr)
qed

lemma socket_system_names:
  assumes "list_all metric_ok (mg_data g)"
  shows "list_all metric_ok (mg_data (gen_socket_metrics w g))" "list_all metric_ok (mg_data (gen_system_metrics w g))"
proof -
  have d: "list_all metric_ok (domain_metrics e h s d)" for e h s d
    by (auto simp: domain_metrics_def Let_def)
  have "list_all metric_ok (concat (map (\<lambda>(i, d). domain_metrics (v [5, i]) h s d) xs))" for v h s xs
    using d by (fastforce simp: list_all_iff)
  then have "list_all metric_ok (socket_metrics v h s)" for v h s
    by (auto simp: socket_metrics_def Let_def)
  then have "list_all metric_ok (concat (map (\<lambda>(i, s). socket_metrics (sub_world i w) h s) xs))" for h xs
    by (fastforce simp: list_all_iff)
  then show "list_all metric_ok (mg_data (gen_socket_metrics w g))" using assms by (simp add: gen_socket_metrics_def)
  show "list_all metric_ok (mg_data (gen_system_metrics w g))"
    using assms by (simp add: gen_system_metrics_def Let_def)
qed

text \<open>
  The label names that come from docker: after the replacements of \<open>escape_label\<close> only letters, digits
  and underscores are left.
\<close>

definition labels_clean :: "Container list \<Rightarrow> bool" where
  "labels_clean cs \<longleftrightarrow> (\<forall>c \<in> set cs. case c_Labels c of
     None \<Rightarrow> True | Some ls \<Rightarrow> \<forall>k \<in> fst ` set ls. list_all label_char (escape_label k))"

lemma container_label_ok: "list_all label_char s \<Longrightarrow> key_ok (''container_label_'' @ s)"
  using literal_names_ok by (simp add: name_of_def)

lemma insert_labels_keys:
  assumes "\<forall>k \<in> fst ` set ls. list_all label_char (escape_label k)" "keys_ok d"
  shows "keys_ok (insert_labels ls d)"
  unfolding insert_labels_def case_prod_unfold
proof (rule keys_ok_fold [OF assms(2)])
  fix kv
  assume "kv \<in> set ls"
  then have "key_ok (''container_label_'' @ escape_label (fst kv))" using assms(1) by (intro container_label_ok) auto
  then show "key_ok (''container_label_'' @ escape_label (fst kv)) \<and>
      (''container_label_'' @ escape_label (fst kv) = ''cmdline'' \<longrightarrow> CHR 0x0A \<notin> set (snd kv))" by simp
qed

lemma describe_cgroups_keys:
  assumes "labels_clean cs" "keys_ok d"
  shows "keys_ok (describe_cgroups re cs v pods cgs d)"
  using assms(2)
proof (induction cgs arbitrary: d)
  case (Cons cg cgs)
  have c: "keys_ok (describe_container v c d)" if "c \<in> set cs" "keys_ok d" for c d
    using assms(1) that
    by (cases "c_Labels c") (force simp: describe_container_def labels_clean_def Let_def intro!: insert_labels_keys)+
  have p: "keys_ok (describe_pod q d)" if "keys_ok d" for q d
    using that by (simp add: describe_pod_def Let_def split: option.split)
  have "keys_ok (fst (describe_cgroup re cs v pods cg d))"
    using Cons.prems c p by (auto simp: describe_cgroup_def Let_def find_Some_iff split: option.split)
  then show ?case using Cons.IH by (cases "describe_cgroup re cs v pods cg d") (auto split: bool.split)
qed simp

lemma process_metrics_names:
  assumes "process_metrics_of re w g pid = Inr ms" "labels_clean (mg_containers g)"
  shows "list_all metric_ok ms"
proof -
  have d: "keys_ok (fold (\<lambda>(k, v). hm_insert k v) data [])" if "keys_ok data" for data :: "(string, string) hmap"
    using that keys_ok_fold [of "[]" data fst snd] by (auto simp: case_prod_unfold keys_ok_def)
  have a: "keys_ok a" if "container_attributes re e g pid = Inr a" for e a
    using that d describe_cgroups_keys [OF assms(2)]
    by (auto simp: container_attributes_def get_process_container_description_def split: if_splits option.splits)
  have c: "keys_ok a'" if "cmdline_attributes q l a = Inr a'" "keys_ok a" for q l a a'
    using that by (auto simp: filter_cmdline_line cmdline_attributes_def Let_def map_res_def bind_res_eq_Inr split: option.splits if_splits)
  have u: "names_ok (usage_metrics r p [])" for r p by (simp add: usage_metrics_def Let_def)
  have t: "names_ok (core_time_metrics r x m)" if "names_ok m" for r x m
    using that by (simp add: core_time_metrics_def Let_def split: prod.split)
  have pm: "names_ok m'" if "power_metrics v t r x ps m = Inr m'" "names_ok m" for v t r x ps m m'
    using that \<open>\<And>r x m. names_ok m \<Longrightarrow> names_ok (core_time_metrics r x m)\<close>
    by (auto simp: power_metrics_def Let_def bind_res_eq_Inr split: option.splits)
  have m: "names_ok m" if "get_all_per_process v t pid = Inr (Some m)" for v t m
    using that pm u by (auto simp: get_all_per_process_def Let_def map_res_def bind_res_eq_Inr split: option.splits)
  show ?thesis using assms(1) a c m
    by (fastforce simp: process_metrics_of_def Let_def bind_res_eq_Inr list_all_iff names_ok_def split: option.splits)
qed

lemma check_docker_containers:
  "mg_containers (check_docker cs w n g) = mg_containers g \<or> cs_get_containers cs = Some (mg_containers (check_docker cs w n g))"
  by (simp add: check_docker_def gen_docker_containers_basic_metadata_def Let_def split: option.split)

lemma refresh_containers_clean:
  assumes "refresh_containers cs w g = Inr g'" "labels_clean (mg_containers g)"
    and "\<And>i c. cs_get_containers (cs i) = Some c \<Longrightarrow> labels_clean c"
  shows "labels_clean (mg_containers g')" "mg_data g' = mg_data g"
proof -
  have d: "labels_clean (mg_containers (check_docker (cs i) v n g))" for i v n
    using check_docker_containers [of "cs i" v n g] assms(2,3) by metis
  have p: "mg_containers (gen_kubernetes_pods_basic_metadata c e x) = mg_containers x"
    "mg_data (gen_kubernetes_pods_basic_metadata c e x) = mg_data x" for c e x
    by (simp_all add: gen_kubernetes_pods_basic_metadata_def Let_def split: option.split)
  have k: "mg_containers g2 = mg_containers g1 \<and> mg_data g2 = mg_data g1" if "check_kubernetes c c' v n g1 = Inr g2" for c c' v n g1 g2
    using that by (auto simp: check_kubernetes_def Let_def bind_res_eq_Inr p split: if_splits)
  show "labels_clean (mg_containers g')" "mg_data g' = mg_data g"
    using assms(1,2) d k check_docker_keeps by (auto simp: refresh_containers_def Let_def split: if_splits)
qed

text \<open>A predicate on metrics that every section keeps holds of all metrics collected.\<close>

lemma refresh_containers_frame:
  assumes "refresh_containers cs w g = Inr g'"
  shows "mg_topology g' = mg_topology g" "mg_data g' = mg_data g"
proof -
  have k: "mg_topology (gen_kubernetes_pods_basic_metadata c e x) = mg_topology x"
    "mg_data (gen_kubernetes_pods_basic_metadata c e x) = mg_data x" for c e x
    using gen_kubernetes_keeps(1) by blast+
  show "mg_topology g' = mg_topology g" "mg_data g' = mg_data g" using assms check_docker_keeps
    by (auto simp: refresh_containers_def check_kubernetes_def Let_def bind_res_eq_Inr k split: if_splits)
qed

lemma gen_all_metrics_all:
  assumes g': "gen_all_metrics version re cs w g = Inr g'"
    and self: "\<And>v g2. gen_self_metrics version v g = Inr g2 \<Longrightarrow> list_all P (mg_data g2)"
    and host: "\<And>v g1 g2. gen_host_metrics v g1 = Inr g2 \<Longrightarrow> mg_topology g1 = mg_topology g \<Longrightarrow>
      list_all P (mg_data g1) \<Longrightarrow> list_all P (mg_data g2)"
    and sock: "\<And>v g1. mg_topology g1 = mg_topology g \<Longrightarrow> list_all P (mg_data g1) \<Longrightarrow> list_all P (mg_data (gen_socket_metrics v g1))"
    and sys: "\<And>v g1. list_all P (mg_data g1) \<Longrightarrow> list_all P (mg_data (gen_system_metrics v g1))"
    and proc: "\<And>u v g1 g2 pid ms. refresh_containers cs u g1 = Inr g2 \<Longrightarrow> mg_containers g1 = mg_containers g \<Longrightarrow>
      mg_topology g2 = mg_topology g \<Longrightarrow> pid \<in> set (get_alive_pids (topo_proc_tracker (mg_topology g))) \<Longrightarrow>
      process_metrics_of re v g2 pid = Inr ms \<Longrightarrow> list_all P ms"
  shows "list_all P (mg_data g') \<and> mg_topology g' = mg_topology g"
proof -
  obtain g1 g2 where g: "gen_self_metrics version (sub_world 0 w) g = Inr g1" "gen_host_metrics (sub_world 1 w) g1 = Inr g2"
    "gen_process_metrics re cs (sub_world 4 w) (gen_system_metrics (sub_world 3 w) (gen_socket_metrics (sub_world 2 w) g2)) = Inr g'"
    using g' by (auto simp: gen_all_metrics_def bind_res_eq_Inr)
  let ?g = "gen_system_metrics (sub_world 3 w) (gen_socket_metrics (sub_world 2 w) g2)"
  have c: "mg_containers ?g = mg_containers g" "mg_topology ?g = mg_topology g" "mg_topology g2 = mg_topology g" "mg_topology g1 = mg_topology g"
    using g(1,2) by (auto simp: gen_self_metrics_def gen_host_metrics_def gen_system_metrics_def gen_socket_metrics_def
        Let_def bind_res_eq_Inr push_metrics_def)
  have ok: "list_all P (mg_data ?g)" by (rule sys, rule sock [OF c(3)], rule host [OF g(2) c(4)], rule self [OF g(1)])
  obtain g3 mss where g3: "refresh_containers cs (sub_world 0 (sub_world 4 w)) ?g = Inr g3"
    "traverse_res (\<lambda>(i, pid). process_metrics_of re (sub_world i (sub_world 1 (sub_world 4 w))) g3 pid)
         (enumerate 0 (get_alive_pids (topo_proc_tracker (mg_topology g3)))) = Inr mss" "g' = push_metrics (concat mss) g3"
    using g(3) by (auto simp: gen_process_metrics_def bind_res_eq_Inr)
  have t: "mg_topology g3 = mg_topology g" "mg_data g3 = mg_data ?g" using refresh_containers_frame [OF g3(1)] c(2) by simp_all
  have "list_all P ms" if mem: "ms \<in> set mss" for ms
  proof -
    obtain i pid where ip: "(i, pid) \<in> set (enumerate 0 (get_alive_pids (topo_proc_tracker (mg_topology g))))"
      "process_metrics_of re (sub_world i (sub_world 1 (sub_world 4 w))) g3 pid = Inr ms"
      using traverse_res_set [OF g3(2) mem] t(1) by auto
    then show ?thesis using proc [OF g3(1) c(1) t(1) _ ip(2)] snd_enumerate [OF ip(1)] by simp
  qed
  then show ?thesis using ok t g3(3) by (auto simp: list_all_iff)
qed

lemma gen_all_metrics_topology: "gen_all_metrics version re cs w g = Inr g' \<Longrightarrow> mg_topology g' = mg_topology g"
  using gen_all_metrics_all [where P = "\<lambda>_. True"] by (simp add: list.pred_True)

text \<open>The metrics of every socket are among those collected.\<close>

lemma gen_all_metrics_sockets:
  assumes "gen_all_metrics version re cs w g = Inr g'" "s \<in> set (topo_sockets (mg_topology g))"
  shows "set (self_socket_metrics (mg_hostname g) (e_now (w [0, 1])) s) \<subseteq> set (mg_data g')"
proof -
  obtain g1 g2 where g: "gen_self_metrics version (sub_world 0 w) g = Inr g1" "gen_host_metrics (sub_world 1 w) g1 = Inr g2"
    "gen_process_metrics re cs (sub_world 4 w) (gen_system_metrics (sub_world 3 w) (gen_socket_metrics (sub_world 2 w) g2)) = Inr g'"
    using assms(1) by (auto simp: gen_all_metrics_def bind_res_eq_Inr)
  have "set (self_socket_metrics (mg_hostname g) (e_now (w [0, 1])) s) \<subseteq> set (mg_data g1)"
    using g(1) assms(2) by (auto simp: gen_self_metrics_def Let_def bind_res_eq_Inr sub_world_def current_system_time_since_epoch_def)
  also have "\<dots> \<subseteq> set (mg_data g2)" using g(2) by (auto simp: gen_host_metrics_def Let_def bind_res_eq_Inr)
  also have "\<dots> \<subseteq> set (mg_data g')"
    using g(3) by (auto simp: gen_process_metrics_def bind_res_eq_Inr gen_system_metrics_def gen_socket_metrics_def Let_def
        dest!: refresh_containers_frame(2))
  finally show ?thesis .
qed

text \<open>All metrics have clean names and labels.\<close>

lemma gen_all_metrics_names:
  assumes "gen_all_metrics version re cs w g = Inr g'" "list_all metric_ok (mg_data g)"
    and "labels_clean (mg_containers g)" "\<And>i c. cs_get_containers (cs i) = Some c \<Longrightarrow> labels_clean c"
  shows "list_all metric_ok (mg_data g')"
proof (rule conjunct1, rule gen_all_metrics_all [OF assms(1)])
  fix u v g1 g2 pid ms
  assume g: "refresh_containers cs u g1 = Inr g2" "mg_containers g1 = mg_containers g" "process_metrics_of re v g2 pid = Inr ms"
  have "labels_clean (mg_containers g2)" using refresh_containers_clean [OF g(1) _ assms(4)] assms(3) g(2) by simp
  then show "list_all metric_ok ms" by (rule process_metrics_names [OF g(3)])
qed (use self_metrics_names host_metrics_names socket_system_names assms(2) in blast)+

end
