(* ===== verification/Exporter_Loop.thy ===== *)
theory Exporter_Loop
  imports Metrics Topology_Refresh
begin

text \<open>
  What the loops of the exporters share: the refresh of the topology and the cleaning of the tracker
  that open a turn, the loop with a time limit, and the conditions under which a turn returns and the
  next one finds the same conditions.
\<close>

section \<open>A turn\<close>

text \<open>
  What the program is built and run with: the sizes in memory of the records, the crate version, the
  regular expressions of the tracker and the endpoint.
\<close>

record settings =
  st_rsz :: nat
  st_mrsz :: nat
  st_ssz :: nat
  st_version :: string
  st_regexes :: cgroup_regexes
  st_suffix :: string

definition refresh_topology :: "settings \<Rightarrow> world \<Rightarrow> MetricGenerator \<Rightarrow> MetricGenerator res" where
  "refresh_topology st w g =
     map_res (\<lambda>t. g\<lparr>mg_topology := t\<rparr>) (Topology_refresh (st_rsz st) (st_mrsz st) (st_ssz st) w (mg_topology g))"

definition clean_terminated :: "MetricGenerator \<Rightarrow> MetricGenerator" where
  "clean_terminated g =
     (let t = mg_topology g
      in g\<lparr>mg_topology := t\<lparr>topo_proc_tracker := clean_terminated_process_records_vectors (topo_proc_tracker t)\<rparr>\<rparr>)"

text \<open>
  The loop of \<open>run\<close>: before each turn the time elapsed is compared with the limit, if there is one. The
  list holds what the turns observe, each with the time elapsed at its start; the flag says whether the
  loop has ended or is still running at the end of the list.
\<close>

fun run_until ::
  "('w \<Rightarrow> 's \<Rightarrow> 's res) \<Rightarrow> duration option \<Rightarrow> (duration \<times> 'w) list \<Rightarrow> 's \<Rightarrow> ('s \<times> bool) res" where
  "run_until iterate time_limit [] s = Inr (s, False)"
| "run_until iterate time_limit ((elapsed, w) # obs) s =
     (case time_limit of
        Some timeout \<Rightarrow>
          if elapsed \<le> timeout then bind_res (iterate w s) (run_until iterate time_limit obs) else Inr (s, True)
      | None \<Rightarrow> bind_res (iterate w s) (run_until iterate time_limit obs))"

section \<open>Turns go on\<close>

text \<open>
  The state a turn finds: record sizes for which the arithmetic of the buffers is exact, a version with
  three parts, a well-formed host, the program in its own process table, and no metrics waiting.
\<close>

definition ready :: "settings \<Rightarrow> nat \<Rightarrow> Pid \<Rightarrow> duration \<Rightarrow> MetricGenerator \<Rightarrow> bool" where
  "ready st n me now g \<longleftrightarrow>
     size_ok (st_rsz st) \<and> size_ok (st_mrsz st) \<and> size_ok (st_ssz st) \<and> 3 \<le> length (split_char CHR ''.'' (st_version st)) \<and>
     topology_wf (st_rsz st) (st_mrsz st) (st_ssz st) n now (mg_topology g) \<and> knows_itself me (mg_topology g) \<and>
     pods_checked g \<and> mg_data g = []"

text \<open>
  What a turn may observe: the conditions of a refresh hold, the program is in the process table, and the
  clock is before 2038.
\<close>

definition turn_observes :: "nat \<Rightarrow> Pid \<Rightarrow> duration \<Rightarrow> duration \<Rightarrow> world \<Rightarrow> bool" where
  "turn_observes n me now lt w \<longleftrightarrow>
     observes n now lt (sub_world 1 w) \<and> e_current_pid (w [2, 0, 0]) = me \<and>
     (\<forall>sys. me \<in> fst ` set (sys_processes (e_refresh_processes (w [1, 4, 0]) sys))) \<and> before_2038 (sub_world 2 w)"

lemma topology_wf_later: "topology_wf rsz mrsz ssz n now t \<Longrightarrow> now \<le> lt \<Longrightarrow> topology_wf rsz mrsz ssz n lt t"
  by (fastforce simp: topology_wf_def records_until_def)

lemma ready_later: "ready st n me now g \<Longrightarrow> now \<le> lt \<Longrightarrow> ready st n me lt g"
  by (auto simp: ready_def intro: topology_wf_later)

lemma clean_terminated_ready:
  assumes "ready st n me now g"
  shows "ready st n me now (clean_terminated g)"
  using assms clean_terminated_inv [of "topo_proc_tracker (mg_topology g)" now]
  by (auto simp: ready_def clean_terminated_def Let_def topology_wf_def knows_itself_def clean_terminated_frame
      pods_checked_def)

lemma refresh_topology_ready:
  assumes g: "ready st n me now g" and w: "turn_observes n me now lt w"
  shows "\<exists>g'. refresh_topology st (sub_world 1 w) g = Inr g' \<and> ready st n me lt g'"
proof -
  let ?t = "mg_topology g"
  have ob: "observes n now lt (sub_world 1 w)" using w by (simp add: turn_observes_def)
  obtain t' where t': "Topology_refresh (st_rsz st) (st_mrsz st) (st_ssz st) (sub_world 1 w) ?t = Inr t'"
    "topology_wf (st_rsz st) (st_mrsz st) (st_ssz st) n lt t'"
    using refresh_keeps_wf [OF _ _ _ _ ob, of "st_rsz st" "st_mrsz st" "st_ssz st" ?t] g by (auto simp: ready_def)
  have f: "pt_sysinfo (topo_proc_tracker t') =
      e_refresh_processes (w [1, 4, 0]) (e_refresh_system (w [1, 2]) (pt_sysinfo (topo_proc_tracker ?t)))"
    using refresh_frame [OF t'(1)] by (simp add: sub_world_def)
  have me: "\<And>sys. me \<in> fst ` set (sys_processes (e_refresh_processes (w [1, 4, 0]) sys))" using w by (simp add: turn_observes_def)
  obtain p where p: "hm_get (sys_processes (pt_sysinfo (topo_proc_tracker t'))) me = Some p"
    using me f by (metis not_None_eq map_of_eq_None_iff)
  have "p \<in> snd ` set (sys_processes (pt_sysinfo (topo_proc_tracker t')))" using map_of_SomeD [OF p] by force
  then have "sp_exe p \<noteq> None" using ob unfolding f observes_def sub_world_def by blast
  then have "knows_itself me t'" using p by (auto simp: knows_itself_def)
  then show ?thesis using t' g by (auto simp: refresh_topology_def ready_def pods_checked_def)
qed

text \<open>The eBPF times of a process can be looked up for every core.\<close>

definition core_times_ok :: "Topology \<Rightarrow> bool" where
  "core_times_ok t \<longleftrightarrow> (\<forall>pid. \<exists>d. get_process_core_time_data t pid = Inr d)"

lemma gen_and_pop_ready:
  assumes g: "ready st n me lt g" and w: "turn_observes n me now lt w" and t: "core_times_ok (mg_topology g)"
  shows "\<exists>g' ms. gen_all_metrics (st_version st) re cs (sub_world 2 w) g = Inr g' \<and> pop_metrics g' = (ms, g'\<lparr>mg_data := []\<rparr>) \<and>
    ms \<noteq> [] \<and> ready st n me lt (g'\<lparr>mg_data := []\<rparr>) \<and> mg_topology g' = mg_topology g"
proof -
  have "reportable (e_current_pid (sub_world 2 w [0, 0])) (mg_topology g)"
    using g w t by (simp add: reportable_def ready_def topology_wf_def turn_observes_def sub_world_def core_times_ok_def)
  then obtain ms g' where "gen_all_metrics (st_version st) re cs (sub_world 2 w) g = Inr g'" "mg_data g' = mg_data g @ ms" "ms \<noteq> []"
    "mg_topology g' = mg_topology g" "pods_checked g'"
    using gen_all_metrics_ok [of "sub_world 2 w" g "st_version st" re cs] g w by (auto simp: ready_def turn_observes_def)
  then show ?thesis using g by (auto simp: pop_metrics_def pop_loop_rev ready_def pods_checked_def)
qed

section \<open>Hosts without eBPF\<close>

definition blind :: "Topology \<Rightarrow> bool" where
  "blind t \<longleftrightarrow> \<not> topo_cpu_time_map t \<and> topo_cpu_time_buffer t = []"

lemma blind_core_times: "blind t \<Longrightarrow> core_times_ok t"
  using core_time_data_None [of t] by (auto simp: core_times_ok_def blind_def get_cpu_time_diff_def last_two_short)

lemma clean_terminated_blind: "blind (mg_topology (clean_terminated g)) = blind (mg_topology g)"
  by (simp add: clean_terminated_def blind_def Let_def)

lemma refresh_topology_blind:
  "refresh_topology st w g = Inr g' \<Longrightarrow> blind (mg_topology g) \<Longrightarrow> blind (mg_topology g')"
  using refresh_frame by (fastforce simp: refresh_topology_def map_res_def bind_res_eq_Inr blind_def)

section \<open>Hosts with eBPF\<close>

text \<open>
  Every process record with times per CPU has one for each of \<open>n\<close> CPUs: what a per-CPU map of the kernel
  gives when \<open>n\<close> is the number of possible CPUs.
\<close>

definition timed_process :: "nat \<Rightarrow> IProcess \<Rightarrow> bool" where
  "timed_process n p \<longleftrightarrow> (case ip_core_busy_times p of Some ts \<Rightarrow> n \<le> length ts | None \<Rightarrow> True)"

definition timed :: "nat \<Rightarrow> Topology \<Rightarrow> bool" where
  "timed n t \<longleftrightarrow> (\<forall>v \<in> set (pt_procs (topo_proc_tracker t)). \<forall>r \<in> set v. timed_process n (pr_process r))"

definition times_observed :: "nat \<Rightarrow> world \<Rightarrow> bool" where
  "times_observed n w \<longleftrightarrow> (\<forall>p tgid ts. e_pid_times (w p) tgid = Some ts \<longrightarrow> n \<le> length ts)"

lemma find_records_mem: "find_records pt pid = Some v \<Longrightarrow> v \<in> set (pt_procs pt)"
  unfolding find_records_def find_last_fold by (metis filter_is_subset last_in_set option.distinct(1) option.inject subsetD)

lemma timed_core_times:
  assumes "timed n t" "topology_wf rsz mrsz ssz n now t"
  shows "core_times_ok t"
proof -
  have "\<exists>d. get_process_core_time_data t pid = Inr d" for pid
  proof (cases "get_per_core_cpu_time_delta (topo_proc_tracker t) pid = None \<or> get_cpu_time_diff t = None")
    case False
    then obtain ds diff where d: "get_per_core_cpu_time_delta (topo_proc_tracker t) pid = Some ds" "get_cpu_time_diff t = Some diff"
      by auto
    obtain v where v: "find_records (topo_proc_tracker t) pid = Some v" "v \<in> set (pt_procs (topo_proc_tracker t))"
      using d(1) find_records_mem by (fastforce simp: get_per_core_cpu_time_delta_def bind_eq_Some_conv)
    obtain l prev where lp: "get_vec v 0 = Some l" "get_vec v 1 = Some prev"
      "(case (ip_core_busy_times (pr_process l), ip_core_busy_times (pr_process prev)) of
         (Some last_core_times, Some prev_core_times) \<Rightarrow>
           if length prev_core_times = length last_core_times
           then Some (map (\<lambda>(i, t). last_core_times ! i - t) (enumerate 0 prev_core_times)) else None
       | _ \<Rightarrow> None) = Some ds"
      using d(1) v(1) unfolding get_per_core_cpu_time_delta_def by (auto simp: bind_eq_Some_conv)
    then obtain ts where "ip_core_busy_times (pr_process prev) = Some ts" "length ds = length ts"
      by (cases "ip_core_busy_times (pr_process l)"; cases "ip_core_busy_times (pr_process prev)") (auto split: if_splits)
    moreover have "prev \<in> set v" using lp(2) by (auto simp: get_vec_def split: if_splits)
    ultimately have "n \<le> length ds" using assms(1) v(2) by (force simp: timed_def timed_process_def)
    moreover have "unat (core_id c) < n" if "c \<in> set (Topology_get_cores t)" for c
      using that assms(2)
      by (auto simp: Topology_get_cores_def CPUSocket_get_cores_def CPUCore_clone_def topology_wf_def socket_wf_def core_wf_def list_all_iff)
    ultimately show ?thesis using core_time_data_cases [OF d] by fastforce
  qed (use core_time_data_None in blast)
  then show ?thesis by (simp add: core_times_ok_def)
qed

lemma push_record_set: "set (push_record m r v) \<subseteq> insert r (set v)"
proof -
  have "set (sort_and_pop k v) \<subseteq> set v" for k v
  proof (induction k arbitrary: v)
    case (Suc k)
    then show ?case using in_set_butlastD by fastforce
  qed simp
  then show ?thesis by (fastforce simp: push_record_def clean_old_process_records_def Let_def split: if_splits)
qed

lemma add_process_record_all:
  assumes "\<forall>v \<in> set (pt_procs pt). \<forall>r \<in> set v. P (pr_process r)" "P p"
  shows "\<forall>v \<in> set (pt_procs (add_process_record e p pt)). \<forall>r \<in> set v. P (pr_process r)"
proof (cases "update_first (has_pid (ip_pid p)) (push_record (pt_max_records_per_process pt) (ProcessRecord_new e p)) (pt_procs pt)")
  case None
  then show ?thesis using assms by (auto simp: add_process_record_def ProcessRecord_new_def)
next
  case (Some ys)
  then obtain a v b where v: "pt_procs pt = a @ v # b"
    "ys = a @ push_record (pt_max_records_per_process pt) (ProcessRecord_new e p) v # b" using update_first_Some [OF Some] by blast
  then show ?thesis using Some assms push_record_set [of "pt_max_records_per_process pt" "ProcessRecord_new e p" v]
    by (auto simp: add_process_record_def ProcessRecord_new_def)
qed

lemma refresh_procs_timed:
  assumes "refresh_procs w t = Inr t'" "timed n t" "times_observed n w"
  shows "timed n t'"
proof -
  obtain ps where ps: "traverse_res (\<lambda>(i, p). process_made w t i p) (enumerate 0 (table_of w t)) = Inr ps"
    "t' = t\<lparr>topo_proc_tracker := fold (\<lambda>(i, p). add_process_record (w [2, i]) p) (enumerate 0 ps) (tracker_after_table w t)\<rparr>"
    using assms(1) unfolding refresh_procs_def Let_def tracker_after_table_def [symmetric] process_made_def [symmetric]
      table_of_def [symmetric] by (auto simp: bind_res_eq_Inr)
  have made: "timed_process n q" if "process_made w t i p = Inr q" for i p q
    using that assms(3)
    by (auto simp: process_made_def IProcess_new_def bind_res_eq_Inr timed_process_def get_process_core_times_def times_observed_def
        split: prod.splits option.splits if_splits)
  then have "\<forall>ip \<in> set (enumerate 0 ps). timed_process n (snd ip)"
    using snd_enumerate traverse_res_set [OF ps(1)] by fastforce
  moreover have step: "\<forall>v \<in> set (pt_procs (fold (\<lambda>(i, p). add_process_record (w [2, i]) p) ips pt)).
      \<forall>r \<in> set v. timed_process n (pr_process r)"
    if "\<forall>ip \<in> set ips. timed_process n (snd ip)" "\<forall>v \<in> set (pt_procs pt). \<forall>r \<in> set v. timed_process n (pr_process r)"
    for ips pt using that
  proof (induction ips arbitrary: pt)
    case (Cons ip ips)
    have "\<forall>v \<in> set (pt_procs (add_process_record (w [2, fst ip]) (snd ip) pt)). \<forall>r \<in> set v. timed_process n (pr_process r)"
      using Cons.prems by (intro add_process_record_all) auto
    then show ?case using Cons.IH Cons.prems(1) by (simp add: case_prod_unfold)
  qed simp
  ultimately have "\<forall>v \<in> set (pt_procs (topo_proc_tracker t')). \<forall>r \<in> set v. timed_process n (pr_process r)"
    using assms(2) step [of "enumerate 0 ps" "tracker_after_table w t"] by (simp add: ps(2) timed_def tracker_after_table_def)
  then show ?thesis by (simp add: timed_def)
qed

lemma refresh_topology_timed:
  assumes "refresh_topology st w g = Inr g'" "timed n (mg_topology g)" "times_observed n w"
  shows "timed n (mg_topology g')"
proof -
  obtain t' where t': "Topology_refresh (st_rsz st) (st_mrsz st) (st_ssz st) w (mg_topology g) = Inr t'" "g' = g\<lparr>mg_topology := t'\<rparr>"
    using assms(1) by (auto simp: refresh_topology_def map_res_def bind_res_eq_Inr)
  show ?thesis
  proof (rule refresh_tracker [OF t'(1)])
    fix t3 t4
    assume "refresh_procs (sub_world 4 w) t3 = Inr t4" "topo_proc_tracker t3 = ProcessTracker_refresh (w [2]) (topo_proc_tracker (mg_topology g))"
      "topo_proc_tracker t' = topo_proc_tracker t4"
    then show ?thesis using refresh_procs_timed [of "sub_world 4 w" t3 t4 n] assms(2,3) t'(2)
      by (simp add: timed_def ProcessTracker_refresh_def times_observed_def sub_world_def)
  qed
qed

section \<open>Loops with a time limit end\<close>

text \<open>
  Durations in nanoseconds. The elapsed times of successive turns are at least the step apart, since
  every turn ends with a sleep of that length.
\<close>

definition nanos :: "duration \<Rightarrow> nat" where
  "nanos d = unat (as_secs d) * 10 ^ 9 + unat (subsec_nanos d)"

definition proper_duration :: "duration \<Rightarrow> bool" where
  "proper_duration d \<longleftrightarrow> unat (subsec_nanos d) < 10 ^ 9"

fun paced :: "nat \<Rightarrow> duration list \<Rightarrow> bool" where
  "paced d [] = True"
| "paced d [x] = proper_duration x"
| "paced d (x # y # xs) = (proper_duration x \<and> nanos x + d \<le> nanos y \<and> paced d (y # xs))"

lemma nanos_le:
  assumes "proper_duration a" "a \<le> b"
  shows "nanos a \<le> nanos b"
proof -
  consider "Suc (unat (as_secs a)) \<le> unat (as_secs b)" | "as_secs a = as_secs b" "unat (subsec_nanos a) \<le> unat (subsec_nanos b)"
    using assms(2) by (auto simp: less_eq_duration_def word_less_nat_alt word_le_nat_alt Suc_le_eq)
  then show ?thesis
  proof cases
    case 1
    then have "Suc (unat (as_secs a)) * 10 ^ 9 \<le> unat (as_secs b) * 10 ^ 9" by (rule mult_le_mono1)
    then show ?thesis using assms(1) by (simp add: nanos_def proper_duration_def)
  qed (simp add: nanos_def)
qed

context steady
begin

lemma run_until_forever:
  assumes "inv now s" "allowed_run allowed now (map snd obs) lt"
  shows "\<exists>s'. run_until step None obs s = Inr (s', False) \<and> inv lt s'"
  using assms
proof (induction obs arbitrary: now s)
  case (Cons ob obs)
  obtain m where m: "allowed now m (snd ob)" "allowed_run allowed m (map snd obs) lt" using Cons.prems(2) by auto
  obtain s1 where "step (snd ob) s = Inr s1" "inv m s1" using step_ok [OF Cons.prems(1) m(1)] by blast
  then show ?case using Cons.IH [OF _ m(2)] by (cases ob) auto
qed simp

lemma run_until_ends:
  assumes "inv now s" "allowed_run allowed now (map snd obs) lt" "paced d (map fst obs)"
    and "obs \<noteq> []" "nanos l < nanos (fst (hd obs)) + (length obs - 1) * d"
  shows "\<exists>s' m. run_until step (Some l) obs s = Inr (s', True) \<and> inv m s'"
  using assms
proof (induction obs arbitrary: now s)
  case (Cons ob obs)
  obtain x w where ob: "ob = (x, w)" by (cases ob)
  show ?case
  proof (cases "x \<le> l")
    case True
    have "proper_duration x" using Cons.prems(3) ob by (cases obs) auto
    then have x: "nanos x \<le> nanos l" using True by (rule nanos_le)
    then obtain y w' rest where obs: "obs = (y, w') # rest" using Cons.prems(5) ob by (cases obs) auto
    have y: "nanos x + d \<le> nanos y" "paced d (map fst obs)" using Cons.prems(3) ob obs by auto
    obtain m where m: "allowed now m w" "allowed_run allowed m (map snd obs) lt" using Cons.prems(2) ob by auto
    obtain s1 where s1: "step w s = Inr s1" "inv m s1" using step_ok [OF Cons.prems(1) m(1)] by blast
    have "nanos l < nanos (fst (hd obs)) + (length obs - 1) * d"
      using Cons.prems(5) y(1) ob obs by simp
    then show ?thesis using Cons.IH [OF s1(2) m(2) y(2)] s1(1) True ob obs by simp
  next
    case False
    then show ?thesis using Cons.prems(1) ob by auto
  qed
qed simp

end

section \<open>An example\<close>

definition example_settings :: settings where
  "example_settings =
     \<lparr>st_rsz = 56, st_mrsz = 64, st_ssz = 128, st_version = ''1.0.0'',
      st_regexes = \<lparr>regex_cgroup_docker = (\<lambda>_. False), regex_cgroup_kubernetes = (\<lambda>_. False),
        regex_cgroup_containerd = (\<lambda>_. False), regex_clean_container_id = (\<lambda>_. None)\<rparr>,
      st_suffix = ''metrics''\<rparr>"

definition example_services :: container_services where
  "example_services =
     \<lparr>cs_docker_connect = False, cs_kubernetes_connect = False, cs_get_version = None, cs_get_containers = None,
      cs_get_events = (\<lambda>_ _. None), cs_list_pods = None\<rparr>"

definition example_observer :: env where
  "example_observer = example_env\<lparr>e_current_pid := 7,
     e_system_new_all := (e_system_new_all env0)\<lparr>sys_processes := [(7, example_sysinfo_process)]\<rparr>\<rparr>"

end
