(* ===== verification/Prometheus.thy ===== *)
theory Prometheus
  imports Exporter_Loop
begin

text \<open>
  \<open>exporters/prometheus.rs\<close> and \<open>exporters/prometheuspush.rs\<close>: the metrics as text in the
  exposition format, served to HTTP requests by tasks that share the generator behind two mutexes, or
  pushed to a gateway in a loop. The HTTP server and client are not modelled: a request is its path,
  a response its body.
\<close>

section \<open>Text of the metrics\<close>

definition push_metric :: "string \<Rightarrow> string \<Rightarrow> string \<Rightarrow> string \<Rightarrow> string \<Rightarrow> bool \<Rightarrow> string" where
  "push_metric body help metric_type metric_name metric_line add_help =
     (let body = (if add_help
                  then body @ ''# HELP '' @ metric_name @ '' '' @ help
                         @ [CHR 0x0A] @ ''# TYPE '' @ metric_name @ '' '' @ metric_type @ [CHR 0x0A]
                  else body)
      in body @ metric_line)"

text \<open>The metric of one turn of the loop; the state is the list of names pushed and the body.\<close>

definition sample_line :: "Metric \<Rightarrow> string" where
  "sample_line msg =
     format_prometheus_metric (m_name msg) (MetricValueType_fmt (m_metric_value msg))
       (if m_attributes msg = [] then None else Some (m_attributes msg))"

definition add_metric :: "Metric \<Rightarrow> string list \<times> string \<Rightarrow> string list \<times> string" where
  "add_metric msg acc =
     (let (metrics_pushed, body) = acc;
          should_i_add_help = (m_name msg \<notin> set metrics_pushed);
          metrics_pushed = (if should_i_add_help then m_name msg # metrics_pushed else metrics_pushed)
      in (metrics_pushed,
          push_metric body (m_description msg) (m_metric_type msg) (m_name msg) (sample_line msg) should_i_add_help))"

definition response_body :: "Metric list \<Rightarrow> string" where
  "response_body msgs = snd (fold add_metric msgs ([], []))"

section \<open>Serving requests\<close>

text \<open>Subtraction of durations panics when the result would be negative.\<close>

definition duration_sub :: "duration \<Rightarrow> duration \<Rightarrow> duration res" where
  "duration_sub a b =
     (if a < b then Inl (Expect_Failed ''overflow when subtracting durations'')
      else Inr (if subsec_nanos b \<le> subsec_nanos a
                then Duration (as_secs a - as_secs b) (subsec_nanos a - subsec_nanos b)
                else Duration (as_secs a - as_secs b - 1) (subsec_nanos a + 1000000000 - subsec_nanos b)))"

text \<open>The context shared by the tasks; a mutex is poisoned when a task panics while it holds it.\<close>

record PowerMetrics =
  pm_last_request :: duration
  pm_last_request_poisoned :: bool
  pm_metric_generator :: MetricGenerator
  pm_metric_generator_poisoned :: bool

definition run_server :: "MetricGenerator \<Rightarrow> PowerMetrics" where
  "run_server metric_generator =
     \<lparr>pm_last_request = Duration 0 0, pm_last_request_poisoned = False,
      pm_metric_generator = metric_generator, pm_metric_generator_poisoned = False\<rparr>"

definition PrometheusExporter_run ::
  "env \<Rightarrow> container_services \<Rightarrow> Topology \<Rightarrow> string \<Rightarrow> bool \<Rightarrow> bool \<Rightarrow> PowerMetrics" where
  "PrometheusExporter_run e cs topo hostname qemu containers =
     run_server (MetricGenerator_new cs (Topology_clone e topo) hostname qemu containers)"

text \<open>The part of a request that runs under both locks.\<close>

definition collect ::
  "settings \<Rightarrow> (nat \<Rightarrow> container_services) \<Rightarrow> world \<Rightarrow> duration \<Rightarrow> duration \<Rightarrow> MetricGenerator \<Rightarrow>
   (string \<times> MetricGenerator) res" where
  "collect st cs w now last_request g =
     bind_res (duration_sub now last_request) (\<lambda>elapsed.
     bind_res (if elapsed > Duration 2 0 then refresh_topology st (sub_world 1 w) (clean_terminated g) else Inr g) (\<lambda>g.
     bind_res (gen_all_metrics (st_version st) (st_regexes st) cs (sub_world 2 w) g) (\<lambda>g.
       let (msgs, g) = pop_metrics g in Inr (response_body msgs, g))))"

definition index_page :: "string \<Rightarrow> string" where
  "index_page suffix =
     ''<a href='' @ [CHR 0x22] @ ''https://github.com/hubblo-org/scaphandre/'' @ [CHR 0x22]
       @ ''>Scaphandre'' @ [CHR 0x27] @ ''s</a> prometheus exporter here. Metrics available on <a href=''
       @ [CHR 0x22] @ ''/'' @ suffix @ [CHR 0x22] @ ''>/'' @ suffix @ ''</a>''"

definition show_metrics ::
  "settings \<Rightarrow> (nat \<Rightarrow> container_services) \<Rightarrow> world \<Rightarrow> string \<Rightarrow> PowerMetrics \<Rightarrow> string res \<times> PowerMetrics" where
  "show_metrics st cs w path context =
     (if path = ''/'' @ st_suffix st then
        let now = current_system_time_since_epoch (w [0])
        in if pm_last_request_poisoned context \<or> pm_metric_generator_poisoned context then (Inr [], context)
           else (case collect st cs w now (pm_last_request context) (pm_metric_generator context) of
                   Inl p \<Rightarrow> (Inl p, context\<lparr>pm_last_request_poisoned := True, pm_metric_generator_poisoned := True\<rparr>)
                 | Inr (body, g) \<Rightarrow> (Inr body, context\<lparr>pm_last_request := now, pm_metric_generator := g\<rparr>))
      else (Inr (index_page (st_suffix st)), context))"

section \<open>Pushing\<close>

definition add_push_attributes :: "Metric \<Rightarrow> (string, string) hmap" where
  "add_push_attributes m =
     (let attributes = m_attributes m;
          attributes = (if hm_contains_key attributes ''instance'' then attributes
                        else hm_insert ''instance'' (m_hostname m) attributes)
      in if hm_contains_key attributes ''hostname'' then attributes
         else hm_insert ''hostname'' (m_hostname m) attributes)"

definition add_push_metric :: "Metric \<Rightarrow> string list \<times> string \<Rightarrow> string list \<times> string" where
  "add_push_metric m acc =
     (let (metrics_pushed, body) = acc;
          should_i_add_help = (m_name m \<notin> set metrics_pushed);
          metrics_pushed = (if should_i_add_help then m_name m # metrics_pushed else metrics_pushed);
          body = (if should_i_add_help
                  then body @ ''# HELP '' @ m_name m @ '' '' @ m_description m
                         @ [CHR 0x0A] @ ''# TYPE '' @ m_name m @ '' '' @ m_metric_type m @ [CHR 0x0A]
                  else body)
      in (metrics_pushed,
          body @ format_prometheus_metric (m_name m) (MetricValueType_fmt (m_metric_value m)) (Some (add_push_attributes m))))"

definition push_body :: "Metric list \<Rightarrow> string" where
  "push_body ms = snd (fold add_push_metric ms ([], []))"

text \<open>One turn of the loop: the new state and the body that is sent.\<close>

definition PrometheusPush_turn ::
  "settings \<Rightarrow> (nat \<Rightarrow> container_services) \<Rightarrow> world \<Rightarrow> MetricGenerator \<Rightarrow> (string \<times> MetricGenerator) res" where
  "PrometheusPush_turn st cs w g =
     bind_res (refresh_topology st (sub_world 1 w) g) (\<lambda>g.
     bind_res (gen_all_metrics (st_version st) (st_regexes st) cs (sub_world 2 w) g) (\<lambda>g.
       let (ms, g) = pop_metrics g in Inr (push_body ms, g)))"

section \<open>The exposition format\<close>

definition help_lines :: "Metric \<Rightarrow> string" where
  "help_lines m = ''# HELP '' @ m_name m @ '' '' @ m_description m
     @ [CHR 0x0A] @ ''# TYPE '' @ m_name m @ '' '' @ m_metric_type m @ [CHR 0x0A]"

text \<open>The reference: the lines of a metric, preceded by the help of its name where the name occurs first.\<close>

definition exposition :: "(Metric \<Rightarrow> string) \<Rightarrow> Metric list \<Rightarrow> string" where
  "exposition line ms =
     concat (map (\<lambda>i. (if m_name (ms ! i) \<in> m_name ` set (take i ms) then [] else help_lines (ms ! i)) @ line (ms ! i))
       [0..<length ms])"

lemma exposition_snoc:
  "exposition line (ms @ [m]) =
     exposition line ms @ (if m_name m \<in> m_name ` set ms then [] else help_lines m) @ line m"
proof -
  have u: "[0..<length (ms @ [m])] = [0..<length ms] @ [length ms]" by simp
  have m: "map (\<lambda>i. (if m_name ((ms @ [m]) ! i) \<in> m_name ` set (take i (ms @ [m])) then [] else help_lines ((ms @ [m]) ! i))
        @ line ((ms @ [m]) ! i)) [0..<length ms] =
      map (\<lambda>i. (if m_name (ms ! i) \<in> m_name ` set (take i ms) then [] else help_lines (ms ! i)) @ line (ms ! i)) [0..<length ms]"
    by (intro map_cong refl) (auto simp: nth_append)
  show ?thesis unfolding exposition_def u map_append m by simp
qed

lemma fold_exposition:
  assumes "\<And>m names body. f m (names, body) =
    (if m_name m \<in> set names then names else m_name m # names,
     body @ (if m_name m \<in> set names then [] else help_lines m) @ line m)"
  shows "fold f ms ([], []) = (fst (fold f ms ([], [])), exposition line ms) \<and> set (fst (fold f ms ([], []))) = m_name ` set ms"
proof (induction ms rule: rev_induct)
  case (snoc m ms)
  then obtain names where n: "fold f ms ([], []) = (names, exposition line ms)" "set names = m_name ` set ms"
    by (metis fst_conv)
  then show ?case by (auto simp: assms exposition_snoc)
qed (simp add: exposition_def)

definition push_line :: "Metric \<Rightarrow> string" where
  "push_line m = format_prometheus_metric (m_name m) (MetricValueType_fmt (m_metric_value m)) (Some (add_push_attributes m))"

text \<open>
  C31. The bodies of both Prometheus exporters are what the exposition format asks for: every metric
  gives its sample, in the order of the list, and the help and type lines of a name stand exactly once,
  right before its first sample.
\<close>

theorem bodies_are_expositions:
  "response_body ms = exposition sample_line ms \<and> push_body ms = exposition push_line ms"
proof
  have "fold add_metric ms ([], []) = (fst (fold add_metric ms ([], [])), exposition sample_line ms)"
    by (rule fold_exposition [THEN conjunct1]) (simp add: add_metric_def push_metric_def help_lines_def Let_def)
  then show "response_body ms = exposition sample_line ms" by (metis response_body_def snd_conv)
  have "fold add_push_metric ms ([], []) = (fst (fold add_push_metric ms ([], [])), exposition push_line ms)"
    by (rule fold_exposition [THEN conjunct1]) (simp add: add_push_metric_def push_line_def help_lines_def Let_def)
  then show "push_body ms = exposition push_line ms" by (metis push_body_def snd_conv)
qed

section \<open>Collections go on for ever\<close>

text \<open>
  The state a collection finds: an exporter that can go on, with a host that was cloned before its first
  refresh, so without handles of eBPF maps.
\<close>

definition collectable :: "settings \<Rightarrow> nat \<Rightarrow> Pid \<Rightarrow> duration \<Rightarrow> MetricGenerator \<Rightarrow> bool" where
  "collectable st n me now g \<longleftrightarrow> ready st n me now g \<and> blind (mg_topology g)"

text \<open>A request finds a clock that did not go back, and then what every turn of an exporter finds.\<close>

definition collection_observes :: "nat \<Rightarrow> Pid \<Rightarrow> duration \<Rightarrow> duration \<Rightarrow> world \<Rightarrow> bool" where
  "collection_observes n me now lt w \<longleftrightarrow> now \<le> e_now (w [0]) \<and> turn_observes n me (e_now (w [0])) lt w"

lemma collectable_later: "collectable st n me now g \<Longrightarrow> now \<le> lt \<Longrightarrow> collectable st n me lt g"
  by (auto simp: collectable_def intro: ready_later)

lemma clean_terminated_collectable: "collectable st n me now g \<Longrightarrow> collectable st n me now (clean_terminated g)"
  by (simp add: collectable_def clean_terminated_ready clean_terminated_blind)

lemma refresh_topology_collectable:
  assumes "collectable st n me now g" "turn_observes n me now lt w"
  shows "\<exists>g'. refresh_topology st (sub_world 1 w) g = Inr g' \<and> collectable st n me lt g'"
  using refresh_topology_ready [of st n me now g lt w] refresh_topology_blind [of st _ g] assms
  by (auto simp: collectable_def)

lemma gen_and_pop_collectable:
  assumes "collectable st n me lt g" "turn_observes n me now lt w"
  shows "\<exists>g' ms. gen_all_metrics (st_version st) re cs (sub_world 2 w) g = Inr g' \<and> pop_metrics g' = (ms, g'\<lparr>mg_data := []\<rparr>) \<and>
    ms \<noteq> [] \<and> collectable st n me lt (g'\<lparr>mg_data := []\<rparr>)"
  using gen_and_pop_ready [of st n me lt g now w re cs] blind_core_times assms by (fastforce simp: collectable_def)

lemma body_nonempty: "ms \<noteq> [] \<Longrightarrow> response_body ms \<noteq> []" "ms \<noteq> [] \<Longrightarrow> push_body ms \<noteq> []"
proof -
  have l: "format_prometheus_metric k v ls \<noteq> []" for k v ls by (simp add: format_prometheus_metric_def)
  show "ms \<noteq> [] \<Longrightarrow> response_body ms \<noteq> []"
    by (cases ms rule: rev_cases) (simp_all add: response_body_def add_metric_def push_metric_def sample_line_def l Let_def split: prod.split)
  show "ms \<noteq> [] \<Longrightarrow> push_body ms \<noteq> []"
    by (cases ms rule: rev_cases) (simp_all add: push_body_def add_push_metric_def l Let_def split: prod.split)
qed

lemma collect_ok:
  assumes g: "collectable st n me now g" and w: "collection_observes n me now lt w" and l: "last_request \<le> now"
  shows "\<exists>body g'. collect st cs w (e_now (w [0])) last_request g = Inr (body, g') \<and> body \<noteq> [] \<and> collectable st n me lt g'"
proof -
  let ?now = "e_now (w [0])"
  have now: "now \<le> ?now" "?now \<le> lt" using w by (auto simp: collection_observes_def turn_observes_def observes_def)
  have g1: "collectable st n me ?now g" by (rule collectable_later [OF g now(1)])
  have tw: "turn_observes n me ?now lt w" using w by (simp add: collection_observes_def)
  have "\<not> ?now < last_request" using l now(1) by simp
  then obtain d where d: "duration_sub ?now last_request = Inr d" by (simp add: duration_sub_def)
  have "\<exists>g2. (if d > Duration 2 0 then refresh_topology st (sub_world 1 w) (clean_terminated g) else Inr g) = Inr g2 \<and>
      collectable st n me lt g2"
    using refresh_topology_collectable [OF clean_terminated_collectable [OF g1] tw] collectable_later [OF g1 now(2)]
    by auto
  then obtain g2 where g2: "(if d > Duration 2 0 then refresh_topology st (sub_world 1 w) (clean_terminated g) else Inr g) = Inr g2"
    "collectable st n me lt g2" by blast
  obtain g3 ms where g3: "gen_all_metrics (st_version st) (st_regexes st) cs (sub_world 2 w) g2 = Inr g3"
    "pop_metrics g3 = (ms, g3\<lparr>mg_data := []\<rparr>)" "ms \<noteq> []" "collectable st n me lt (g3\<lparr>mg_data := []\<rparr>)"
    using gen_and_pop_collectable [OF g2(2) tw] by blast
  show ?thesis using body_nonempty(1) [OF g3(3)] g3(4)
    unfolding collect_def d g2(1) g3(1) bind_res_simps g3(2) Let_def prod.case by blast
qed

text \<open>The requests of a run, each with what it observes; the bodies of the responses are collected.\<close>

type_synonym request = "world \<times> (nat \<Rightarrow> container_services) \<times> string"

definition serve :: "settings \<Rightarrow> request \<Rightarrow> PowerMetrics \<times> string list \<Rightarrow> (PowerMetrics \<times> string list) res" where
  "serve st req s =
     (let (w, cs, path) = req; (context, bodies) = s
      in case show_metrics st cs w path context of
           (Inl p, _) \<Rightarrow> Inl p
         | (Inr body, context) \<Rightarrow> Inr (context, bodies @ [body]))"

definition serving :: "settings \<Rightarrow> nat \<Rightarrow> Pid \<Rightarrow> duration \<Rightarrow> PowerMetrics \<Rightarrow> bool" where
  "serving st n me now context \<longleftrightarrow>
     \<not> pm_last_request_poisoned context \<and> \<not> pm_metric_generator_poisoned context \<and>
     pm_last_request context \<le> now \<and> collectable st n me now (pm_metric_generator context)"

lemma serve_ok:
  assumes "serving st n me now context" "collection_observes n me now lt w"
  shows "\<exists>context' body. serve st (w, cs, path) (context, bodies) = Inr (context', bodies @ [body]) \<and> body \<noteq> [] \<and>
    serving st n me lt context'"
proof (cases "path = ''/'' @ st_suffix st")
  case True
  have now: "e_now (w [0]) \<le> lt" using assms(2) by (simp add: collection_observes_def turn_observes_def observes_def)
  obtain body g' where "collect st cs w (e_now (w [0])) (pm_last_request context) (pm_metric_generator context) = Inr (body, g')"
    "body \<noteq> []" "collectable st n me lt g'"
    using collect_ok [OF _ assms(2)] assms(1) unfolding serving_def by blast
  then show ?thesis using True assms(1) now
    by (auto simp: serve_def show_metrics_def serving_def current_system_time_since_epoch_def)
next
  case False
  have "now \<le> lt" using assms(2) by (auto simp: collection_observes_def turn_observes_def observes_def)
  then show ?thesis using False assms(1) collectable_later
    by (fastforce simp: serve_def show_metrics_def serving_def index_page_def)
qed

interpretation prometheus: steady
  "\<lambda>now s. serving st n me now (fst s) \<and> list_all (\<lambda>b. b \<noteq> []) (snd s)"
  "\<lambda>now lt req. collection_observes n me now lt (fst req)" "serve st" for st n me
proof
  fix now lt :: duration and s :: "PowerMetrics \<times> string list" and req :: request
  assume s: "serving st n me now (fst s) \<and> list_all (\<lambda>b. b \<noteq> []) (snd s)"
    and "collection_observes n me now lt (fst req)"
  then show "\<exists>s'. serve st req s = Inr s' \<and> serving st n me lt (fst s') \<and> list_all (\<lambda>b. b \<noteq> []) (snd s')"
    using serve_ok [of st n me now "fst s" lt "fst req" "fst (snd req)" "snd (snd req)" "snd s"] by auto
qed

text \<open>A run of the server gives one body per request.\<close>

lemma serve_length: "fold_res (serve st) reqs s = Inr s' \<Longrightarrow> length (snd s') = length (snd s) + length reqs"
proof (induction reqs arbitrary: s)
  case (Cons r reqs)
  then obtain s1 where s1: "serve st r s = Inr s1" "fold_res (serve st) reqs s1 = Inr s'" by (auto simp: bind_res_eq_Inr)
  have "length (snd s1) = Suc (length (snd s))"
    using s1(1) by (auto simp: serve_def Let_def split: prod.splits sum.splits)
  then show ?case using Cons.IH [OF s1(2)] by simp
qed simp

text \<open>
  From the start of the server every request gets one response, none of them is empty, no task panics
  and no lock is ever poisoned.
\<close>

lemma serves_from_start:
  assumes "size_ok (st_rsz st)" "size_ok (st_mrsz st)" "size_ok (st_ssz st)" "3 \<le> length (split_char CHR ''.'' (st_version st))"
    and "topology_wf (st_rsz st) (st_mrsz st) (st_ssz st) n (Duration 0 0) topo" "topo_cpu_time_buffer topo = []"
    and "hm_get (sys_processes (e_system_new_all e)) me = Some p" "sp_exe p \<noteq> None"
    and "allowed_run (\<lambda>now lt req. collection_observes n me now lt (fst req)) (Duration 0 0) reqs lt"
  shows "\<exists>context bodies.
    fold_res (serve st) reqs (PrometheusExporter_run e cs topo hostname qemu containers, []) = Inr (context, bodies) \<and>
    length bodies = length reqs \<and> list_all (\<lambda>b. b \<noteq> []) bodies \<and> serving st n me lt context"
proof -
  let ?run = "PrometheusExporter_run e cs topo hostname qemu containers"
  have "serving st n me (Duration 0 0) ?run"
    using assms(1-8) clone_wf [OF assms(5), of e]
    by (simp add: serving_def PrometheusExporter_run_def run_server_def collectable_def ready_def blind_def MetricGenerator_new_def
        knows_itself_def pods_checked_def Topology_clone_def ProcessTracker_clone_def)
  then obtain s' where "fold_res (serve st) reqs (?run, []) = Inr s'" "serving st n me lt (fst s')" "list_all (\<lambda>b. b \<noteq> []) (snd s')"
    using prometheus.run_ok [of st n me "Duration 0 0" "(?run, [])" reqs lt] assms(9) by auto
  then show ?thesis using serve_length [of st reqs "(?run, [])" s'] by (cases s') auto
qed

section \<open>A clock that goes back\<close>

text \<open>
  C32. When a request for the metrics arrives with the clock behind the one of the request before, its
  task panics, and from then on the exporter answers every request for the metrics with an empty body,
  whatever the clock does.
\<close>

theorem clock_going_back_silences:
  assumes "\<not> pm_last_request_poisoned context" "\<not> pm_metric_generator_poisoned context"
    and "e_now (w [0]) < pm_last_request context"
    and "show_metrics st cs w (''/'' @ st_suffix st) context = (r, context')"
  shows "r = Inl (Expect_Failed ''overflow when subtracting durations'') \<and>
    show_metrics st cs' w' (''/'' @ st_suffix st) context' = (Inr [], context')"
  using assms by (auto simp: show_metrics_def collect_def duration_sub_def current_system_time_since_epoch_def)

section \<open>The push loop\<close>

definition push_turn ::
  "settings \<Rightarrow> world \<times> (nat \<Rightarrow> container_services) \<Rightarrow> MetricGenerator \<times> string list \<Rightarrow> (MetricGenerator \<times> string list) res" where
  "push_turn st obs s =
     map_res (\<lambda>(body, g). (g, snd s @ [body])) (PrometheusPush_turn st (snd obs) (fst obs) (fst s))"

interpretation prometheuspush: steady
  "\<lambda>now s. collectable st n me now (fst s) \<and> list_all (\<lambda>b. b \<noteq> []) (snd s)"
  "\<lambda>now lt obs. collection_observes n me now lt (fst obs)" "push_turn st" for st n me
proof
  fix now lt :: duration and s :: "MetricGenerator \<times> string list" and obs :: "world \<times> (nat \<Rightarrow> container_services)"
  assume s: "collectable st n me now (fst s) \<and> list_all (\<lambda>b. b \<noteq> []) (snd s)"
    and w: "collection_observes n me now lt (fst obs)"
  have tw: "turn_observes n me (e_now (fst obs [0])) lt (fst obs)" using w by (simp add: collection_observes_def)
  have "collectable st n me (e_now (fst obs [0])) (fst s)"
    using s w collectable_later by (auto simp: collection_observes_def)
  then obtain g1 where g1: "refresh_topology st (sub_world 1 (fst obs)) (fst s) = Inr g1" "collectable st n me lt g1"
    using refresh_topology_collectable tw by blast
  obtain g2 ms where g2: "gen_all_metrics (st_version st) (st_regexes st) (snd obs) (sub_world 2 (fst obs)) g1 = Inr g2"
    "pop_metrics g2 = (ms, g2\<lparr>mg_data := []\<rparr>)" "ms \<noteq> []" "collectable st n me lt (g2\<lparr>mg_data := []\<rparr>)"
    using gen_and_pop_collectable [OF g1(2) tw] by blast
  have "PrometheusPush_turn st (snd obs) (fst obs) (fst s) = Inr (push_body ms, g2\<lparr>mg_data := []\<rparr>)"
    unfolding PrometheusPush_turn_def g1(1) g2(1) bind_res_simps g2(2) Let_def prod.case ..
  then show "\<exists>s'. push_turn st obs s = Inr s' \<and> collectable st n me lt (fst s') \<and> list_all (\<lambda>b. b \<noteq> []) (snd s')"
    using g2(3,4) s body_nonempty(2) by (simp add: push_turn_def)
qed

lemma push_loop_goes_on:
  assumes "collectable st n me now g" "allowed_run (\<lambda>now lt obs. collection_observes n me now lt (fst obs)) now ws lt"
  shows "\<exists>g' bodies. fold_res (push_turn st) ws (g, []) = Inr (g', bodies) \<and> list_all (\<lambda>b. b \<noteq> []) bodies \<and>
    collectable st n me lt g'"
  using prometheuspush.run_ok [of st n me now "(g, [])" ws lt] assms by auto

section \<open>A run of the server\<close>

lemma example_observer_observes:
  "now \<le> Duration 5 0 \<Longrightarrow> collection_observes 2 7 now (Duration 5 0) (\<lambda>_. example_observer)"
  by (simp add: collection_observes_def turn_observes_def observes_def example_observer_def example_env_def example_sysinfo_process_def
      stats_cover_def env0_def before_2038_def sub_world_def)

lemma clock_going_back_silences_witness:
  "show_metrics example_settings (\<lambda>_. example_services) (\<lambda>_. env0) ''/metrics''
     (snd (show_metrics example_settings (\<lambda>_. example_services) (\<lambda>_. env0) ''/metrics''
       ((run_server (MetricGenerator_new example_services example_topology ''host'' False False))\<lparr>pm_last_request := Duration 5 0\<rparr>))) =
   (Inr [], snd (show_metrics example_settings (\<lambda>_. example_services) (\<lambda>_. env0) ''/metrics''
       ((run_server (MetricGenerator_new example_services example_topology ''host'' False False))\<lparr>pm_last_request := Duration 5 0\<rparr>)))"
proof -
  let ?c = "(run_server (MetricGenerator_new example_services example_topology ''host'' False False))\<lparr>pm_last_request := Duration 5 0\<rparr>"
  have s: "''/metrics'' = ''/'' @ st_suffix example_settings" by (simp add: example_settings_def)
  have "\<not> pm_last_request_poisoned ?c" "\<not> pm_metric_generator_poisoned ?c" "e_now env0 < pm_last_request ?c"
    by (simp_all add: run_server_def env0_def less_duration_def)
  then show ?thesis unfolding s
    using clock_going_back_silences [of ?c "\<lambda>_. env0" example_settings, OF _ _ _ surjective_pairing]
    by blast
qed

section \<open>A cloned topology learns no background\<close>

definition deaf :: "Topology \<Rightarrow> bool" where
  "deaf t \<longleftrightarrow> \<not> topo_cpu_state_buffer t \<and> topo_activation_idle_buffer t = [] \<and>
     list_all (\<lambda>s. sock_activation_idle_buffer s = []) (topo_sockets t)"

lemma refresh_deaf:
  assumes "Topology_refresh rsz mrsz ssz w t = Inr t'" "deaf t"
  shows "deaf t'"
proof -
  have "CPUSocket_refresh_activation_idle_records e [] s = s" for e s
    by (simp add: CPUSocket_refresh_activation_idle_records_def read_activation_idle_record_def)
  then show ?thesis using refresh_idle [OF assms(1)] assms(2) by (fastforce simp: deaf_def list_all_iff)
qed

lemma collect_deaf:
  assumes "collect st cs w now l g = Inr (body, g')" "deaf (mg_topology g)"
  shows "deaf (mg_topology g')"
proof -
  obtain d g1 g2 where g: "(if d > Duration 2 0 then refresh_topology st (sub_world 1 w) (clean_terminated g) else Inr g) = Inr g1"
    "gen_all_metrics (st_version st) (st_regexes st) cs (sub_world 2 w) g1 = Inr g2" "mg_topology g' = mg_topology g2"
    using assms(1) by (auto simp: collect_def bind_res_eq_Inr pop_metrics_def Let_def split: prod.splits)
  have "deaf (mg_topology (clean_terminated g))" using assms(2) by (simp add: clean_terminated_def deaf_def Let_def)
  then have "deaf (mg_topology g1)" using g(1) assms(2) refresh_deaf
    by (auto simp: refresh_topology_def map_res_def bind_res_eq_Inr split: if_splits)
  then show ?thesis using gen_all_metrics_topology [OF g(2)] g(3) by simp
qed

lemma deaf_background:
  assumes "deaf t"
  shows "Topology_get_background_power_microwatts e t = Some (Record_new (e_now e) ''0'' MicroWatt)"
proof -
  have zero: "\<forall>s \<in> set ss. f s = 0 \<Longrightarrow> fold (\<lambda>s tot. tot + f s) ss (0 :: u64) = 0" for f and ss :: "CPUSocket list"
    by (induction ss) auto
  have "fold (\<lambda>s tot. tot + value_u64_or_0 (CPUSocket_get_idle_power_microwatts e s)) (topo_sockets t) 0 = 0"
    "fold (\<lambda>s tot. tot + value_u64_or_0 (CPUSocket_get_activation_power_microwatts e s)) (topo_sockets t) 0 = 0"
    using zero assms
    by (simp_all add: deaf_def list_all_iff CPUSocket_get_idle_power_microwatts_def CPUSocket_get_activation_power_microwatts_def
        value_u64_or_0_def)
  moreover have "show_u64 0 = ''0''" "parse_u64 ''0'' = Some 0" by (simp_all add: text_eval)
  ultimately show ?thesis
    by (simp add: Topology_get_background_power_microwatts_def Topology_get_idle_power_microwatts_def
        Topology_get_activation_power_microwatts_def current_system_time_since_epoch_def Let_def value_u64_or_0_def
        Record_new_def or_zero_def)
qed

text \<open>
  C33. The Prometheus exporter works on a clone of the topology, and the clone has none of the eBPF
  handles: after any requests, in any conditions, the background power of its host is zero. The idle and
  activation powers that the kernel programs are there to measure never reach its metrics, and
  the active power it serves is the raw power.
\<close>

theorem prometheus_background_is_zero:
  assumes "topo_activation_idle_buffer topo = []" "list_all (\<lambda>s. sock_activation_idle_buffer s = []) (topo_sockets topo)"
    and "fold_res (serve st) reqs (PrometheusExporter_run e cs topo hostname qemu containers, []) = Inr (context, bodies)"
  shows "Topology_get_background_power_microwatts e' (mg_topology (pm_metric_generator context)) =
    Some (Record_new (e_now e') ''0'' MicroWatt)"
proof -
  have "deaf (mg_topology (pm_metric_generator (fst (context, bodies))))"
  proof (rule fold_res_invariant [OF assms(3), where P = "\<lambda>s. deaf (mg_topology (pm_metric_generator (fst s)))"])
    show "deaf (mg_topology (pm_metric_generator (fst (PrometheusExporter_run e cs topo hostname qemu containers, []))))"
      using assms(1,2)
      by (simp add: PrometheusExporter_run_def run_server_def MetricGenerator_new_def Topology_clone_def deaf_def list_all_iff CPUSocket_clone_def)
  next
    fix r s s'
    assume "deaf (mg_topology (pm_metric_generator (fst s)))" "serve st r s = Inr s'"
    then show "deaf (mg_topology (pm_metric_generator (fst s')))" using collect_deaf
      by (auto simp: serve_def show_metrics_def Let_def split: prod.splits sum.splits if_splits)
  qed
  then show ?thesis using deaf_background by simp
qed

lemma prometheus_background_is_zero_witness:
  "Topology_get_background_power_microwatts env0 (mg_topology (pm_metric_generator (fst (
      PrometheusExporter_run env0 example_services example_topology ''host'' False False, [])))) =
    Some (Record_new (Duration 0 0) ''0'' MicroWatt)"
proof -
  have "topo_activation_idle_buffer example_topology = []" "list_all (\<lambda>s. sock_activation_idle_buffer s = []) (topo_sockets example_topology)"
    by (simp_all add: example_topology_def safe_add_domain_to_socket_def safe_add_socket_def Topology_new_def
        build_domains_names_def Let_def CPUSocket_new_def safe_add_domain_def)
  from prometheus_background_is_zero [OF this, of example_settings "[]" env0 example_services "''host''" False False _ "[]" env0]
  show ?thesis by (simp add: env0_def)
qed

end
