(* ===== verification/Qemu.thy ===== *)
theory Qemu
  imports Topology_Power Topology_Refresh
begin

text \<open>
  \<open>exporters/qemu.rs\<close>: the energy of virtual machines, accumulated in files laid out like the
  powercap tree so that the guests can read them.
\<close>

section \<open>Operations\<close>

text \<open>
  The file system, as far as the exporter uses it: the directories that can be read, the contents of
  the files, and which paths can be created or written.
\<close>

record file_system =
  fs_is_dir :: "string \<Rightarrow> bool"
  fs_content :: "string \<Rightarrow> string option"
  fs_can_create :: "string \<Rightarrow> bool"
  fs_can_write :: "string \<Rightarrow> bool"

text \<open>\<open>fs::create_dir_all\<close> makes the directory and every parent of it that is missing.\<close>

definition parent_dirs :: "string \<Rightarrow> string list" where
  "parent_dirs path = map (\<lambda>i. take i path) (filter (\<lambda>i. path ! i = CHR ''/'') [0..<length path])"

definition create_dir_all :: "string \<Rightarrow> file_system \<Rightarrow> file_system option" where
  "create_dir_all path fs =
     (if fs_can_create fs path
      then Some (fs\<lparr>fs_is_dir := (\<lambda>p. p = path \<or> p \<in> set (parent_dirs path) \<or> fs_is_dir fs p)\<rparr>)
      else None)"

definition ensure_dir :: "string \<Rightarrow> string \<Rightarrow> file_system \<Rightarrow> file_system res" where
  "ensure_dir shown path fs =
     (if fs_is_dir fs path then Inr fs
      else (case create_dir_all path fs of
              Some fs \<Rightarrow> Inr fs
            | None \<Rightarrow> Inl (Explicit_Panic (''Couldn'' @ [CHR 0x27] @ ''t create '' @ shown))))"

definition get_vm_name_from_cmdline :: "string list \<Rightarrow> string res" where
  "get_vm_name_from_cmdline cmdline =
     (case find (\<lambda>elmt. starts_with elmt ''guest='') cmdline of
        Some elmt \<Rightarrow>
          bind_res (unwrap_opt (get_vec (split_char CHR ''='' elmt) 1)) (\<lambda>field.
            unwrap_opt (get_vec (split_char CHR '','' field) 0))
      | None \<Rightarrow> Inr [])"

text \<open>The result says whether the file could be written.\<close>

definition add_or_create :: "string \<Rightarrow> u64 \<Rightarrow> file_system \<Rightarrow> (bool \<times> file_system) res" where
  "add_or_create path uj_value fs =
     bind_res (ensure_dir path path fs) (\<lambda>fs.
       let file_path = path @ ''/energy_uj''
       in bind_res (case fs_content fs file_path of
             Some file \<Rightarrow> map_res (\<lambda>content. content + uj_value) (parse_unwrap (parse_u64 file))
           | None \<Rightarrow> Inr 0) (\<lambda>content.
            Inr (if fs_can_write fs file_path
                 then (True, fs\<lparr>fs_content := (fs_content fs)(file_path \<mapsto> show_u64 content)\<rparr>)
                 else (False, fs))))"

definition filter_qemu_vm_processes :: "ProcessRecord list list \<Rightarrow> ProcessRecord list list" where
  "filter_qemu_vm_processes processes =
     filter (\<lambda>vecp. vecp \<noteq> [] \<and> list_ex (\<lambda>x. contains x ''qemu-system'') (ip_cmdline (pr_process (hd vecp)))) processes"

text \<open>The machines of one turn.\<close>

definition export_vm :: "string \<Rightarrow> Topology \<Rightarrow> Record \<Rightarrow> ProcessRecord list \<Rightarrow> file_system \<Rightarrow> file_system res" where
  "export_vm path t topo_energy qp fs =
     (if length qp > 2 then
        let l = hd qp
        in bind_res (unwrap_opt (IProcess_cmdline (topo_proc_tracker t) (pr_process l))) (\<lambda>cmdline.
           bind_res (get_vm_name_from_cmdline cmdline) (\<lambda>vm_name.
           bind_res (ensure_dir path (path @ ''/'' @ vm_name @ ''/intel-rapl:0:0'') fs) (\<lambda>fs.
             case get_process_cpu_usage_percentage t (ip_pid (pr_process l)) of
               None \<Rightarrow> Inr fs
             | Some ratio \<Rightarrow>
                 bind_res (parse_unwrap (parse_f64 (rec_value ratio))) (\<lambda>r.
                 bind_res (parse_unwrap (parse_f64 (rec_value topo_energy))) (\<lambda>energy.
                   let uj_to_add = f64_div (f64_mul r energy) (f64_lit 100)
                   in map_res snd (add_or_create (path @ ''/'' @ vm_name @ ''/intel-rapl:0'') (f64_as_u64 uj_to_add) fs))))))
      else Inr fs)"

definition QemuExporter_iterate ::
  "nat \<Rightarrow> nat \<Rightarrow> nat \<Rightarrow> string \<Rightarrow> world \<Rightarrow> Topology \<times> file_system \<Rightarrow> (Topology \<times> file_system) res" where
  "QemuExporter_iterate rsz mrsz ssz path w s =
     (let (t, fs) = s
      in bind_res (Topology_refresh rsz mrsz ssz (sub_world 0 w) t) (\<lambda>t.
           case Topology_get_records_diff_power_microwatts (w [1]) t of
             None \<Rightarrow> Inr (t, fs)
           | Some topo_energy \<Rightarrow>
               map_res (\<lambda>fs. (t, fs))
                 (fold_res (export_vm path t topo_energy)
                    (filter_qemu_vm_processes (get_alive_processes (topo_proc_tracker t))) fs)))"

text \<open>
  One turn of the loop of \<open>run\<close>: the timer counts down from 120 seconds in steps of 5; when it would
  reach zero the terminated processes are cleaned and it starts again.
\<close>

definition QemuExporter_turn ::
  "nat \<Rightarrow> nat \<Rightarrow> nat \<Rightarrow> world \<Rightarrow> Topology \<times> file_system \<times> nat \<Rightarrow> (Topology \<times> file_system \<times> nat) res" where
  "QemuExporter_turn rsz mrsz ssz w s =
     (let (t, fs, timer) = s
      in bind_res (QemuExporter_iterate rsz mrsz ssz ''/var/lib/libvirt/scaphandre'' w (t, fs)) (\<lambda>(t, fs).
           if timer < 5 then Inl (Expect_Failed ''overflow when subtracting durations'')
           else if timer - 5 > 0 then Inr (t, fs, timer - 5)
           else Inr (t\<lparr>topo_proc_tracker := clean_terminated_process_records_vectors (topo_proc_tracker t)\<rparr>, fs, 120)))"

section \<open>Energy of a virtual machine\<close>

text \<open>The runs of one file.\<close>

fun add_all :: "string \<Rightarrow> u64 list \<Rightarrow> file_system \<Rightarrow> file_system res" where
  "add_all path [] fs = Inr fs"
| "add_all path (v # vs) fs = bind_res (add_or_create path v fs) (\<lambda>(_, fs). add_all path vs fs)"

lemma add_all_existing:
  assumes "fs_is_dir fs path" "fs_content fs (path @ ''/energy_uj'') = Some (show_u64 c)" "fs_can_write fs (path @ ''/energy_uj'')"
  shows "\<exists>fs'. add_all path vs fs = Inr fs' \<and> fs_content fs' (path @ ''/energy_uj'') = Some (show_u64 (c + sum_list vs))"
  using assms
proof (induction vs arbitrary: fs c)
  case (Cons v vs)
  let ?fs = "fs\<lparr>fs_content := (fs_content fs)(path @ ''/energy_uj'' \<mapsto> show_u64 (c + v))\<rparr>"
  have "add_or_create path v fs = Inr (True, ?fs)"
    using Cons.prems by (simp add: add_or_create_def ensure_dir_def parse_unwrap_def)
  then show ?case using Cons.IH [of ?fs "c + v"] Cons.prems by (simp add: add.assoc)
qed simp

text \<open>
  C34. The counter of a virtual machine adds up the energies given to it, wrapping at 64 bits like the
  counters of the kernel, except for the first one: the call that creates the file writes zero and the
  energy it was called with is lost.
\<close>

theorem vm_counter_accumulates:
  assumes "fs_content fs (path @ ''/energy_uj'') = None" "fs_can_create fs path" "fs_can_write fs (path @ ''/energy_uj'')"
  shows "\<exists>fs'. add_all path (v # vs) fs = Inr fs' \<and> fs_content fs' (path @ ''/energy_uj'') = Some (show_u64 (sum_list vs))"
proof -
  have "\<exists>fs1. ensure_dir path path fs = Inr fs1 \<and> fs_is_dir fs1 path \<and> fs_content fs1 = fs_content fs \<and>
      fs_can_write fs1 = fs_can_write fs"
    using assms(2) by (auto simp: ensure_dir_def create_dir_all_def)
  then obtain fs1 where fs1: "ensure_dir path path fs = Inr fs1" "fs_is_dir fs1 path" "fs_content fs1 = fs_content fs"
    "fs_can_write fs1 = fs_can_write fs" by blast
  let ?fs = "fs1\<lparr>fs_content := (fs_content fs1)(path @ ''/energy_uj'' \<mapsto> show_u64 0)\<rparr>"
  have "add_or_create path v fs = Inr (True, ?fs)"
    using fs1 assms(1,3) by (simp add: add_or_create_def)
  then show ?thesis using add_all_existing [of ?fs path 0 vs] fs1 assms(3) by simp
qed

lemma vm_counter_accumulates_witness:
  "\<exists>fs'. add_all ''/vm'' [7, 5, 3] \<lparr>fs_is_dir = \<lambda>_. False, fs_content = \<lambda>_. None, fs_can_create = \<lambda>_. True, fs_can_write = \<lambda>_. True\<rparr> = Inr fs' \<and>
    fs_content fs' (''/vm'' @ ''/energy_uj'') = Some (show_u64 8)"
  using vm_counter_accumulates [of "\<lparr>fs_is_dir = \<lambda>_. False, fs_content = \<lambda>_. None, fs_can_create = \<lambda>_. True, fs_can_write = \<lambda>_. True\<rparr>"
      "''/vm''" 7 "[5, 3]"] by simp

section \<open>The loop goes on\<close>

text \<open>Directories can be created and the counters hold numbers.\<close>

definition counters_ok :: "file_system \<Rightarrow> bool" where
  "counters_ok fs \<longleftrightarrow> (\<forall>p. fs_can_create fs p) \<and>
     (\<forall>p c. fs_content fs (p @ ''/energy_uj'') = Some c \<longrightarrow> parse_u64 c \<noteq> None)"

lemma ensure_dir_ok: "counters_ok fs \<Longrightarrow> \<exists>fs'. ensure_dir m p fs = Inr fs' \<and> counters_ok fs'"
  by (auto simp: ensure_dir_def create_dir_all_def counters_ok_def)

lemma add_or_create_ok:
  assumes "counters_ok fs"
  shows "\<exists>b fs'. add_or_create p v fs = Inr (b, fs') \<and> counters_ok fs'"
proof -
  obtain fs1 where fs1: "ensure_dir p p fs = Inr fs1" "counters_ok fs1" using ensure_dir_ok [OF assms] by blast
  have "counters_ok (fs1\<lparr>fs_content := (fs_content fs1)(q \<mapsto> show_u64 c)\<rparr>)" for q c
    using fs1(2) by (auto simp: counters_ok_def)
  moreover have "\<exists>c. (case fs_content fs1 (p @ ''/energy_uj'') of
      Some file \<Rightarrow> map_res (\<lambda>content. content + v) (parse_unwrap (parse_u64 file)) | None \<Rightarrow> Inr 0) = Inr c"
    using fs1(2) by (fastforce simp: counters_ok_def parse_unwrap_def split: option.split)
  ultimately show ?thesis using fs1 by (auto simp: add_or_create_def Let_def)
qed

lemma get_vm_name_total: "\<exists>n. get_vm_name_from_cmdline c = Inr n"
proof (cases "find (\<lambda>elmt. starts_with elmt ''guest='') c")
  case (Some x)
  then obtain t where "x = ''guest'' @ CHR ''='' # t" by (auto simp: find_Some_iff starts_with_iff)
  then have "split_char CHR ''='' x = ''guest'' # split_char CHR ''='' t" by (simp only:) (rule split_char_append, simp)
  then show ?thesis using Some by (cases "split_char CHR ''='' t") (auto simp: get_vm_name_from_cmdline_def get_vec_def)
qed (simp add: get_vm_name_from_cmdline_def)

text \<open>Whether a text is a number does not depend on the format it is read into.\<close>

lemma parse_f_any_format: "parse_f fmt s \<noteq> None \<Longrightarrow> parse_f fmt' s \<noteq> None"
  by (auto simp: parse_f_def parse_unsigned_f_def split: list.splits if_splits option.splits)

lemma usage_percentage_parses:
  assumes "get_process_cpu_usage_percentage t pid = Some r"
  shows "parse_f64 (rec_value r) \<noteq> None"
proof -
  obtain u v where "rec_value r = show_f f32_format (f32_div u v)"
    using assms by (auto simp: get_process_cpu_usage_percentage_def get_process_record_def Record_new_def split: option.splits)
  moreover have "parse_f f32_format (show_f f32_format (f32_div u v)) = Some (f32_div u v)"
    by (rule parse_show_f_valid) (simp_all add: valid_f_ops)
  ultimately show ?thesis using parse_f_any_format [of f32_format "rec_value r" f64_format] by simp
qed

lemma export_vm_ok:
  assumes "counters_ok fs" "qp \<in> set (get_alive_processes (topo_proc_tracker t))" "Topology_get_records_diff_power_microwatts e t = Some en"
  shows "\<exists>fs'. export_vm path t en qp fs = Inr fs' \<and> counters_ok fs'"
proof (cases "2 < length qp")
  case True
  obtain cmd where cmd: "IProcess_cmdline (topo_proc_tracker t) (pr_process (hd qp)) = Some cmd"
    using assms(2) by (auto simp: get_alive_processes_def IProcess_cmdline_def split: option.splits)
  obtain vm where vm: "get_vm_name_from_cmdline cmd = Inr vm" using get_vm_name_total by blast
  obtain fs1 where fs1: "ensure_dir path (path @ ''/'' @ vm @ ''/intel-rapl:0:0'') fs = Inr fs1" "counters_ok fs1"
    using ensure_dir_ok [OF assms(1)] by blast
  obtain x where en: "rec_value en = show_u64 x"
    using assms(3) by (auto simp: Topology_get_records_diff_power_microwatts_def Record_new_def Let_def
        split: option.splits if_splits prod.splits)
  show ?thesis
  proof (cases "get_process_cpu_usage_percentage t (ip_pid (pr_process (hd qp)))")
    case None
    then show ?thesis using True cmd vm fs1 by (simp add: export_vm_def)
  next
    case (Some r)
    then obtain f where "parse_f64 (rec_value r) = Some f" using usage_percentage_parses by blast
    then have "export_vm path t en qp fs = map_res snd (add_or_create (path @ ''/'' @ vm @ ''/intel-rapl:0'')
        (f64_as_u64 (f64_div (f64_mul f (u64_as_f64 x)) (f64_lit 100))) fs1)"
      using True cmd vm fs1 Some by (simp add: export_vm_def en parse_unwrap_def)
    then show ?thesis
      using add_or_create_ok [OF fs1(2), of "path @ ''/'' @ vm @ ''/intel-rapl:0''" "f64_as_u64 (f64_div (f64_mul f (u64_as_f64 x)) (f64_lit 100))"]
      by auto
  qed
qed (use assms(1) in \<open>simp add: export_vm_def\<close>)

lemma export_vms_ok:
  assumes "counters_ok fs" "set qps \<subseteq> set (get_alive_processes (topo_proc_tracker t))"
    and "Topology_get_records_diff_power_microwatts e t = Some en"
  shows "\<exists>fs'. fold_res (export_vm path t en) qps fs = Inr fs' \<and> counters_ok fs'"
  using assms(1,2)
proof (induction qps arbitrary: fs)
  case (Cons qp qps)
  then obtain fs1 where "export_vm path t en qp fs = Inr fs1" "counters_ok fs1"
    using export_vm_ok [OF _ _ assms(3), of fs qp path] by auto
  then show ?case using Cons by simp
qed simp

definition qemu_inv :: "nat \<Rightarrow> nat \<Rightarrow> nat \<Rightarrow> nat \<Rightarrow> duration \<Rightarrow> Topology \<times> file_system \<times> nat \<Rightarrow> bool" where
  "qemu_inv rsz mrsz ssz n now s \<longleftrightarrow>
     size_ok rsz \<and> size_ok mrsz \<and> size_ok ssz \<and> topology_wf rsz mrsz ssz n now (fst s) \<and> counters_ok (fst (snd s)) \<and>
     5 dvd snd (snd s) \<and> 0 < snd (snd s)"

lemma qemu_turn_ok:
  assumes "qemu_inv rsz mrsz ssz n now s" "observes n now lt (sub_world 0 w)"
  shows "\<exists>s'. QemuExporter_turn rsz mrsz ssz w s = Inr s' \<and> qemu_inv rsz mrsz ssz n lt s'"
proof -
  obtain t fs timer where s: "s = (t, fs, timer)" by (cases s)
  obtain t' where t': "Topology_refresh rsz mrsz ssz (sub_world 0 w) t = Inr t'" "topology_wf rsz mrsz ssz n lt t'"
    using refresh_keeps_wf [OF _ _ _ _ assms(2), of rsz mrsz ssz t] assms(1) by (auto simp: qemu_inv_def s)
  let ?path = "''/var/lib/libvirt/scaphandre''"
  have "\<exists>fs'. QemuExporter_iterate rsz mrsz ssz ?path w (t, fs) = Inr (t', fs') \<and> counters_ok fs'"
  proof (cases "Topology_get_records_diff_power_microwatts (w [1]) t'")
    case None
    then show ?thesis using t'(1) assms(1) by (simp add: QemuExporter_iterate_def qemu_inv_def s)
  next
    case (Some en)
    have sub: "set (filter_qemu_vm_processes (get_alive_processes (topo_proc_tracker t'))) \<subseteq> set (get_alive_processes (topo_proc_tracker t'))"
      by (auto simp: filter_qemu_vm_processes_def)
    have "counters_ok fs" using assms(1) by (simp add: qemu_inv_def s)
    then obtain fs' where "fold_res (export_vm ?path t' en) (filter_qemu_vm_processes (get_alive_processes (topo_proc_tracker t'))) fs = Inr fs'"
      "counters_ok fs'"
      using export_vms_ok [OF _ sub Some] by blast
    then show ?thesis unfolding QemuExporter_iterate_def Let_def prod.case t'(1) bind_res_simps Some option.case by simp
  qed
  then obtain fs' where it: "QemuExporter_iterate rsz mrsz ssz ?path w (t, fs) = Inr (t', fs')" "counters_ok fs'" by blast
  have timer: "5 dvd timer" "5 \<le> timer" using assms(1) by (auto simp: qemu_inv_def s intro: dvd_imp_le)
  have turn: "QemuExporter_turn rsz mrsz ssz w s =
      (if timer - 5 > 0 then Inr (t', fs', timer - 5)
       else Inr (t'\<lparr>topo_proc_tracker := clean_terminated_process_records_vectors (topo_proc_tracker t')\<rparr>, fs', 120))"
    using timer(2) unfolding QemuExporter_turn_def s Let_def prod.case it(1) bind_res_simps by simp
  have "topology_wf rsz mrsz ssz n lt (t'\<lparr>topo_proc_tracker := clean_terminated_process_records_vectors (topo_proc_tracker t')\<rparr>)"
    using t'(2) clean_terminated_inv [of "topo_proc_tracker t'" lt] by (simp add: topology_wf_def)
  then show ?thesis using turn t'(2) it(2) assms(1) timer by (auto simp: qemu_inv_def dvd_diff_nat)
qed

interpretation qemu: steady "qemu_inv rsz mrsz ssz n" "\<lambda>now lt w. observes n now lt (sub_world 0 w)"
  "QemuExporter_turn rsz mrsz ssz" for rsz mrsz ssz n
  by unfold_locales (rule qemu_turn_ok)

lemma qemu_loop_goes_on:
  assumes "qemu_inv rsz mrsz ssz n now (t, fs, 120)" "allowed_run (\<lambda>now lt w. observes n now lt (sub_world 0 w)) now ws lt"
  shows "\<exists>s. fold_res (QemuExporter_turn rsz mrsz ssz) ws (t, fs, 120) = Inr s \<and> qemu_inv rsz mrsz ssz n lt s"
  by (rule qemu.run_ok [OF assms])

end
