(* ===== verification/Metric_Reader.thy ===== *)
theory Metric_Reader
  imports Exporter_Loop
begin

text \<open>
  What the exporters that read their own metrics share: searches over the metrics of a turn, whose tests
  may panic, the labels and numbers that the metrics of a collection promise such a reader, and the
  conditions under which its turns go on.
\<close>

section \<open>Searching the metrics\<close>

text \<open>
  Iterators over the metrics. A test may panic, since the closures unwrap what they look up;
  \<open>next_match\<close> is \<open>find\<close> on an iterator that is used again afterwards: the rest starts after the match.
\<close>

fun next_match :: "('a \<Rightarrow> bool res) \<Rightarrow> 'a list \<Rightarrow> ('a option \<times> 'a list) res" where
  "next_match p [] = Inr (None, [])"
| "next_match p (x # xs) = bind_res (p x) (\<lambda>b. if b then Inr (Some x, xs) else next_match p xs)"

definition find_res :: "('a \<Rightarrow> bool res) \<Rightarrow> 'a list \<Rightarrow> 'a option res" where
  "find_res p xs = map_res fst (next_match p xs)"

fun filter_map_res :: "('a \<Rightarrow> 'b option res) \<Rightarrow> 'a list \<Rightarrow> 'b list res" where
  "filter_map_res f [] = Inr []"
| "filter_map_res f (x # xs) =
     bind_res (f x) (\<lambda>y. map_res (\<lambda>ys. case y of Some y \<Rightarrow> y # ys | None \<Rightarrow> ys) (filter_map_res f xs))"

definition attribute :: "string \<Rightarrow> Metric \<Rightarrow> string res" where
  "attribute k m = unwrap_opt (hm_get (m_attributes m) k)"

definition value_text :: "Metric \<Rightarrow> string" where
  "value_text m = MetricValueType_fmt (m_metric_value m)"

text \<open>The power metric of a process: the label is unwrapped before it is compared.\<close>

definition power_of_pid :: "string \<Rightarrow> Metric \<Rightarrow> bool res" where
  "power_of_pid pid x =
     (if m_name x = ''scaph_process_power_consumption_microwatts''
      then map_res (\<lambda>p. p = pid) (attribute ''pid'' x) else Inr False)"

text \<open>The test of a metric of a socket by its name and label.\<close>

definition of_socket :: "string \<Rightarrow> u16 \<Rightarrow> Metric \<Rightarrow> bool res" where
  "of_socket name sid x =
     (if m_name x = name
      then bind_res (attribute ''socket_id'' x) (\<lambda>i. map_res (\<lambda>i. i = sid) (parse_unwrap (parse_u16 i)))
      else Inr False)"

section \<open>What the metrics promise their reader\<close>

text \<open>
  The report unwraps labels and numbers of some metrics. A metric is good for the report when the labels
  and numbers that its name lets the report expect are there.
\<close>

definition reads_f32 :: "Metric \<Rightarrow> bool" where
  "reads_f32 m \<longleftrightarrow> parse_f32 (value_text m) \<noteq> None"

definition socket_label :: "Metric \<Rightarrow> bool" where
  "socket_label m \<longleftrightarrow> (\<exists>i. hm_get (m_attributes m) ''socket_id'' = Some (show_u16 i))"

definition is_i32 :: "int \<Rightarrow> bool" where
  "is_i32 p \<longleftrightarrow> - (2 ^ 31) \<le> p \<and> p < 2 ^ 31"

definition process_label :: "Metric \<Rightarrow> bool" where
  "process_label m \<longleftrightarrow> (\<exists>p. hm_get (m_attributes m) ''pid'' = Some (show_int p) \<and> is_i32 p) \<and>
     hm_contains_key (m_attributes m) ''exe'' \<and> hm_contains_key (m_attributes m) ''cmdline''"

definition disk_label :: "Metric \<Rightarrow> bool" where
  "disk_label m \<longleftrightarrow> hm_contains_key (m_attributes m) ''disk_name'' \<and>
     (\<exists>b. hm_get (m_attributes m) ''disk_is_removable'' = Some (show_bool b))"

definition socket_figures :: "string set" where
  "socket_figures = {''scaph_socket_power_microwatts'', ''scaph_socket_idle_power_microwatts'',
     ''scaph_socket_activation_power_microwatts'', ''scaph_socket_background_power_microwatts'',
     ''scaph_domain_power_microwatts''}"

definition parsed_figures :: "string set" where
  "parsed_figures = {''scaph_host_power_microwatts'', ''scaph_socket_power_microwatts'',
     ''scaph_socket_idle_power_microwatts'', ''scaph_domain_power_microwatts'',
     ''scaph_process_power_consumption_microwatts''}"

definition report_ok :: "Metric \<Rightarrow> bool" where
  "report_ok m \<longleftrightarrow>
     (starts_with (m_name m) ''scaph_host_disk_'' \<longrightarrow> disk_label m) \<and>
     (starts_with (m_name m) ''scaph_process_'' \<longrightarrow> process_label m) \<and>
     (m_name m \<in> socket_figures \<longrightarrow> socket_label m) \<and>
     (m_name m = ''scaph_domain_power_microwatts'' \<longrightarrow> hm_contains_key (m_attributes m) ''domain_name'') \<and>
     (m_name m \<in> parsed_figures \<longrightarrow> reads_f32 m)"

text \<open>Most names let the report expect nothing.\<close>

definition plain_name :: "string \<Rightarrow> bool" where
  "plain_name n \<longleftrightarrow> \<not> starts_with n ''scaph_host_disk_'' \<and> \<not> starts_with n ''scaph_process_'' \<and>
     n \<notin> socket_figures \<and> n \<notin> parsed_figures"

lemmas name_eval = plain_name_def socket_figures_def parsed_figures_def

lemma report_ok_plain [intro]: "plain_name n \<Longrightarrow> report_ok (new_metric h n ty ts a d v)"
  by (auto simp: report_ok_def name_eval new_metric_def)

lemma report_ok_plains [intro]:
  "plain_name n \<Longrightarrow> list_all report_ok (record_metric h n ty a d r)"
  "plain_name n \<Longrightarrow> list_all report_ok (count_metric h n ty ts d c)"
  "plain_name n \<Longrightarrow> list_all report_ok (core_metrics h n ts d vals)"
  by (auto simp: record_metric_def count_metric_def core_metrics_def list_all_iff split: option.split)

lemma self_metrics_report_ok:
  assumes "gen_self_metrics version w g = Inr g'" "mg_data g = []"
  shows "list_all report_ok (mg_data g')"
proof -
  have u: "list_all report_ok ms" if "unsigned_metric h n ts d r = Inr ms" "plain_name n" for h n ts d r ms
    using that by (auto simp: unsigned_metric_def parse_unwrap_def split: option.splits)
  have s: "list_all report_ok (concat (map (self_socket_metrics h ts) xs))" for h ts xs
    by (auto simp: list_all_iff self_socket_metrics_def Let_def intro!: report_ok_plain) (simp_all add: name_eval)
  have v: "plain_name ''scaph_self_memory_virtual_bytes''" "plain_name ''scaph_self_memory_bytes''" "plain_name ''scaph_self_version''"
    "plain_name ''scaph_self_cpu_usage_percent''" "plain_name ''scaph_self_topo_stats_nb''" "plain_name ''scaph_self_topo_records_nb''"
    "plain_name ''scaph_self_topo_procs_nb''" by (simp_all add: name_eval)
  show ?thesis using assms u s v
    by (auto simp: gen_self_metrics_def Let_def bind_res_eq_Inr split: option.split)
qed

text \<open>Powers are printed integers.\<close>

lemma powers_printed:
  "Topology_get_records_diff_power_microwatts e t = Some r \<Longrightarrow> \<exists>u. rec_value r = show_u64 u"
  "CPUSocket_get_records_diff_power_microwatts e s = Some r \<Longrightarrow> \<exists>u. rec_value r = show_u64 u"
  "Domain_get_records_diff_power_microwatts d = Some r \<Longrightarrow> \<exists>u. rec_value r = show_u64 u"
  by (auto simp: Topology_get_records_diff_power_microwatts_def CPUSocket_get_records_diff_power_microwatts_def
      Domain_get_records_diff_power_microwatts_def Record_new_def Let_def split: option.splits prod.splits if_splits)

lemma report_ok_figure:
  assumes "\<not> starts_with n ''scaph_host_disk_''" "\<not> starts_with n ''scaph_process_''"
    and "n \<in> socket_figures \<Longrightarrow> \<exists>i. hm_get a ''socket_id'' = Some (show_u16 i)"
    and "n = ''scaph_domain_power_microwatts'' \<Longrightarrow> hm_contains_key a ''domain_name''"
    and "\<And>x. n \<in> parsed_figures \<Longrightarrow> r = Some x \<Longrightarrow> \<exists>u. rec_value x = show_u64 u"
  shows "list_all report_ok (record_metric h n ty a d r)"
proof (cases r)
  case (Some x)
  have "reads_f32 (new_metric h n ty (timestamp x) a d (Text (rec_value x)))" if "n \<in> parsed_figures"
    using assms(5) [OF that Some] by (auto simp: reads_f32_def value_text_def new_metric_def show_u64_def parse_f_show_nat)
  then show ?thesis using assms(1-4) Some
    by (auto simp: record_metric_def report_ok_def new_metric_def socket_label_def)
qed (simp add: record_metric_def)

definition disks_named :: "System \<Rightarrow> bool" where
  "disks_named sys \<longleftrightarrow> (\<forall>d \<in> set (sys_disks sys). disk_name d \<noteq> None)"

abbreviation named_disks :: "Topology \<Rightarrow> bool" where
  "named_disks t \<equiv> disks_named (pt_sysinfo (topo_proc_tracker t))"

lemma host_metrics_report_ok:
  assumes "gen_host_metrics w g = Inr g'" "list_all report_ok (mg_data g)" "named_disks (mg_topology g)"
  shows "list_all report_ok (mg_data g')"
proof -
  have p: "list_all report_ok (record_metric h ''scaph_host_power_microwatts'' ty a d (Topology_get_records_diff_power_microwatts e t))"
    for h ty a d e t
    by (rule report_ok_figure) (use powers_printed(1) in \<open>simp_all add: socket_figures_def\<close>)
  have n: "plain_name ''scaph_host_energy_microjoules''" "plain_name ''scaph_host_idle_power_microwatts''"
    "plain_name ''scaph_host_activation_power_microwatts''" "plain_name ''scaph_host_background_power_microwatts''"
    "plain_name ''scaph_host_core_power_microwatts''" "plain_name ''scaph_host_core_coefficient''" "plain_name ''scaph_host_core_proportion''"
    "plain_name ''scaph_host_cpu_frequency''" "plain_name ''scaph_host_load_avg_one''" "plain_name ''scaph_host_load_avg_five''"
    "plain_name ''scaph_host_load_avg_fifteen''" "plain_name ''scaph_host_memory_total_bytes''" "plain_name ''scaph_host_memory_available_bytes''"
    "plain_name ''scaph_host_memory_free_bytes''" "plain_name ''scaph_host_swap_free_bytes''" "plain_name ''scaph_host_swap_total_bytes''"
    by (simp_all add: name_eval)
  have hp: "list_all report_ok (host_power_metrics v h t)" for v h t
    using p n by (auto simp: host_power_metrics_def Let_def split: option.split)
  have m: "list_all report_ok (memory_metrics v h t)" for v h t using n by (auto simp: memory_metrics_def)
  have l: "list_all report_ok ms" if "load_metrics h (get_load_avg e t) = Inr ms" for h e t ms
    using that n by (auto simp: load_metrics_def get_load_avg_def Let_def index_vec_def)
  have "list_all report_ok (disk_metrics h (disk_entries e d))" if "disk_name d \<noteq> None" for h e d
  proof -
    have "disk_label (new_metric h n ty ts (disk_attributes d) ds v)" for h n ty ts ds v
      using that by (auto simp: disk_label_def new_metric_def disk_attributes_def insert_some_def Let_def)
    then have "report_ok (new_metric h n ty ts (disk_attributes d) ds v)"
      if "\<not> starts_with n ''scaph_process_''" "n \<notin> socket_figures" "n \<noteq> ''scaph_domain_power_microwatts''" "n \<notin> parsed_figures" for h n ty ts ds v
      using that by (simp add: report_ok_def new_metric_def)
    then show ?thesis by (simp add: disk_metrics_def disk_entries_def name_eval)
  qed
  then have d: "list_all report_ok (disk_metrics h (get_disks e (mg_topology g)))" for h e
    using assms(3) last_in_set unfolding get_disks_keeps_last disks_named_def
    by (auto simp: disk_metrics_def split: list.splits if_splits)
  show ?thesis using assms(1,2) hp m l d n
    by (auto simp: gen_host_metrics_def Let_def bind_res_eq_Inr)
qed

definition idle_printed :: "CPUSocket \<Rightarrow> bool" where
  "idle_printed s \<longleftrightarrow> (\<forall>mv \<in> set (sock_activation_idle_buffer s). \<forall>x \<in> set (mv_values mv). \<exists>u. x = show_u64 u)"

lemma idle_power_printed:
  "idle_printed s \<Longrightarrow> CPUSocket_get_idle_power_microwatts e s = Some r \<Longrightarrow> \<exists>u. rec_value r = show_u64 u"
proof -
  assume s: "idle_printed s" "CPUSocket_get_idle_power_microwatts e s = Some r"
  let ?l = "last (sock_activation_idle_buffer s)"
  have "sock_activation_idle_buffer s \<noteq> []" "2 \<le> length (mv_values ?l)" and r: "rec_value r = mv_values ?l ! 0"
    using s(2) by (auto simp: CPUSocket_get_idle_power_microwatts_def Let_def Record_new_def split: if_splits)
  then have "?l \<in> set (sock_activation_idle_buffer s)" "mv_values ?l ! 0 \<in> set (mv_values ?l)" by (auto intro!: nth_mem)
  then show ?thesis using s(1) r unfolding idle_printed_def by metis
qed

lemma socket_metrics_report_ok:
  assumes "list_all report_ok (mg_data g)" "list_all idle_printed (topo_sockets (mg_topology g))"
  shows "list_all report_ok (mg_data (gen_socket_metrics w g))"
proof -
  have n: "plain_name ''scaph_domain_energy_microjoules''" "plain_name ''scaph_domain_rapl_mmio_energy_microjoules''"
    "plain_name ''scaph_socket_energy_microjoules''" "plain_name ''scaph_socket_rapl_mmio_energy_microjoules''"
    by (simp_all add: name_eval)
  have dp: "list_all report_ok (record_metric h ''scaph_domain_power_microwatts'' ty
      (hm_insert ''socket_id'' (show_u16 i) (hm_insert ''domain_id'' x (hm_insert ''domain_name'' y []))) d
      (Domain_get_records_diff_power_microwatts dm))" for h ty i x y d dm
    by (rule report_ok_figure) (use powers_printed(3) in auto)
  have d: "list_all report_ok (domain_metrics e h s d)" for e h s d
    unfolding domain_metrics_def Let_def using n dp by auto
  have sp: "list_all report_ok (record_metric h n ty (hm_insert ''socket_id'' (show_u16 i) []) d r)"
    if "\<not> starts_with n ''scaph_host_disk_''" "\<not> starts_with n ''scaph_process_''" "n \<noteq> ''scaph_domain_power_microwatts''"
      "\<And>x. n \<in> parsed_figures \<Longrightarrow> r = Some x \<Longrightarrow> \<exists>u. rec_value x = show_u64 u" for h n ty i d r
    by (rule report_ok_figure) (use that in auto)
  have p: "list_all report_ok (record_metric h ''scaph_socket_power_microwatts'' ty (hm_insert ''socket_id'' (show_u16 i) []) d
      (CPUSocket_get_records_diff_power_microwatts e s))" for h ty i d e s
    by (rule sp) (use powers_printed(2) in simp_all)
  have idle: "list_all report_ok (record_metric h ''scaph_socket_idle_power_microwatts'' ty (hm_insert ''socket_id'' (show_u16 i) []) d
      (CPUSocket_get_idle_power_microwatts e s))" if "idle_printed s" for h ty i d e s
    by (rule sp) (use idle_power_printed [OF that] in simp_all)
  have ab: "list_all report_ok (record_metric h ''scaph_socket_activation_power_microwatts'' ty (hm_insert ''socket_id'' (show_u16 i) []) d r)"
    "list_all report_ok (record_metric h ''scaph_socket_background_power_microwatts'' ty (hm_insert ''socket_id'' (show_u16 i) []) d r)"
    for h ty i d r by (rule sp; simp add: parsed_figures_def)+
  have ds: "list_all report_ok (concat (map (\<lambda>(i, d). domain_metrics (v [5, i]) h s d) xs))" for v h s xs
    using d by (fastforce simp: list_all_iff)
  have s: "list_all report_ok (socket_metrics v h s)" if "idle_printed s" for v h s
    unfolding socket_metrics_def Let_def using n ds p ab idle [OF that] by auto
  then show ?thesis using assms
    by (auto simp: gen_socket_metrics_def list_all_iff dest!: snd_enumerate)
qed

text \<open>The entries of the map of a process.\<close>

definition entries_ok :: "process_metrics \<Rightarrow> bool" where
  "entries_ok m \<longleftrightarrow> (\<forall>(n, d, r) \<in> set m. starts_with n ''scaph_process_'' \<and>
     (n = ''scaph_process_power_consumption_microwatts'' \<longrightarrow> parse_f32 (rec_value r) \<noteq> None))"

lemma entries_ok_insert:
  "entries_ok m \<Longrightarrow> starts_with n ''scaph_process_'' \<Longrightarrow>
   n \<noteq> ''scaph_process_power_consumption_microwatts'' \<or> parse_f32 (rec_value r) \<noteq> None \<Longrightarrow> entries_ok (hm_insert n (d, r) m)"
  by (induction m) (auto simp: entries_ok_def)

lemma process_entries_ok:
  assumes "get_all_per_process w t pid = Inr (Some m)"
  shows "entries_ok m"
proof -
  have u: "entries_ok (usage_metrics r p [])" for r p
    unfolding usage_metrics_def Let_def by (intro entries_ok_insert) (simp_all add: entries_ok_def)
  have c: "entries_ok (core_time_metrics r x m)" if "entries_ok m" for r x m
    unfolding core_time_metrics_def Let_def by (cases x) (auto intro!: entries_ok_insert simp: that)
  have f: "valid_f f64_format v \<Longrightarrow> parse_f32 (show_f64 v) \<noteq> None" for v
    using parse_show_f_other [of f64_format v f32_format] by auto
  have v: "valid_f f64_format v" if "process_power ps qs = Inr v" for ps qs v
    using that valid_fsum [of f64_format] by (auto simp: process_power_def map_res_def bind_res_eq_Inr)
  have z: "valid_f f64_format f_zero" by (rule valid_f_ops(6)) simp
  have p: "entries_ok m'" if pm: "power_metrics v t r x ps m = Inr m'" and em: "entries_ok m" for v t r x ps m m'
  proof (cases ps)
    case (Some percentages)
    then obtain q where q: "(case Topology_get_proportional_core_diff_power_microwatts v t of
              Some mv \<Rightarrow> process_power (mv_values mv) percentages | None \<Rightarrow> Inr f_zero) = Inr q"
      "m' = (let res = hm_insert ''scaph_process_power_consumption_microwatts''
                  (''Total data read on disk by the process, in bytes'', Record_new (pr_timestamp r) (show_f64 q) MicroWatt) m
            in case x of Some data \<Rightarrow> core_time_metrics r data res | None \<Rightarrow> res)"
      using pm unfolding power_metrics_def Some option.case by (auto simp: bind_res_eq_Inr Let_def)
    have "valid_f f64_format q" using q(1) v z by (auto split: option.splits)
    then have "entries_ok (hm_insert ''scaph_process_power_consumption_microwatts''
        (''Total data read on disk by the process, in bytes'', Record_new (pr_timestamp r) (show_f64 q) MicroWatt) m)"
      using f em by (intro entries_ok_insert) (simp_all add: Record_new_def)
    then show ?thesis using c q(2) by (simp add: Let_def split: option.split)
  qed (use pm em in \<open>simp add: power_metrics_def\<close>)
  have e: "entries_ok []" by (simp add: entries_ok_def)
  show ?thesis using assms p u e
    by (auto simp: get_all_per_process_def Let_def map_res_def bind_res_eq_Inr split: option.splits)
qed

text \<open>The process table: identifiers fit \<open>pid_t\<close> and the executable paths are readable.\<close>

definition table_ok :: "Topology \<Rightarrow> bool" where
  "table_ok t \<longleftrightarrow> (\<forall>(pid, p) \<in> set (sys_processes (pt_sysinfo (topo_proc_tracker t))). is_i32 pid \<and> sp_exe p \<noteq> None)"

lemma alive_in_table:
  "pid \<in> set (get_alive_pids pt) \<Longrightarrow> \<exists>p. hm_get (sys_processes (pt_sysinfo pt)) pid = Some p"
  by (auto simp: get_alive_pids_def get_alive_processes_def split: option.splits)

lemma process_metrics_report_ok:
  assumes "process_metrics_of re w g pid = Inr ms" "table_ok (mg_topology g)"
    and "pid \<in> set (get_alive_pids (topo_proc_tracker (mg_topology g)))"
  shows "list_all report_ok ms"
proof -
  let ?pt = "topo_proc_tracker (mg_topology g)"
  obtain p where p: "hm_get (sys_processes (pt_sysinfo ?pt)) pid = Some p" using alive_in_table [OF assms(3)] by blast
  then have i: "is_i32 pid" using assms(2) map_of_SomeD [OF p] by (fastforce simp: table_ok_def)
  obtain exe cmdline a a' m where m: "get_process_cmdline ?pt pid = Inr cmdline"
    "cmdline_attributes (mg_qemu g) cmdline (hm_insert ''exe'' exe (hm_insert ''pid'' (show_int pid) a)) = Inr a'"
    "get_all_per_process (sub_world 1 w) (mg_topology g) pid = Inr m"
    "ms = (case m of None \<Rightarrow> [] | Some metrics \<Rightarrow>
        map (\<lambda>(k, description, r). new_metric (mg_hostname g) k ''gauge'' (timestamp r) a' description (Text (rec_value r))) metrics)"
    using assms(1) by (auto simp: process_metrics_of_def Let_def bind_res_eq_Inr)
  have "cmdline \<noteq> None"
    using m(1) p by (auto simp: get_process_cmdline_def IProcess_cmdline_def has_pid_iff filter_eq_Cons_iff split: list.splits)
  then have l: "hm_get a' ''pid'' = Some (show_int pid)" "hm_contains_key a' ''exe''" "hm_contains_key a' ''cmdline''"
    using m(2) by (auto simp: cmdline_attributes_def Let_def map_res_def bind_res_eq_Inr split: option.splits if_splits)
  have "report_ok (new_metric h k ty ts a' d (Text (rec_value r)))"
    if k0: "starts_with k ''scaph_process_''" and k1: "k = ''scaph_process_power_consumption_microwatts'' \<longrightarrow> parse_f32 (rec_value r) \<noteq> None"
    for h k ty ts d and r :: Record
  proof -
    obtain x where k: "k = ''scaph_process_'' @ x" using k0 unfolding starts_with_iff by blast
    have n: "\<not> starts_with k ''scaph_host_disk_''" "k \<notin> socket_figures" "k \<noteq> ''scaph_domain_power_microwatts''" by (simp_all add: k name_eval)
    have f: "k \<in> parsed_figures \<longrightarrow> parse_f32 (rec_value r) \<noteq> None" using k1 by (auto simp: k name_eval)
    have "process_label (new_metric h k ty ts a' d (Text (rec_value r)))"
      using l i by (simp add: process_label_def new_metric_def) blast
    then show ?thesis using n f by (simp add: report_ok_def new_metric_def reads_f32_def value_text_def)
  qed
  then have e: "list_all report_ok (map (\<lambda>(k, description, r). new_metric h k ty (timestamp r) a' description (Text (rec_value r))) es)"
    if "entries_ok es" for h ty es using that unfolding entries_ok_def by (induction es) auto
  show ?thesis using m(4) process_entries_ok [of "sub_world 1 w" "mg_topology g" pid] m(3) e by (simp split: option.splits)
qed

text \<open>All metrics of a collection are good for the report.\<close>

lemma gen_all_metrics_report_ok:
  assumes "gen_all_metrics version re cs w g = Inr g'" "mg_data g = []"
    and "named_disks (mg_topology g)" "list_all idle_printed (topo_sockets (mg_topology g))" "table_ok (mg_topology g)"
  shows "list_all report_ok (mg_data g')"
proof (rule conjunct1, rule gen_all_metrics_all [OF assms(1)])
  fix v and g1 :: MetricGenerator
  assume ok: "list_all report_ok (mg_data g1)"
  have "plain_name ''scaph_forks_since_boot_total''" "plain_name ''scaph_processes_running_current''"
    "plain_name ''scaph_processes_blocked_current''" "plain_name ''scaph_context_switches_total''" by (simp_all add: name_eval)
  then show "list_all report_ok (mg_data (gen_system_metrics v g1))" using ok by (auto simp: gen_system_metrics_def Let_def)
qed (use assms self_metrics_report_ok host_metrics_report_ok socket_metrics_report_ok process_metrics_report_ok in \<open>(metis | fastforce)+\<close>)

section \<open>Searches that do not panic\<close>

lemma next_match_total:
  "(\<And>x. x \<in> set xs \<Longrightarrow> p x = Inr (q x)) \<Longrightarrow> next_match p xs = Inr (find q xs, tl (dropWhile (\<lambda>x. \<not> q x) xs))"
  by (induction xs) auto

lemma find_res_total: "(\<And>x. x \<in> set xs \<Longrightarrow> p x = Inr (q x)) \<Longrightarrow> find_res p xs = Inr (find q xs)"
  by (simp add: find_res_def next_match_total)

lemma filter_map_res_total:
  "(\<And>x. x \<in> set xs \<Longrightarrow> f x = Inr (g x)) \<Longrightarrow> filter_map_res f xs = Inr (List.map_filter g xs)"
  by (induction xs) (auto simp: map_filter_simps split: option.split)

lemma filter_map_res_ok:
  "(\<And>x. x \<in> set xs \<Longrightarrow> \<exists>y. f x = Inr y) \<Longrightarrow> \<exists>ys. filter_map_res f xs = Inr ys"
  using filter_map_res_total [of xs f "\<lambda>x. projr (f x)"] by (metis sum.sel(2))

lemma next_match_Inr:
  "next_match p xs = Inr (found, rest) \<Longrightarrow>
     found = find (\<lambda>x. p x = Inr True) xs \<and> rest = tl (dropWhile (\<lambda>x. p x \<noteq> Inr True) xs)"
  by (induction xs) (auto simp: bind_res_eq_Inr split: if_splits)

lemma find_res_Inr: "find_res p xs = Inr found \<Longrightarrow> found = find (\<lambda>x. p x = Inr True) xs"
  using next_match_Inr by (fastforce simp: find_res_def map_res_def bind_res_eq_Inr)

lemma filter_map_res_Inr:
  "filter_map_res f xs = Inr ys \<Longrightarrow> ys = List.map_filter (\<lambda>x. projr (f x)) xs \<and> (\<forall>x \<in> set xs. \<exists>y. f x = Inr y)"
  by (induction xs arbitrary: ys) (auto simp: bind_res_eq_Inr map_res_def map_filter_simps split: option.splits)

lemma map_map_filter: "map f (List.map_filter h xs) = List.map_filter (\<lambda>x. map_option f (h x)) xs"
  by (induction xs) (auto simp: map_filter_simps split: option.split)

lemma length_map_filter: "length (List.map_filter h xs) \<le> length xs"
  by (simp add: List.map_filter_def)

lemma map_filter_cong: "(\<And>x. x \<in> set xs \<Longrightarrow> f x = g x) \<Longrightarrow> List.map_filter f xs = List.map_filter g xs"
  by (simp add: List.map_filter_def cong: filter_cong)

lemma parse_i32_show_int: "is_i32 p \<Longrightarrow> parse_i32 (show_int p) = Some p"
  using parse_sint_show_int [of "2 ^ 31" p] by (simp add: is_i32_def parse_i32_def)

text \<open>The tests of the report on metrics that are good for it.\<close>

lemma of_socket_total:
  assumes "report_ok m" "name \<in> socket_figures"
  shows "of_socket name sid m = Inr (m_name m = name \<and> hm_get (m_attributes m) ''socket_id'' = Some (show_u16 sid))"
proof (cases "m_name m = name")
  case True
  then obtain i where "hm_get (m_attributes m) ''socket_id'' = Some (show_u16 i)" using assms by (auto simp: report_ok_def socket_label_def)
  then show ?thesis using True by (simp add: of_socket_def attribute_def parse_unwrap_def show_u16_inj)
qed (simp add: of_socket_def)

lemma reads_f32_unwrap: "reads_f32 m \<Longrightarrow> \<exists>v. parse_unwrap (parse_f32 (value_text m)) = Inr v"
  by (auto simp: reads_f32_def parse_unwrap_def)

abbreviation power_metric :: "string \<Rightarrow> Metric list \<Rightarrow> Metric option" where
  "power_metric pid \<equiv>
     find (\<lambda>x. m_name x = ''scaph_process_power_consumption_microwatts'' \<and> hm_get (m_attributes x) ''pid'' = Some pid)"

lemma find_power_Inr:
  assumes "find_res (power_of_pid pid) ms = Inr found"
  shows "found = power_metric pid ms"
proof -
  have "(power_of_pid pid x = Inr True) =
      (m_name x = ''scaph_process_power_consumption_microwatts'' \<and> hm_get (m_attributes x) ''pid'' = Some pid)" for x
    by (cases "hm_get (m_attributes x) ''pid''") (auto simp: power_of_pid_def attribute_def)
  then show ?thesis using find_res_Inr [OF assms] by simp
qed

lemma power_metric_ok:
  assumes "list_all report_ok ms"
  shows "find_res (power_of_pid pid) ms = Inr (power_metric pid ms)"
    and "power_metric pid ms = Some m \<Longrightarrow> process_label m \<and> reads_f32 m \<and> hm_get (m_attributes m) ''pid'' = Some pid"
proof -
  have lab: "process_label x" "reads_f32 x" if "x \<in> set ms" "m_name x = ''scaph_process_power_consumption_microwatts''" for x
    using assms that by (auto simp: list_all_iff report_ok_def parsed_figures_def)
  show "find_res (power_of_pid pid) ms = Inr (power_metric pid ms)"
    using lab(1) by (intro find_res_total) (fastforce simp: power_of_pid_def process_label_def attribute_def)
  show "process_label m \<and> reads_f32 m \<and> hm_get (m_attributes m) ''pid'' = Some pid" if "power_metric pid ms = Some m"
    using that lab by (auto simp: find_Some_iff)
qed

section \<open>The processes selected\<close>

lemma table_ok_exe:
  "table_ok t \<Longrightarrow> hm_get (sys_processes (pt_sysinfo (topo_proc_tracker t))) pid = Some p \<Longrightarrow> sp_exe p \<noteq> None"
  using map_of_SomeD by (fastforce simp: table_ok_def)

lemma selected_total:
  assumes "table_ok t"
  shows "\<exists>cs. get_filtered_processes q (topo_proc_tracker t) = Inr cs"
    and "\<exists>cs. get_top_consumers w (topo_proc_tracker t) n = Inr cs"
proof -
  let ?pt = "topo_proc_tracker t"
  note exe = table_ok_exe [OF assms]
  show "\<exists>cs. get_filtered_processes q ?pt = Inr cs"
    unfolding get_filtered_processes_def
  proof (rule fold_res_ok)
    fix p cs
    have "\<exists>x. IProcess_exe ?pt ip = Inr x" for ip using exe by (fastforce simp: IProcess_exe_def split: option.split)
    then obtain x where "IProcess_exe ?pt (pr_process (last p)) = Inr x" by blast
    then show "\<exists>s'. (if 1 < length p then
        let diff = get_cpu_usage_percentage ?pt (ip_pid (pr_process (hd p))) (pt_nb_cores ?pt); p_record = last p
        in bind_res (IProcess_exe ?pt (pr_process p_record)) (\<lambda>exe.
             let process_exe = (case exe of None \<Rightarrow> [] | Some x \<Rightarrow> x);
                 process_cmdline = (case IProcess_cmdline ?pt (pr_process p_record) of None \<Rightarrow> [] | Some c \<Rightarrow> c)
             in if q process_exe \<or> q (concat process_cmdline)
                then Inr (sort_by higher_first (cs @ [(pr_process p_record, diff)])) else Inr cs)
        else Inr cs) = Inr s'" by (auto simp: Let_def)
  qed
  show "\<exists>cs. get_top_consumers w ?pt n = Inr cs"
    unfolding get_top_consumers_def
  proof (rule fold_res_ok)
    fix x cs
    have "\<exists>ip. IProcess_new e p ts = Inr ip" if "hm_get (sys_processes (pt_sysinfo ?pt)) pid = Some p" for e p ts pid
      using exe [OF that] by (auto simp: IProcess_new_def split: prod.split)
    then have "\<exists>s'. (case hm_get (sys_processes (pt_sysinfo ?pt)) pid of
          Some sp \<Rightarrow> bind_res (IProcess_new e sp ts) (\<lambda>c. Inr (push_consumer n (c, d) cs)) | None \<Rightarrow> Inr cs) = Inr s'" for e ts pid d
      by (cases "hm_get (sys_processes (pt_sysinfo ?pt)) pid") (simp, metis bind_res_simps(2) option.simps(5))
    then show "\<exists>s'. consider_consumer w ?pt n x cs = Inr s'"
      unfolding consider_consumer_def Let_def by (cases x) simp
  qed
qed

section \<open>Turns of a reader\<close>

text \<open>The state a turn finds, with or without eBPF.\<close>

definition readable :: "settings \<Rightarrow> nat \<Rightarrow> Pid \<Rightarrow> duration \<Rightarrow> MetricGenerator \<Rightarrow> bool" where
  "readable st n me now g \<longleftrightarrow>
     (let t = mg_topology g
      in ready st n me now g \<and> timed n t \<and> named_disks t \<and> list_all idle_printed (topo_sockets t))"

text \<open>
  What a turn of it may observe on top of what every turn does: the per-CPU map has a value for each of
  the CPUs, process identifiers fit \<open>pid_t\<close>, and a refresh does not bring disks without a readable name.
\<close>

definition report_observes :: "nat \<Rightarrow> Pid \<Rightarrow> duration \<Rightarrow> duration \<Rightarrow> world \<Rightarrow> bool" where
  "report_observes n me now lt w \<longleftrightarrow> turn_observes n me now lt w \<and> times_observed n (sub_world 1 w) \<and>
     (\<forall>sys. \<forall>pid \<in> fst ` set (sys_processes (e_refresh_processes (w [1, 4, 0]) sys)). is_i32 pid) \<and>
     (\<forall>sys. disks_named sys \<longrightarrow> disks_named (e_refresh_processes (w [1, 4, 0]) sys) \<and> disks_named (e_refresh_system (w [1, 2]) sys))"

lemma idle_printed_refresh:
  assumes "Topology_refresh rsz mrsz ssz w t = Inr t'" "list_all idle_printed (topo_sockets t)"
  shows "list_all idle_printed (topo_sockets t')"
  unfolding list_all_iff
proof
  fix s'
  assume "s' \<in> set (topo_sockets t')"
  then obtain s e records k where s: "s \<in> set (topo_sockets t)"
    "sock_activation_idle_buffer s' = drop k (sock_activation_idle_buffer (CPUSocket_refresh_activation_idle_records e records s))"
    using refresh_idle(3) [OF assms(1)] by blast
  have r: "\<forall>x \<in> set (mv_values mv). \<exists>u. x = show_u64 u" if "read_activation_idle_record e s records = Some mv" for mv
    using that by (auto simp: read_activation_idle_record_def Let_def MultiValuedRecord_new_def split: if_splits option.splits)
  have "idle_printed s" using assms(2) s(1) by (simp add: list_all_iff)
  then have "\<forall>mv \<in> set (sock_activation_idle_buffer (CPUSocket_refresh_activation_idle_records e records s)).
      \<forall>x \<in> set (mv_values mv). \<exists>u. x = show_u64 u"
    using r by (auto simp: idle_printed_def CPUSocket_refresh_activation_idle_records_def split: option.split)
  then show "idle_printed s'" using s(2) set_drop_subset by (fastforce simp: idle_printed_def)
qed

lemma clean_terminated_readable:
  assumes "readable st n me now g"
  shows "readable st n me now (clean_terminated g)"
  using assms clean_terminated_ready [of st n me now g] clean_terminated_vectors [of _ "topo_proc_tracker (mg_topology g)"]
  by (fastforce simp: readable_def clean_terminated_def Let_def timed_def clean_terminated_frame)

lemma refresh_readable:
  assumes g0: "readable st n me now g" and w: "report_observes n me now lt w"
  shows "\<exists>g1. refresh_topology st (sub_world 1 w) g = Inr g1 \<and>
    readable st n me lt g1 \<and> table_ok (mg_topology g1)"
proof -
  have h: "ready st n me now g" "timed n (mg_topology g)" "named_disks (mg_topology g)" "list_all idle_printed (topo_sockets (mg_topology g))"
    using g0 by (simp_all add: readable_def Let_def)
  have tw: "turn_observes n me now lt w" "times_observed n (sub_world 1 w)" using w by (simp_all add: report_observes_def)
  obtain g1 where g: "refresh_topology st (sub_world 1 w) g = Inr g1" "ready st n me lt g1" using refresh_topology_ready [OF h(1) tw(1)] by blast
  obtain t where t: "Topology_refresh (st_rsz st) (st_mrsz st) (st_ssz st) (sub_world 1 w) (mg_topology g) = Inr t" "mg_topology g1 = t"
    using g(1) by (auto simp: refresh_topology_def map_res_def bind_res_eq_Inr)
  let ?sys = "e_refresh_system (w [1, 2]) (pt_sysinfo (topo_proc_tracker (mg_topology g)))"
  have sys: "pt_sysinfo (topo_proc_tracker t) = e_refresh_processes (w [1, 4, 0]) ?sys"
    using refresh_frame [OF t(1)] by (simp add: sub_world_def)
  have "timed n t" using refresh_topology_timed [OF g(1) h(2) tw(2)] t(2) by simp
  moreover have "list_all idle_printed (topo_sockets t)" by (rule idle_printed_refresh [OF t(1) h(4)])
  moreover have "named_disks t" unfolding sys using h(3) w unfolding report_observes_def by blast
  moreover have "table_ok t"
  proof -
    have "sp_exe p \<noteq> None" if "(pid, p) \<in> set (sys_processes (pt_sysinfo (topo_proc_tracker t)))" for pid p
    proof -
      have "p \<in> snd ` set (sys_processes (e_refresh_processes (w [1, 4, 0]) ?sys))" using that sys by force
      then show ?thesis using tw(1) unfolding turn_observes_def observes_def sub_world_def by blast
    qed
    moreover have "is_i32 pid" if "(pid, p) \<in> set (sys_processes (pt_sysinfo (topo_proc_tracker t)))" for pid p
      using that w sys by (force simp: report_observes_def)
    ultimately show ?thesis by (auto simp: table_ok_def)
  qed
  ultimately show ?thesis using g t(2) by (simp add: readable_def Let_def)
qed

lemma gen_and_pop_readable:
  assumes g: "readable st n me lt g" and w: "report_observes n me now lt w" and t: "table_ok (mg_topology g)"
  shows "\<exists>g1 ms. gen_all_metrics (st_version st) (st_regexes st) cs (sub_world 2 w) g = Inr g1 \<and>
    pop_metrics g1 = (ms, g1\<lparr>mg_data := []\<rparr>) \<and> readable st n me lt (g1\<lparr>mg_data := []\<rparr>) \<and>
    mg_topology g1 = mg_topology g \<and> ms \<noteq> [] \<and> list_all report_ok ms"
proof -
  have h: "ready st n me lt g" "timed n (mg_topology g)" "named_disks (mg_topology g)" "list_all idle_printed (topo_sockets (mg_topology g))"
    using g by (simp_all add: readable_def Let_def)
  have tw: "turn_observes n me now lt w" using w by (simp add: report_observes_def)
  have "core_times_ok (mg_topology g)" using timed_core_times [OF h(2)] h(1) by (auto simp: ready_def)
  then obtain g1 ms where g1: "gen_all_metrics (st_version st) (st_regexes st) cs (sub_world 2 w) g = Inr g1"
    "pop_metrics g1 = (ms, g1\<lparr>mg_data := []\<rparr>)" "ms \<noteq> []" "ready st n me lt (g1\<lparr>mg_data := []\<rparr>)" "mg_topology g1 = mg_topology g"
    using gen_and_pop_ready [OF h(1) tw, of "st_regexes st" cs] by blast
  have "mg_data g = []" using h(1) by (simp add: ready_def)
  then have "list_all report_ok (mg_data g1)" using gen_all_metrics_report_ok [OF g1(1) _ h(3,4) t] by simp
  moreover have "ms = rev (mg_data g1)" using g1(2) by (simp add: pop_metrics_def pop_loop_rev)
  ultimately have "list_all report_ok ms" by (simp add: list_all_iff)
  then show ?thesis using g1 h by (auto simp: readable_def Let_def)
qed

end
