(* ===== verification/Json.thy ===== *)
theory Json
  imports Metric_Reader "HOL-Library.Sublist"
begin

text \<open>
  \<open>exporters/json.rs\<close>: the report on the host, its sockets, cores and top consumers that the JSON exporter
  builds from the metrics of a turn. The serialization of a report is serde's and a parameter: a function
  that gives the text written, or none when writing fails.
\<close>

section \<open>The report\<close>

record json_Domain =
  jd_name :: string
  jd_consumption :: f32
  jd_timestamp :: f64
  jd_background :: "f32 option"

record json_Socket =
  js_id :: u16
  js_consumption :: f32
  js_domains :: "json_Domain list"
  js_timestamp :: f64
  js_activation :: "f32 option"
  js_background :: "f32 option"

record CoreTimes =
  jt_process_ns :: "u64 list"
  jt_total_ns :: "u64 list"
  jt_proportion :: "f64 list"

record ResourcesUsage =
  ru_cpu_usage :: string
  ru_cpu_usage_unit :: string
  ru_memory_usage :: string
  ru_memory_usage_unit :: string
  ru_memory_virtual_usage :: string
  ru_memory_virtual_usage_unit :: string
  ru_disk_usage_write :: string
  ru_disk_usage_write_unit :: string
  ru_disk_usage_read :: string
  ru_disk_usage_read_unit :: string

record json_Container =
  jn_name :: string
  jn_id :: string
  jn_runtime :: string
  jn_scheduler :: string

record Consumer =
  jc_exe :: string
  jc_cmdline :: string
  jc_pid :: int
  jc_resources_usage :: "ResourcesUsage option"
  jc_consumption :: f32
  jc_timestamp :: f64
  jc_container :: "json_Container option"
  jc_core_times :: "CoreTimes option"

record json_Disk =
  jk_disk_type :: string
  jk_disk_mount_point :: string
  jk_disk_is_removable :: bool
  jk_disk_file_system :: string
  jk_disk_total_bytes :: string
  jk_disk_available_bytes :: string
  jk_disk_name :: string

record Components =
  jm_disks :: "json_Disk list option"

record json_Host =
  jh_consumption :: f32
  jh_timestamp :: f64
  jh_components :: Components
  jh_activation :: "f32 option"
  jh_background :: "f32 option"

record json_Core =
  jo_id :: nat
  jo_consumption :: f64
  jo_timestamp :: f64
  jo_coefficient :: f64
  jo_proportion :: f64

record Report =
  rp_host :: json_Host
  rp_idle :: "f32 option"
  rp_activation :: "f32 option"
  rp_background :: "f32 option"
  rp_consumers :: "Consumer list"
  rp_sockets :: "json_Socket list"
  rp_cores :: "json_Core list"

record JsonExporter =
  je_metric_generator :: MetricGenerator
  je_time_step :: duration
  je_time_limit :: "duration option"
  je_max_top_consumers :: u16
  je_out_writer :: string
  je_process_regex :: "(string \<Rightarrow> bool) option"
  je_container_regex :: "(string \<Rightarrow> bool) option"
  je_monitor_resources :: bool
  je_watch_containers :: bool

text \<open>The arguments; the regular expressions are their tests.\<close>

record json_ExporterArgs =
  ja_timeout :: "int option"
  ja_step :: u64
  ja_step_nano :: u32
  ja_max_top_consumers :: u16
  ja_file :: "string option"
  ja_containers :: bool
  ja_process_regex :: "(string \<Rightarrow> bool) option"
  ja_container_regex :: "(string \<Rightarrow> bool) option"
  ja_resources :: bool

text \<open>
  \<open>Duration::new\<close> carries whole seconds out of the nanoseconds and panics when the seconds overflow;
  \<open>unsigned_abs\<close> drops the sign of the timeout.
\<close>

definition Duration_new :: "u64 \<Rightarrow> u32 \<Rightarrow> duration res" where
  "Duration_new secs ns =
     (let carry = unat ns div 1000000000
      in if unat secs + carry < 2 ^ 64
         then Inr (Duration (secs + of_nat carry) (of_nat (unat ns mod 1000000000)))
         else Inl (Expect_Failed ''overflow in Duration::new''))"

definition JsonExporter_new ::
  "container_services \<Rightarrow> Topology option \<Rightarrow> string \<Rightarrow> (string \<Rightarrow> bool) \<Rightarrow> json_ExporterArgs \<Rightarrow> JsonExporter res" where
  "JsonExporter_new cs topology hostname can_create args =
     (case topology of
        None \<Rightarrow> Inl (Expect_Failed ''sensor topology should be available'')
      | Some topo \<Rightarrow>
          bind_res (Duration_new (ja_step args) (ja_step_nano args)) (\<lambda>time_step.
          bind_res (case ja_file args of
                      Some f \<Rightarrow> if can_create f then Inr () else Inl (Explicit_Panic (''failed to open file '' @ f))
                    | None \<Rightarrow> Inr ()) (\<lambda>_.
            Inr \<lparr>je_metric_generator = MetricGenerator_new cs topo hostname False (ja_containers args),
                 je_time_step = time_step,
                 je_time_limit = map_option (\<lambda>t. Duration (word_of_int \<bar>t\<bar>) 0) (ja_timeout args),
                 je_max_top_consumers = ja_max_top_consumers args, je_out_writer = [],
                 je_process_regex = ja_process_regex args, je_container_regex = ja_container_regex args,
                 je_monitor_resources = ja_resources args, je_watch_containers = ja_containers args\<rparr>)))"

section \<open>Reading values\<close>

definition parse_bool :: "string \<Rightarrow> bool option" where
  "parse_bool s = (if s = ''true'' then Some True else if s = ''false'' then Some False else None)"

fun f64_as_f32 :: "f64 \<Rightarrow> f32" where
  "f64_as_f32 NaN = NaN"
| "f64_as_f32 (Inf s) = Inf s"
| "f64_as_f32 (Fin s x) = fl f32_format s x"

text \<open>\<open>metrics.iter().find(|x| x.name == name).and_then(|m| ...parse::<f32>().ok())\<close>\<close>

definition power_named :: "string \<Rightarrow> Metric list \<Rightarrow> f32 option" where
  "power_named name metrics =
     Option.bind (find (\<lambda>x. m_name x = name) metrics) (\<lambda>m. parse_f32 (value_text m))"

section \<open>Disks\<close>

definition attribute_or_empty :: "string \<Rightarrow> Metric \<Rightarrow> string" where
  "attribute_or_empty k m = (case hm_get (m_attributes m) k of Some v \<Rightarrow> v | None \<Rightarrow> [])"

definition edit_disk :: "Metric \<Rightarrow> string \<Rightarrow> json_Disk \<Rightarrow> json_Disk" where
  "edit_disk m name disk =
     (let disk = disk\<lparr>jk_disk_name := name\<rparr>
      in if m_name m = ''scaph_host_disk_available_bytes'' then disk\<lparr>jk_disk_available_bytes := value_text m\<rparr>
         else if m_name m = ''scaph_host_disk_total_bytes'' then disk\<lparr>jk_disk_total_bytes := value_text m\<rparr>
         else disk)"

definition new_disk :: "Metric \<Rightarrow> string \<Rightarrow> json_Disk res" where
  "new_disk m name =
     bind_res (case hm_get (m_attributes m) ''disk_is_removable'' of
                 Some v \<Rightarrow> parse_unwrap (parse_bool v)
               | None \<Rightarrow> Inr False) (\<lambda>removable.
       Inr \<lparr>jk_disk_type = attribute_or_empty ''disk_type'' m,
            jk_disk_mount_point = attribute_or_empty ''disk_mount_point'' m,
            jk_disk_is_removable = removable,
            jk_disk_file_system = attribute_or_empty ''disk_file_system'' m,
            jk_disk_total_bytes = (if m_name m = ''scaph_host_disk_total_bytes'' then value_text m else []),
            jk_disk_available_bytes = (if m_name m = ''scaph_host_disk_available_bytes'' then value_text m else []),
            jk_disk_name = name\<rparr>)"

definition add_disk :: "Metric \<Rightarrow> json_Disk list \<Rightarrow> json_Disk list res" where
  "add_disk m res =
     bind_res (attribute ''disk_name'' m) (\<lambda>name.
       case update_first (\<lambda>x. name = jk_disk_name x) (edit_disk m name) res of
         Some res \<Rightarrow> Inr res
       | None \<Rightarrow> map_res (\<lambda>disk. res @ [disk]) (new_disk m name))"

definition gen_disks_report :: "Metric list \<Rightarrow> json_Disk list res" where
  "gen_disks_report metrics = fold_res add_disk metrics []"

section \<open>The host\<close>

definition host_report :: "Metric list \<Rightarrow> json_Disk list \<Rightarrow> json_Host option res" where
  "host_report metrics disks =
     (case find (\<lambda>x. m_name x = ''scaph_host_power_microwatts'') metrics of
        Some host_metric \<Rightarrow>
          map_res (\<lambda>host_power.
              if flt f_zero host_power
              then Some \<lparr>jh_consumption = host_power, jh_timestamp = as_secs_f64 (m_timestamp host_metric),
                         jh_components = \<lparr>jm_disks = Some disks\<rparr>,
                         jh_activation = power_named ''scaph_host_activation_power_microwatts'' metrics,
                         jh_background = power_named ''scaph_host_background_power_microwatts'' metrics\<rparr>
              else None)
            (parse_unwrap (parse_f32 (value_text host_metric)))
      | None \<Rightarrow> Inr None)"

section \<open>Consumers\<close>

definition consumers_of :: "settings \<Rightarrow> world \<Rightarrow> JsonExporter \<Rightarrow> MetricGenerator \<Rightarrow> (IProcess \<times> f64) list res" where
  "consumers_of st w je g =
     (let pt = topo_proc_tracker (mg_topology g)
      in case je_process_regex je of
           Some regex_filter \<Rightarrow> get_filtered_processes regex_filter pt
         | None \<Rightarrow>
             (case je_container_regex je of
                Some regex_filter \<Rightarrow> get_processes_filtered_by_container_name (st_regexes st) regex_filter w g
              | None \<Rightarrow> get_top_consumers w pt (je_max_top_consumers je)))"

definition metric_of_pid :: "string \<Rightarrow> string \<Rightarrow> Metric list \<Rightarrow> Metric option" where
  "metric_of_pid name pid metrics = find (\<lambda>x. m_name x = name \<and> hm_get (m_attributes x) ''pid'' = Some pid) metrics"

definition parse_csv :: "(string \<Rightarrow> 'a option) \<Rightarrow> Metric \<Rightarrow> 'a list" where
  "parse_csv parse m = List.map_filter parse (split_char CHR '','' (value_text m))"

definition core_times_report :: "Metric list \<Rightarrow> string \<Rightarrow> CoreTimes option" where
  "core_times_report metrics pid =
     (case (metric_of_pid ''scaph_process_core_time_ns'' pid metrics,
            metric_of_pid ''scaph_process_core_total_time_ns'' pid metrics,
            metric_of_pid ''scaph_process_core_proportion'' pid metrics) of
        (Some pn, Some tn, Some pr) \<Rightarrow>
          Some \<lparr>jt_process_ns = parse_csv parse_u64 pn, jt_total_ns = parse_csv parse_u64 tn,
                jt_proportion = parse_csv parse_f64 pr\<rparr>
      | _ \<Rightarrow> None)"

definition container_report :: "bool \<Rightarrow> Metric \<Rightarrow> json_Container option" where
  "container_report watch_containers metric =
     (let or_unknown = (\<lambda>k. case hm_get (m_attributes metric) k of Some v \<Rightarrow> v | None \<Rightarrow> ''unknown'')
      in if watch_containers
         then map_option (\<lambda>container_id.
                \<lparr>jn_name = or_unknown ''container_names'', jn_id = container_id,
                 jn_runtime = or_unknown ''container_runtime'', jn_scheduler = or_unknown ''container_scheduler''\<rparr>)
              (hm_get (m_attributes metric) ''container_id'')
         else None)"

definition consumer_report :: "bool \<Rightarrow> Metric list \<Rightarrow> IProcess \<times> f64 \<Rightarrow> Consumer option res" where
  "consumer_report watch_containers metrics c =
     (let pid = show_int (ip_pid (fst c))
      in bind_res (find_res (power_of_pid pid) metrics) (\<lambda>found.
         case found of
           None \<Rightarrow> Inr None
         | Some metric \<Rightarrow>
             bind_res (attribute ''exe'' metric) (\<lambda>exe.
             bind_res (attribute ''cmdline'' metric) (\<lambda>cmdline.
             bind_res (parse_unwrap (parse_i32 pid)) (\<lambda>pid_i32.
             bind_res (parse_unwrap (parse_f32 (value_text metric))) (\<lambda>consumption.
               Inr (Some \<lparr>jc_exe = exe, jc_cmdline = cmdline, jc_pid = pid_i32, jc_resources_usage = None,
                          jc_consumption = consumption, jc_timestamp = as_secs_f64 (m_timestamp metric),
                          jc_container = container_report watch_containers metric,
                          jc_core_times = core_times_report metrics pid\<rparr>)))))))"

text \<open>
  The resources of a consumer: the five searches share one iterator, so that each of them starts after
  the match of the one before, and after a search that found nothing the iterator is at its end.
\<close>

definition next_of_process :: "string \<Rightarrow> string \<Rightarrow> Metric list \<Rightarrow> (Metric option \<times> Metric list) res" where
  "next_of_process pid name =
     next_match (\<lambda>x. if starts_with (m_name x) ''scaph_process_''
                     then map_res (\<lambda>p. p = pid \<and> m_name x = name) (attribute ''pid'' x) else Inr False)"

definition usage_text :: "Metric option \<Rightarrow> string" where
  "usage_text m = (case m of Some m \<Rightarrow> value_text m | None \<Rightarrow> ''0'')"

definition resources_report :: "Metric list \<Rightarrow> string \<Rightarrow> ResourcesUsage res" where
  "resources_report metrics pid =
     bind_res (next_of_process pid ''scaph_process_cpu_usage_percentage'' metrics) (\<lambda>(cpu_usage, metrics).
     bind_res (next_of_process pid ''scaph_process_memory_bytes'' metrics) (\<lambda>(mem_usage, metrics).
     bind_res (next_of_process pid ''scaph_process_memory_virtual_bytes'' metrics) (\<lambda>(mem_virtual_usage, metrics).
     bind_res (next_of_process pid ''scaph_process_disk_write_bytes'' metrics) (\<lambda>(disk_write, metrics).
     bind_res (next_of_process pid ''scaph_process_disk_read_bytes'' metrics) (\<lambda>(disk_read, _).
       Inr \<lparr>ru_cpu_usage = usage_text cpu_usage, ru_cpu_usage_unit = ''%'',
            ru_memory_usage = usage_text mem_usage, ru_memory_usage_unit = ''Bytes'',
            ru_memory_virtual_usage = usage_text mem_virtual_usage, ru_memory_virtual_usage_unit = ''Bytes'',
            ru_disk_usage_write = usage_text disk_write, ru_disk_usage_write_unit = ''Bytes'',
            ru_disk_usage_read = usage_text disk_read, ru_disk_usage_read_unit = ''Bytes''\<rparr>)))))"

definition add_resources :: "bool \<Rightarrow> Metric list \<Rightarrow> Consumer list \<Rightarrow> Consumer list res" where
  "add_resources monitor_resources metrics top_consumers =
     (if monitor_resources
      then traverse_res (\<lambda>c. map_res (\<lambda>r. c\<lparr>jc_resources_usage := Some r\<rparr>)
             (resources_report metrics (show_int (jc_pid c)))) top_consumers
      else Inr top_consumers)"

section \<open>Sockets and cores\<close>

definition domain_report :: "CPUSocket \<Rightarrow> Metric \<Rightarrow> json_Domain option res" where
  "domain_report s x =
     bind_res (of_socket ''scaph_domain_power_microwatts'' (sock_id s) x) (\<lambda>b.
       if b then
         bind_res (attribute ''domain_name'' x) (\<lambda>domain_name.
         bind_res (parse_unwrap (parse_f32 (value_text x))) (\<lambda>consumption.
           Inr (Some \<lparr>jd_name = domain_name, jd_consumption = consumption, jd_timestamp = as_secs_f64 (m_timestamp x),
                      jd_background = map_option (\<lambda>rd. f64_as_f32 (dom_background_power_uw rd))
                        (find (\<lambda>rd. dom_name rd = domain_name) (sock_domains s))\<rparr>)))
       else Inr None)"

definition idle_domain :: "Metric list \<Rightarrow> u16 \<Rightarrow> json_Domain list res" where
  "idle_domain metrics sid =
     bind_res (find_res (of_socket ''scaph_socket_idle_power_microwatts'' sid) metrics) (\<lambda>found.
       case found of
         Some idle_metric \<Rightarrow>
           map_res (\<lambda>consumption. [\<lparr>jd_name = ''idle'', jd_consumption = consumption,
                      jd_timestamp = as_secs_f64 (m_timestamp idle_metric), jd_background = None\<rparr>])
             (parse_unwrap (parse_f32 (value_text idle_metric)))
       | None \<Rightarrow> Inr [])"

definition socket_power_named :: "string \<Rightarrow> u16 \<Rightarrow> Metric list \<Rightarrow> f32 option res" where
  "socket_power_named name sid metrics =
     map_res (\<lambda>found. Option.bind found (\<lambda>m. parse_f32 (value_text m))) (find_res (of_socket name sid) metrics)"

definition socket_report :: "Metric list \<Rightarrow> Metric option \<Rightarrow> CPUSocket \<Rightarrow> json_Socket option res" where
  "socket_report metrics socket_metrics_res s =
     (case socket_metrics_res of
        None \<Rightarrow> Inr None
      | Some x \<Rightarrow>
          bind_res (attribute ''socket_id'' x) (\<lambda>i.
          bind_res (parse_unwrap (parse_u16 i)) (\<lambda>i.
            if sock_id s = i then
              bind_res (parse_unwrap (parse_f32 (value_text x))) (\<lambda>socket_power.
              bind_res (filter_map_res (domain_report s) metrics) (\<lambda>domains.
              bind_res (idle_domain metrics (sock_id s)) (\<lambda>idle.
              bind_res (socket_power_named ''scaph_socket_activation_power_microwatts'' (sock_id s) metrics) (\<lambda>activation.
              bind_res (socket_power_named ''scaph_socket_background_power_microwatts'' (sock_id s) metrics) (\<lambda>background.
                Inr (Some \<lparr>js_id = sock_id s, js_consumption = socket_power, js_domains = domains @ idle,
                           js_timestamp = as_secs_f64 (m_timestamp x), js_activation = activation,
                           js_background = background\<rparr>))))))
            else Inr None)))"

definition f64_at :: "f64 list \<Rightarrow> nat \<Rightarrow> f64" where
  "f64_at xs i = (case get_vec xs i of Some x \<Rightarrow> x | None \<Rightarrow> f_zero)"

definition cores_report :: "world \<Rightarrow> Topology \<Rightarrow> json_Core list" where
  "cores_report w t =
     (case Topology_get_proportional_core_diff_power_microwatts w t of
        None \<Rightarrow> []
      | Some r \<Rightarrow>
          List.map_filter (\<lambda>(i, v). map_option (\<lambda>consumption.
              \<lparr>jo_id = i, jo_consumption = consumption, jo_timestamp = as_secs_f64 (mv_timestamp r),
               jo_coefficient = f64_at (Topology_get_core_coefs t) i,
               jo_proportion = f64_at (Topology_get_core_proportions t) i\<rparr>) (parse_f64 v))
            (enumerate 0 (mv_values r)))"

section \<open>A turn\<close>

text \<open>
  The report built from the metrics drained; none when there is no positive power of the host. The first
  search for a socket advances the iterator that the disks are then taken from.
\<close>

definition build_report :: "settings \<Rightarrow> world \<Rightarrow> JsonExporter \<Rightarrow> MetricGenerator \<Rightarrow> Metric list \<Rightarrow> Report option res" where
  "build_report st w je g metrics =
     bind_res (next_match (\<lambda>x. Inr (m_name x = ''scaph_socket_power_microwatts'')) metrics) (\<lambda>(socket_metrics_res, metrics_iter).
     bind_res (gen_disks_report (filter (\<lambda>x. starts_with (m_name x) ''scaph_host_disk_'') metrics_iter)) (\<lambda>disks.
     bind_res (host_report metrics disks) (\<lambda>host.
     bind_res (consumers_of st (sub_world 0 w) je g) (\<lambda>consumers.
     bind_res (filter_map_res (consumer_report (je_watch_containers je) metrics) consumers) (\<lambda>top_consumers.
     bind_res (add_resources (je_monitor_resources je) metrics top_consumers) (\<lambda>top_consumers.
     bind_res (filter_map_res (socket_report metrics socket_metrics_res) (topo_sockets (mg_topology g))) (\<lambda>all_sockets.
       Inr (map_option (\<lambda>host.
              \<lparr>rp_host = host,
               rp_idle = power_named ''scaph_host_idle_power_microwatts'' metrics,
               rp_activation = power_named ''scaph_host_activation_power_microwatts'' metrics,
               rp_background = power_named ''scaph_host_background_power_microwatts'' metrics,
               rp_consumers = top_consumers, rp_sockets = all_sockets,
               rp_cores = cores_report (sub_world 1 w) (mg_topology g)\<rparr>) host))))))))"

definition retrieve_metrics ::
  "settings \<Rightarrow> (Report \<Rightarrow> string option) \<Rightarrow> (nat \<Rightarrow> container_services) \<Rightarrow> world \<Rightarrow> JsonExporter \<Rightarrow> JsonExporter res" where
  "retrieve_metrics st to_writer cs w je =
     bind_res (gen_all_metrics (st_version st) (st_regexes st) cs (sub_world 2 w) (je_metric_generator je)) (\<lambda>g.
       let (metrics, g) = pop_metrics g; je = je\<lparr>je_metric_generator := g\<rparr>
       in bind_res (build_report st (sub_world 3 w) je g metrics) (\<lambda>report.
            case report of
              None \<Rightarrow> Inr je
            | Some report \<Rightarrow>
                (case to_writer report of
                   Some text \<Rightarrow> Inr (je\<lparr>je_out_writer := je_out_writer je @ text\<rparr>)
                 | None \<Rightarrow> Inl (Expect_Failed ''report should be serializable to JSON''))))"

definition JsonExporter_iterate ::
  "settings \<Rightarrow> (Report \<Rightarrow> string option) \<Rightarrow> world \<times> (nat \<Rightarrow> container_services) \<Rightarrow> JsonExporter \<Rightarrow> JsonExporter res" where
  "JsonExporter_iterate st to_writer obs je =
     bind_res (refresh_topology st (sub_world 1 (fst obs)) (je_metric_generator je)) (\<lambda>g.
       retrieve_metrics st to_writer (snd obs) (fst obs) (je\<lparr>je_metric_generator := g\<rparr>))"

definition JsonExporter_run ::
  "settings \<Rightarrow> (Report \<Rightarrow> string option) \<Rightarrow> (duration \<times> world \<times> (nat \<Rightarrow> container_services)) list \<Rightarrow>
   JsonExporter \<Rightarrow> (JsonExporter \<times> bool) res" where
  "JsonExporter_run st to_writer obs je = run_until (JsonExporter_iterate st to_writer) (je_time_limit je) obs je"

section \<open>Building the report never panics\<close>

lemma parse_bool_show [simp]: "parse_bool (show_bool b) = Some b"
  by (simp add: parse_bool_def show_bool_def)

lemma disks_total:
  assumes "list_all report_ok ms"
  shows "\<exists>disks. gen_disks_report (filter (\<lambda>x. starts_with (m_name x) ''scaph_host_disk_'') ms) = Inr disks"
  unfolding gen_disks_report_def
proof (rule fold_res_ok)
  fix m res
  assume "m \<in> set (filter (\<lambda>x. starts_with (m_name x) ''scaph_host_disk_'') ms)"
  then have "disk_label m" using assms by (auto simp: list_all_iff report_ok_def)
  then show "\<exists>res'. add_disk m res = Inr res'"
    by (auto simp: add_disk_def disk_label_def attribute_def new_disk_def parse_unwrap_def split: option.split)
qed

lemma host_total:
  assumes "list_all report_ok ms"
  shows "\<exists>h. host_report ms disks = Inr h"
proof (cases "find (\<lambda>x. m_name x = ''scaph_host_power_microwatts'') ms")
  case (Some m)
  then have "reads_f32 m" using assms by (auto simp: find_Some_iff list_all_iff report_ok_def parsed_figures_def)
  then show ?thesis using Some reads_f32_unwrap by (fastforce simp: host_report_def)
qed (simp add: host_report_def)

lemma socket_total:
  assumes ms: "list_all report_ok ms" and x: "case x of None \<Rightarrow> True | Some m \<Rightarrow> m \<in> set ms \<and> m_name m = ''scaph_socket_power_microwatts''"
  shows "\<exists>r. socket_report ms x s = Inr r"
proof (cases x)
  case (Some m)
  have m: "socket_label m" "reads_f32 m" using ms x Some by (auto simp: list_all_iff report_ok_def name_eval)
  have good: "\<And>y. y \<in> set ms \<Longrightarrow> report_ok y" using ms by (simp add: list_all_iff)
  have f: "\<exists>r. find_res (of_socket name (sock_id s)) ms = Inr r \<and> (case r of None \<Rightarrow> True | Some y \<Rightarrow> y \<in> set ms \<and> m_name y = name)"
    if "name \<in> socket_figures" for name
  proof -
    let ?q = "\<lambda>y. m_name y = name \<and> hm_get (m_attributes y) ''socket_id'' = Some (show_u16 (sock_id s))"
    have "find_res (of_socket name (sock_id s)) ms = Inr (find ?q ms)" by (rule find_res_total) (rule of_socket_total [OF good that])
    then show ?thesis by (cases "find ?q ms") (auto simp: find_Some_iff)
  qed
  have d: "\<exists>r. domain_report s y = Inr r" if "y \<in> set ms" for y
  proof -
    let ?b = "m_name y = ''scaph_domain_power_microwatts'' \<and> hm_get (m_attributes y) ''socket_id'' = Some (show_u16 (sock_id s))"
    have b: "of_socket ''scaph_domain_power_microwatts'' (sock_id s) y = Inr ?b"
      by (rule of_socket_total [OF good [OF that]]) (simp add: socket_figures_def)
    have "hm_contains_key (m_attributes y) ''domain_name''" "\<exists>v. parse_unwrap (parse_f32 (value_text y)) = Inr v" if ?b
      using that good [OF \<open>y \<in> set ms\<close>] reads_f32_unwrap [of y] by (auto simp: report_ok_def parsed_figures_def)
    then show ?thesis unfolding domain_report_def b bind_res_simps by (cases ?b) (auto simp: attribute_def)
  qed
  obtain ds where ds: "filter_map_res (domain_report s) ms = Inr ds" using filter_map_res_ok d by blast
  have i: "\<exists>l. idle_domain ms (sock_id s) = Inr l"
  proof -
    obtain r where r: "find_res (of_socket ''scaph_socket_idle_power_microwatts'' (sock_id s)) ms = Inr r"
      "case r of None \<Rightarrow> True | Some y \<Rightarrow> y \<in> set ms \<and> m_name y = ''scaph_socket_idle_power_microwatts''"
      using f [of "''scaph_socket_idle_power_microwatts''"] by (auto simp: socket_figures_def)
    have "\<exists>v. parse_unwrap (parse_f32 (value_text y)) = Inr v" if "r = Some y" for y
      by (rule reads_f32_unwrap) (use that r(2) good [of y] in \<open>auto simp: report_ok_def parsed_figures_def\<close>)
    then show ?thesis unfolding idle_domain_def r(1) bind_res_simps by (cases r) auto
  qed
  have p: "\<exists>v. socket_power_named name (sock_id s) ms = Inr v" if "name \<in> socket_figures" for name
    using f [OF that] by (auto simp: socket_power_named_def)
  obtain v where v: "parse_unwrap (parse_f32 (value_text m)) = Inr v" using reads_f32_unwrap [OF m(2)] by blast
  obtain l a b where lab: "idle_domain ms (sock_id s) = Inr l"
    "socket_power_named ''scaph_socket_activation_power_microwatts'' (sock_id s) ms = Inr a"
    "socket_power_named ''scaph_socket_background_power_microwatts'' (sock_id s) ms = Inr b"
    using i p [of "''scaph_socket_activation_power_microwatts''"] p [of "''scaph_socket_background_power_microwatts''"]
    by (auto simp: socket_figures_def)
  obtain j where "hm_get (m_attributes m) ''socket_id'' = Some (show_u16 j)" using m(1) by (auto simp: socket_label_def)
  then show ?thesis using Some v ds lab
    by (cases "sock_id s = j") (auto simp: socket_report_def attribute_def parse_unwrap_def [of "Some j"])
qed (simp add: socket_report_def)

lemma consumers_total:
  assumes "tracker_inv (topo_proc_tracker (mg_topology g))" "table_ok (mg_topology g)"
  shows "\<exists>cs. consumers_of st w je g = Inr cs"
proof -
  let ?pt = "topo_proc_tracker (mg_topology g)"
  have c: "\<exists>cs. get_processes_filtered_by_container_name re q w' g = Inr cs" for re q w'
    unfolding get_processes_filtered_by_container_name_def Let_def
  proof (rule fold_res_ok)
    fix x cs
    assume x: "x \<in> set (enumerate 0 (pt_procs ?pt))"
    obtain i p where ip: "x = (i, p)" by (cases x)
    have p: "p \<in> set (pt_procs ?pt)" using snd_enumerate [OF x] ip by simp
    have "filter (has_pid (ip_pid (pr_process (last p)))) (pt_procs ?pt) \<noteq> []" if "1 < length p"
    proof -
      have "last p \<in> set p" using that by (intro last_in_set) auto
      then have "has_pid (ip_pid (pr_process (last p))) p"
        using assms(1) p that by (auto simp: tracker_inv_def history_ok_def has_pid_iff)
      then show ?thesis using p by (auto simp: filter_empty_conv)
    qed
    then show "\<exists>s'. (case x of (i, p) \<Rightarrow> \<lambda>consumers.
           if 1 < length p then
             bind_res (get_process_container_description re (w' [i]) ?pt (ip_pid (pr_process (last p)))
                  (mg_containers g) (mg_docker_version g) (mg_pods g)) (\<lambda>description.
                    Inr (case hm_get description ''container_names'' of
                           None \<Rightarrow> consumers
                         | Some name \<Rightarrow>
                             if q name then sort_by higher_first (consumers @ [(pr_process (last p),
                               get_cpu_usage_percentage ?pt (ip_pid (pr_process (hd p))) (pt_nb_cores ?pt))])
                             else consumers))
           else Inr consumers) cs = Inr s'"
      by (simp add: ip get_process_container_description_def)
  qed
  show ?thesis using selected_total [OF assms(2)] c by (simp add: consumers_of_def Let_def split: option.split)
qed

lemma consumer_total:
  assumes "list_all report_ok ms"
  shows "\<exists>r. consumer_report watch ms c = Inr r \<and> (case r of None \<Rightarrow> True | Some k \<Rightarrow> jc_pid k = ip_pid (fst c))"
proof -
  let ?pid = "show_int (ip_pid (fst c))"
  note f = power_metric_ok [OF assms, of ?pid]
  show ?thesis
  proof (cases "power_metric ?pid ms")
    case None
    then show ?thesis using f(1) by (simp add: consumer_report_def)
  next
    case (Some m)
    note lab = f(2) [OF Some]
    obtain v where v: "parse_unwrap (parse_f32 (value_text m)) = Inr v" using lab reads_f32_unwrap by blast
    obtain p where p: "show_int p = ?pid" "is_i32 p" using lab by (auto simp: process_label_def)
    have "parse_i32 ?pid = Some p" using parse_i32_show_int [OF p(2)] p(1) by simp
    moreover have "p = ip_pid (fst c)" using p(1) by (simp add: show_int_inj)
    ultimately show ?thesis using f(1) Some lab v
      by (auto simp: consumer_report_def process_label_def attribute_def parse_unwrap_def)
  qed
qed

definition of_process :: "string \<Rightarrow> string \<Rightarrow> Metric \<Rightarrow> bool" where
  "of_process pid name x \<longleftrightarrow> starts_with (m_name x) ''scaph_process_'' \<and> hm_get (m_attributes x) ''pid'' = Some pid \<and> m_name x = name"

lemma next_of_process_total:
  assumes "list_all report_ok ms"
  shows "next_of_process pid name ms = Inr (find (of_process pid name) ms, tl (dropWhile (\<lambda>x. \<not> of_process pid name x) ms))"
  unfolding next_of_process_def
proof (rule next_match_total)
  fix x
  assume "x \<in> set ms"
  then show "(if starts_with (m_name x) ''scaph_process_'' then map_res (\<lambda>p. p = pid \<and> m_name x = name) (attribute ''pid'' x)
      else Inr False) = Inr (of_process pid name x)"
    using assms by (fastforce simp: list_all_iff report_ok_def process_label_def attribute_def of_process_def)
qed

lemma rest_report_ok: "list_all P ms \<Longrightarrow> list_all P (tl (dropWhile q ms))"
proof (cases "dropWhile q ms")
  case (Cons a x)
  moreover have "set (dropWhile q ms) \<subseteq> set ms" using set_dropWhileD by fast
  ultimately show "list_all P ms \<Longrightarrow> list_all P (tl (dropWhile q ms))" by (auto simp: list_all_iff)
next
  case Nil
  then show "list_all P (tl (dropWhile q ms))" unfolding Nil by simp
qed

lemma resources_total:
  assumes "list_all report_ok ms"
  shows "\<exists>r. resources_report ms pid = Inr r"
  using assms by (simp add: resources_report_def next_of_process_total rest_report_ok)

lemma build_report_total:
  assumes ms: "list_all report_ok ms" and g: "tracker_inv (topo_proc_tracker (mg_topology g))" "table_ok (mg_topology g)"
  shows "\<exists>r. build_report st w je g ms = Inr r"
proof -
  let ?q = "\<lambda>x. m_name x = ''scaph_socket_power_microwatts''"
  have n: "next_match (\<lambda>x. Inr (?q x)) ms = Inr (find ?q ms, tl (dropWhile (\<lambda>x. \<not> ?q x) ms))" by (rule next_match_total) simp
  obtain ds where ds: "gen_disks_report (filter (\<lambda>x. starts_with (m_name x) ''scaph_host_disk_'') (tl (dropWhile (\<lambda>x. \<not> ?q x) ms))) = Inr ds"
    using disks_total [OF rest_report_ok [OF ms]] by blast
  obtain h where h: "host_report ms ds = Inr h" using host_total [OF ms] by blast
  obtain cs where cs: "consumers_of st (sub_world 0 w) je g = Inr cs" using consumers_total [OF g] by blast
  obtain ks where ks: "filter_map_res (consumer_report (je_watch_containers je) ms) cs = Inr ks"
    using filter_map_res_ok [of cs "consumer_report (je_watch_containers je) ms"] consumer_total [OF ms] by blast
  have "\<exists>rs. add_resources (je_monitor_resources je) ms ks = Inr rs"
    unfolding add_resources_def by (auto intro!: traverse_res_ok) (metis resources_total [OF ms] map_res_simps(2))
  then obtain rs where rs: "add_resources (je_monitor_resources je) ms ks = Inr rs" ..
  have "case find ?q ms of None \<Rightarrow> True | Some m \<Rightarrow> m \<in> set ms \<and> ?q m" by (auto simp: find_Some_iff split: option.split)
  then obtain ss where ss: "filter_map_res (socket_report ms (find ?q ms)) (topo_sockets (mg_topology g)) = Inr ss"
    using filter_map_res_ok [of _ "socket_report ms (find ?q ms)"] socket_total [OF ms] by blast
  show ?thesis unfolding build_report_def n bind_res_simps prod.case ds h cs ks rs ss by blast
qed

section \<open>The exporter goes on\<close>

definition reporting :: "settings \<Rightarrow> nat \<Rightarrow> Pid \<Rightarrow> duration \<Rightarrow> JsonExporter \<Rightarrow> bool" where
  "reporting st n me now je \<longleftrightarrow> readable st n me now (je_metric_generator je)"

definition writes :: "(Report \<Rightarrow> string option) \<Rightarrow> bool" where
  "writes to_writer \<longleftrightarrow> (\<forall>r. to_writer r \<noteq> None)"

lemma retrieve_reporting:
  assumes je: "reporting st n me lt je" and w: "report_observes n me now lt w"
    and t: "table_ok (mg_topology (je_metric_generator je))" and wr: "writes to_writer"
  shows "\<exists>je'. retrieve_metrics st to_writer cs w je = Inr je' \<and> reporting st n me lt je' \<and>
    je_time_limit je' = je_time_limit je"
proof -
  let ?g = "je_metric_generator je"
  obtain g ms where g: "gen_all_metrics (st_version st) (st_regexes st) cs (sub_world 2 w) ?g = Inr g"
    "pop_metrics g = (ms, g\<lparr>mg_data := []\<rparr>)" "readable st n me lt (g\<lparr>mg_data := []\<rparr>)" "mg_topology g = mg_topology ?g"
    "list_all report_ok ms"
    using gen_and_pop_readable [OF _ w t, of st cs] je by (auto simp: reporting_def)
  have "tracker_inv (topo_proc_tracker (mg_topology g))" using g(3) by (simp add: readable_def Let_def ready_def topology_wf_def)
  then have "\<exists>r. build_report st (sub_world 3 w) (je\<lparr>je_metric_generator := g\<lparr>mg_data := []\<rparr>\<rparr>) (g\<lparr>mg_data := []\<rparr>) ms = Inr r"
    using t g(4) by (intro build_report_total [OF g(5)]) simp_all
  then obtain r where r: "build_report st (sub_world 3 w) (je\<lparr>je_metric_generator := g\<lparr>mg_data := []\<rparr>\<rparr>) (g\<lparr>mg_data := []\<rparr>) ms = Inr r" ..
  show ?thesis using wr g(3) unfolding retrieve_metrics_def g(1) bind_res_simps g(2) Let_def prod.case r
    by (cases r) (auto simp: writes_def reporting_def split: option.split)
qed

interpretation json: steady
  "\<lambda>now je. reporting st n me now je \<and> writes to_writer"
  "\<lambda>now lt obs. report_observes n me now lt (fst obs)" "JsonExporter_iterate st to_writer" for st n me to_writer
proof
  fix now lt :: duration and je :: JsonExporter and obs :: "world \<times> (nat \<Rightarrow> container_services)"
  assume je: "reporting st n me now je \<and> writes to_writer" and w: "report_observes n me now lt (fst obs)"
  then obtain g where g: "refresh_topology st (sub_world 1 (fst obs)) (je_metric_generator je) = Inr g"
    "reporting st n me lt (je\<lparr>je_metric_generator := g\<rparr>)" "table_ok (mg_topology g)" using refresh_readable unfolding reporting_def by fastforce
  then show "\<exists>je'. JsonExporter_iterate st to_writer obs je = Inr je' \<and> reporting st n me lt je' \<and> writes to_writer"
    using retrieve_reporting [OF g(2) w, of to_writer "snd obs"] je by (auto simp: JsonExporter_iterate_def)
qed

section \<open>What a report holds\<close>
section \<open>What a report holds\<close>

lemma consumer_reported:
  assumes "consumer_report watch ms c = Inr r"
  shows "map_option (\<lambda>k. (jc_pid k, Some (jc_exe k), Some (jc_cmdline k), Some (jc_consumption k))) r =
    map_option (\<lambda>m. (ip_pid (fst c), hm_get (m_attributes m) ''exe'', hm_get (m_attributes m) ''cmdline'', parse_f32 (value_text m)))
      (power_metric (show_int (ip_pid (fst c))) ms)"
proof -
  let ?pid = "show_int (ip_pid (fst c))"
  obtain found where f: "find_res (power_of_pid ?pid) ms = Inr found"
    using assms by (auto simp: consumer_report_def bind_res_eq_Inr Let_def)
  note found = find_power_Inr [OF f]
  show ?thesis
  proof (cases found)
    case None
    then show ?thesis using assms f found by (simp add: consumer_report_def)
  next
    case (Some m)
    have "j = ip_pid (fst c)" if "parse_i32 ?pid = Some j" for j using that parse_sint_exact by (simp add: parse_i32_def)
    then show ?thesis using assms f found Some
      by (auto simp: consumer_report_def bind_res_eq_Inr Let_def attribute_def parse_unwrap_def unwrap_opt_def split: option.splits)
  qed
qed


text \<open>
  C36. The consumers of a report are the processes selected (by the filters, or the top consumers), in
  their order, that have a power metric; each comes with its identifier and the executable, command
  line and consumption of that metric, read back as an \<open>f32\<close>. Without filters there are at most as many
  as asked for.
\<close>

theorem json_report_consumers:
  assumes "build_report st w je g ms = Inr (Some r)"
  shows "\<exists>cs. consumers_of st (sub_world 0 w) je g = Inr cs \<and>
    map (\<lambda>k. (jc_pid k, Some (jc_exe k), Some (jc_cmdline k), Some (jc_consumption k))) (rp_consumers r) =
      List.map_filter (\<lambda>c. map_option (\<lambda>m. (ip_pid (fst c), hm_get (m_attributes m) ''exe'', hm_get (m_attributes m) ''cmdline'',
        parse_f32 (value_text m))) (power_metric (show_int (ip_pid (fst c))) ms)) cs \<and>
    (je_process_regex je = None \<and> je_container_regex je = None \<longrightarrow> length (rp_consumers r) \<le> unat (je_max_top_consumers je))"
proof -
  let ?f = "\<lambda>k :: Consumer. (jc_pid k, Some (jc_exe k), Some (jc_cmdline k), Some (jc_consumption k))"
  obtain cs ks where cs: "consumers_of st (sub_world 0 w) je g = Inr cs"
    and ks: "filter_map_res (consumer_report (je_watch_containers je) ms) cs = Inr ks"
    and rs: "add_resources (je_monitor_resources je) ms ks = Inr (rp_consumers r)"
    using assms by (auto simp: build_report_def bind_res_eq_Inr split: prod.splits)
  have "map ?f (rp_consumers r) = map ?f ks"
  proof (cases "je_monitor_resources je")
    case True
    then show ?thesis using rs unfolding add_resources_def
      by (intro traverse_res_map) (auto simp: map_res_def bind_res_eq_Inr)
  qed (use rs in \<open>simp add: add_resources_def\<close>)
  also have "\<dots> = List.map_filter (\<lambda>c. map_option ?f (projr (consumer_report (je_watch_containers je) ms c))) cs"
    using filter_map_res_Inr [OF ks] by (simp add: map_map_filter)
  also have "\<dots> = List.map_filter (\<lambda>c. map_option (\<lambda>m. (ip_pid (fst c), hm_get (m_attributes m) ''exe'', hm_get (m_attributes m) ''cmdline'',
        parse_f32 (value_text m))) (power_metric (show_int (ip_pid (fst c))) ms)) cs"
  proof (rule map_filter_cong)
    fix c
    assume "c \<in> set cs"
    then obtain y where "consumer_report (je_watch_containers je) ms c = Inr y" using filter_map_res_Inr [OF ks] by blast
    with consumer_reported [OF this] show "map_option ?f (projr (consumer_report (je_watch_containers je) ms c)) =
      map_option (\<lambda>m. (ip_pid (fst c), hm_get (m_attributes m) ''exe'', hm_get (m_attributes m) ''cmdline'',
        parse_f32 (value_text m))) (power_metric (show_int (ip_pid (fst c))) ms)" by simp
  qed
  finally have m: "map ?f (rp_consumers r) = \<dots>" .
  have "length cs \<le> unat (je_max_top_consumers je)" if "je_process_regex je = None" "je_container_regex je = None"
    using cs that top_consumers_bounded_sorted by (auto simp: consumers_of_def Let_def)
  moreover have "length (rp_consumers r) \<le> length cs"
    using arg_cong [OF m, of length] length_map_filter by (metis (no_types, lifting) length_map)
  ultimately show ?thesis using cs m by fastforce
qed


definition example_json_metric :: "string \<Rightarrow> (string, string) hmap \<Rightarrow> string \<Rightarrow> Metric" where
  "example_json_metric name attributes value = new_metric ''host'' name ''gauge'' (Duration 5 0) attributes [] (Text value)"

definition example_reporter :: JsonExporter where
  "example_reporter =
     \<lparr>je_metric_generator = MetricGenerator_new example_services
        (example_topology\<lparr>topo_proc_tracker := example_history\<lparr>pt_sysinfo := e_system_new_all example_observer\<rparr>\<rparr>) ''host'' False False,
      je_time_step = Duration 2 0, je_time_limit = None, je_max_top_consumers = 10, je_out_writer = [],
      je_process_regex = Some (\<lambda>_. True), je_container_regex = None, je_monitor_resources = False, je_watch_containers = False\<rparr>"

definition example_metrics :: "Metric list" where
  "example_metrics =
     [example_json_metric ''scaph_process_power_consumption_microwatts''
        [(''pid'', ''7''), (''exe'', ''sh''), (''cmdline'', ''sh'')] ''3'',
      example_json_metric ''scaph_socket_power_microwatts'' [(''socket_id'', ''0'')] ''4'',
      example_json_metric ''scaph_socket_power_microwatts'' [(''socket_id'', ''1'')] ''5'',
      example_json_metric ''scaph_host_power_microwatts'' [] ''9'']"

lemma example_consumers:
  "\<exists>f. consumers_of example_settings v example_reporter (je_metric_generator example_reporter) =
     Inr [((example_process 7 ''sh'')\<lparr>ip_cpu_busy_time := 10, ip_node_busy_time := 40\<rparr>, f)]"
  by (simp add: consumers_of_def example_reporter_def get_filtered_processes_def example_history_def ProcessTracker_new_def
      MetricGenerator_new_def IProcess_exe_def example_process_def example_observer_def example_sysinfo_process_def Let_def sort_by_def)


lemma example_values: "parse_f32 ''9'' = Some (f32_lit 9)" "parse_f32 ''5'' = Some (f32_lit 5)" "parse_f32 ''4'' = Some (f32_lit 4)"
    "parse_f32 ''3'' = Some (f32_lit 3)"
  using parse_f_show_nat [of f32_format 9] parse_f_show_nat [of f32_format 5] parse_f_show_nat [of f32_format 4]
    parse_f_show_nat [of f32_format 3]
  by (simp_all add: text_eval f_of_nat_def)

lemma example_metrics_ok: "list_all report_ok example_metrics"
proof -
  have i: "show_u16 0 = ''0''" "show_u16 1 = ''1''" "show_int 7 = ''7''" "is_i32 7" by (simp_all add: text_eval show_u16_def show_int_def is_i32_def)
  have s: "socket_label (example_json_metric n [(''socket_id'', ''0'')] v)" "socket_label (example_json_metric n [(''socket_id'', ''1'')] v)" for n v
    using i(1,2) [symmetric] by (auto simp: socket_label_def example_json_metric_def new_metric_def)
  have p: "process_label (example_json_metric n [(''pid'', ''7''), (''exe'', ''sh''), (''cmdline'', ''sh'')] v)" for n v
    using i(3) [symmetric] i(4) by (auto simp: process_label_def example_json_metric_def new_metric_def)
  show ?thesis unfolding example_metrics_def using s p
    by (simp add: report_ok_def example_json_metric_def new_metric_def socket_figures_def parsed_figures_def reads_f32_def value_text_def example_values)
qed

lemma example_report:
  "\<exists>r. build_report example_settings (\<lambda>_. example_observer) example_reporter (je_metric_generator example_reporter) example_metrics = Inr (Some r)"
proof -
  have "flt f_zero (f32_lit 9)" by code_simp
  then have h: "\<exists>h. host_report example_metrics ds = Inr (Some h)" for ds
    by (simp add: host_report_def example_metrics_def example_json_metric_def new_metric_def value_text_def example_values parse_unwrap_def)
  have "tracker_inv (topo_proc_tracker (mg_topology (je_metric_generator example_reporter)))"
    by (simp add: example_reporter_def MetricGenerator_new_def tracker_inv_def example_history_def get_all_pids_def history_ok_def
        ProcessTracker_new_def example_process_def Let_def has_pid_def less_eq_duration_def)
  moreover have "table_ok (mg_topology (je_metric_generator example_reporter))"
    by (simp add: example_reporter_def MetricGenerator_new_def table_ok_def example_observer_def example_sysinfo_process_def is_i32_def)
  ultimately obtain r where r: "build_report example_settings (\<lambda>_. example_observer) example_reporter (je_metric_generator example_reporter)
      example_metrics = Inr r" using build_report_total [OF example_metrics_ok] by blast
  then obtain ds h where "host_report example_metrics ds = Inr h" "r = None \<longleftrightarrow> h = None"
    by (auto simp: build_report_def bind_res_eq_Inr split: prod.splits)
  then show ?thesis using h [of ds] r by (cases r) auto
qed

lemma json_report_consumers_witness:
  "\<exists>r. build_report example_settings (\<lambda>_. example_observer) example_reporter (je_metric_generator example_reporter) example_metrics = Inr (Some r) \<and>
    map (\<lambda>k. (jc_pid k, jc_exe k, jc_consumption k)) (rp_consumers r) = [(7, ''sh'', f32_lit 3)]"
proof -
  obtain r f where r: "build_report example_settings (\<lambda>_. example_observer) example_reporter (je_metric_generator example_reporter)
      example_metrics = Inr (Some r)" and f: "consumers_of example_settings (sub_world 0 (\<lambda>_. example_observer)) example_reporter
      (je_metric_generator example_reporter) = Inr [((example_process 7 ''sh'')\<lparr>ip_cpu_busy_time := 10, ip_node_busy_time := 40\<rparr>, f)]"
    using example_report example_consumers by blast
  have "show_int 7 = ''7''" by (simp add: text_eval show_int_def)
  then have "map (\<lambda>k. (jc_pid k, Some (jc_exe k), Some (jc_cmdline k), Some (jc_consumption k))) (rp_consumers r) =
      [(7, Some ''sh'', Some ''sh'', Some (f32_lit 3))]"
    using json_report_consumers [OF r] f
    by (simp add: map_filter_simps metric_of_pid_def example_metrics_def example_json_metric_def new_metric_def example_process_def
        value_text_def example_values)
  then show ?thesis using r by (auto simp: map_eq_Cons_conv)
qed


abbreviation socket_of :: "Metric \<Rightarrow> u16 option" where
  "socket_of m \<equiv> Option.bind (hm_get (m_attributes m) ''socket_id'') parse_u16"

lemma socket_reported:
  assumes "socket_report ms (Some m) s = Inr r"
  shows "map_option (\<lambda>j. (js_id j, Some (js_consumption j))) r =
    (if socket_of m = Some (sock_id s) then Some (sock_id s, parse_f32 (value_text m)) else None)"
  using assms
  by (auto simp: socket_report_def bind_res_eq_Inr attribute_def unwrap_opt_def parse_unwrap_def split: option.splits if_splits)

lemma map_filter_if: "List.map_filter (\<lambda>x. if p x then Some (f x) else None) xs = map f (filter p xs)"
  by (induction xs) (auto simp: map_filter_simps)

text \<open>
  A report has at most one socket, however many the host has: the one that the first power metric
  of a socket names, with the value of that metric.
\<close>

theorem json_single_socket:
  assumes "build_report st w je g ms = Inr (Some r)" "distinct (map sock_id (topo_sockets (mg_topology g)))"
  shows "map (\<lambda>j. (js_id j, Some (js_consumption j))) (rp_sockets r) =
      (case find (\<lambda>x. m_name x = ''scaph_socket_power_microwatts'') ms of
         Some m \<Rightarrow> map (\<lambda>s. (sock_id s, parse_f32 (value_text m)))
           (filter (\<lambda>s. Option.bind (hm_get (m_attributes m) ''socket_id'') parse_u16 = Some (sock_id s)) (topo_sockets (mg_topology g)))
       | None \<Rightarrow> []) \<and>
    length (rp_sockets r) \<le> 1"
proof -
  let ?f = "\<lambda>j :: json_Socket. (js_id j, Some (js_consumption j))" and ?ss = "topo_sockets (mg_topology g)"
  let ?q = "\<lambda>x. m_name x = ''scaph_socket_power_microwatts''"
  have "next_match (\<lambda>x. Inr (?q x)) ms = Inr (find ?q ms, tl (dropWhile (\<lambda>x. \<not> ?q x) ms))" by (rule next_match_total) simp
  then have r: "filter_map_res (socket_report ms (find ?q ms)) ?ss = Inr (rp_sockets r)"
    using assms(1) by (auto simp: build_report_def bind_res_eq_Inr)
  show ?thesis
  proof (cases "find ?q ms")
    case None
    then have "rp_sockets r = List.map_filter (\<lambda>_. None) ?ss"
      using filter_map_res_Inr [OF r] by (simp add: socket_report_def)
    then show ?thesis using None by (simp add: List.map_filter_def)
  next
    case (Some m)
    have "map ?f (rp_sockets r) = List.map_filter (\<lambda>s. map_option ?f (projr (socket_report ms (Some m) s))) ?ss"
      using filter_map_res_Inr [OF r] Some by (simp add: map_map_filter)
    also have "\<dots> = List.map_filter (\<lambda>s. if socket_of m = Some (sock_id s) then Some (sock_id s, parse_f32 (value_text m)) else None) ?ss"
    proof (rule map_filter_cong)
      fix s
      assume "s \<in> set ?ss"
      then obtain y where "socket_report ms (Some m) s = Inr y" using filter_map_res_Inr [OF r] Some by auto
      with socket_reported [OF this] show "map_option ?f (projr (socket_report ms (Some m) s)) =
        (if socket_of m = Some (sock_id s) then Some (sock_id s, parse_f32 (value_text m)) else None)" by simp
    qed
    finally have m: "map ?f (rp_sockets r) = map (\<lambda>s. (sock_id s, parse_f32 (value_text m))) (filter (\<lambda>s. socket_of m = Some (sock_id s)) ?ss)"
      by (simp add: map_filter_if)
    have "card (set (map sock_id (filter (\<lambda>s. socket_of m = Some (sock_id s)) ?ss))) \<le> card {i. socket_of m = Some i}"
      by (rule card_mono) auto
    moreover have "card {i. socket_of m = Some i} \<le> 1" by (cases "socket_of m") auto
    moreover have "card (set (map sock_id (filter (\<lambda>s. socket_of m = Some (sock_id s)) ?ss))) = length (rp_sockets r)"
      unfolding distinct_card [OF distinct_map_filter [OF assms(2)]] using arg_cong [OF m, of length] by simp
    ultimately show ?thesis using m Some by simp
  qed
qed

definition names_of_process :: "string \<Rightarrow> Metric list \<Rightarrow> string list" where
  "names_of_process pid ms =
     map m_name (filter (\<lambda>x. starts_with (m_name x) ''scaph_process_'' \<and> hm_get (m_attributes x) ''pid'' = Some pid) ms)"

lemma next_of_process_step:
  assumes "next_of_process pid n ms = Inr (found, rest)"
  shows "subseq (n # ns) (names_of_process pid ms) \<longleftrightarrow> found \<noteq> None \<and> subseq ns (names_of_process pid rest)"
    and "set rest \<subseteq> set ms" and "found = None \<Longrightarrow> rest = []"
    and "found = Some m \<Longrightarrow> m \<in> set ms \<and> of_process pid n m"
proof -
  have t: "((if starts_with (m_name x) ''scaph_process_'' then map_res (\<lambda>p. p = pid \<and> m_name x = n) (attribute ''pid'' x)
      else Inr False) = Inr True) = of_process pid n x" for x
    by (cases "hm_get (m_attributes x) ''pid''") (auto simp: attribute_def of_process_def)
  have f: "found = find (of_process pid n) ms" "rest = tl (dropWhile (\<lambda>x. \<not> of_process pid n x) ms)"
    using next_match_Inr [OF assms [unfolded next_of_process_def]] unfolding t by simp_all
  show "subseq (n # ns) (names_of_process pid ms) \<longleftrightarrow> found \<noteq> None \<and> subseq ns (names_of_process pid rest)"
    unfolding f by (induction ms) (auto simp: names_of_process_def of_process_def)
  show "set rest \<subseteq> set ms" unfolding f by (induction ms) auto
  show "rest = []" if "found = None" using that unfolding f by (induction ms) (auto split: if_splits)
  show "m \<in> set ms \<and> of_process pid n m" if "found = Some m" using that unfolding f by (auto simp: find_Some_iff)
qed

definition resource_names :: "string list" where
  "resource_names = [''scaph_process_cpu_usage_percentage'', ''scaph_process_memory_bytes'', ''scaph_process_memory_virtual_bytes'',
     ''scaph_process_disk_write_bytes'', ''scaph_process_disk_read_bytes'']"

definition resource_texts :: "ResourcesUsage \<Rightarrow> string list" where
  "resource_texts r = [ru_cpu_usage r, ru_memory_usage r, ru_memory_virtual_usage r, ru_disk_usage_write r, ru_disk_usage_read r]"

text \<open>
  The resources of a consumer are found only in one order of the metrics: when the metrics of the
  process list its CPU usage, memory, virtual memory, bytes written and bytes read in this order, each
  figure of the report is the value of a metric of the process with its name; in any other order the
  bytes read are reported as 0, whatever they are. The order of the metrics of a process is that of a
  hash map.
\<close>

theorem resources_need_order:
  assumes "resources_report ms pid = Inr r"
  shows "if subseq resource_names (names_of_process pid ms)
    then list_all2 (\<lambda>name text. \<exists>m \<in> set ms. of_process pid name m \<and> text = value_text m) resource_names (resource_texts r)
    else ru_disk_usage_read r = ''0''"
proof -
  obtain a b c d e ma mb mc md me where n:
    "next_of_process pid ''scaph_process_cpu_usage_percentage'' ms = Inr (a, ma)"
    "next_of_process pid ''scaph_process_memory_bytes'' ma = Inr (b, mb)"
    "next_of_process pid ''scaph_process_memory_virtual_bytes'' mb = Inr (c, mc)"
    "next_of_process pid ''scaph_process_disk_write_bytes'' mc = Inr (d, md)"
    "next_of_process pid ''scaph_process_disk_read_bytes'' md = Inr (e, me)"
    and r: "resource_texts r = map usage_text [a, b, c, d, e]" "ru_disk_usage_read r = usage_text e"
    using assms by (auto simp: resources_report_def bind_res_eq_Inr resource_texts_def)
  note s = n [THEN next_of_process_step(1)] and sub = n [THEN next_of_process_step(2)]
    and z = n [THEN next_of_process_step(3)] and fd = n [THEN next_of_process_step(4)]
  have stop: "found = None" if "next_of_process p x ns = Inr (found, rest)" "ns = []" for p x ns found rest
    using that by (simp add: next_of_process_def)
  have hit: "\<exists>m \<in> set ms. of_process pid x m \<and> usage_text y = value_text m"
    if y: "y \<noteq> None" and "\<And>m. y = Some m \<Longrightarrow> m \<in> set ns \<and> of_process pid x m" "set ns \<subseteq> set ms" for x y ns
  proof -
    obtain m where "y = Some m" using y by blast
    then show ?thesis using that(2,3) by (intro bexI [of _ m]) (auto simp: usage_text_def)
  qed
  have all: "subseq resource_names (names_of_process pid ms) \<longleftrightarrow> a \<noteq> None \<and> b \<noteq> None \<and> c \<noteq> None \<and> d \<noteq> None \<and> e \<noteq> None"
    unfolding resource_names_def by (simp add: s)
  show ?thesis
  proof (cases "subseq resource_names (names_of_process pid ms)")
    case True
    then have f: "a \<noteq> None" "b \<noteq> None" "c \<noteq> None" "d \<noteq> None" "e \<noteq> None" using all by simp_all
    have "set mb \<subseteq> set ms" "set mc \<subseteq> set ms" "set md \<subseteq> set ms" using sub by blast+
    then have "list_all2 (\<lambda>name text. \<exists>m \<in> set ms. of_process pid name m \<and> text = value_text m) resource_names (resource_texts r)"
      unfolding resource_names_def r(1) list.map list_all2_Cons
      using hit [OF f(1) fd(1) order_refl] hit [OF f(2) fd(2) sub(1)] hit [OF f(3) fd(3)] hit [OF f(4) fd(4)] hit [OF f(5) fd(5)]
      by (intro conjI list.rel_intros(1))
    then show ?thesis using True by simp
  next
    case False
    then have "e = None" using all z stop [OF n(2)] stop [OF n(3)] stop [OF n(4)] stop [OF n(5)] by blast
    then show ?thesis using False r(2) by (simp add: usage_text_def)
  qed
qed

end
