(* ===== verification/Stdout.thy ===== *)
theory Stdout
  imports Metric_Reader
begin

text \<open>
  \<open>exporters/stdout.rs\<close>: the exporter that prints a summary of every turn, or its metrics, on the standard
  output. What is printed is kept as text. The serialization of labels is serde's and a parameter, with
  no text when it fails. A regular expression is its source and its test.
\<close>

section \<open>State and arguments\<close>

record stdout_ExporterArgs =
  sa_timeout :: int
  sa_step :: u64
  sa_processes :: u16
  sa_regex_filter :: "(string \<times> (string \<Rightarrow> bool)) option"
  sa_containers :: bool
  sa_qemu :: bool
  sa_raw_metrics :: bool

record StdoutExporter =
  so_metric_generator :: MetricGenerator
  so_args :: stdout_ExporterArgs
  so_printed :: string

definition StdoutExporter_new ::
  "container_services \<Rightarrow> Topology option \<Rightarrow> string \<Rightarrow> stdout_ExporterArgs \<Rightarrow> StdoutExporter res" where
  "StdoutExporter_new cs topology hostname args =
     (case topology of
        None \<Rightarrow> Inl (Expect_Failed ''sensor topology should be available'')
      | Some topo \<Rightarrow>
          Inr \<lparr>so_metric_generator = MetricGenerator_new cs topo hostname (sa_qemu args) (sa_containers args),
               so_args = args, so_printed = []\<rparr>)"

section \<open>Text\<close>

definition newline :: string where "newline = [CHR 0x0A]"

definition tab :: string where "tab = [CHR 0x09]"

definition println :: "string \<Rightarrow> string" where
  "println s = s @ newline"

text \<open>
  The debug format of a string: quoted, with quotes, backslashes and control characters escaped. Bytes of
  longer UTF-8 sequences are kept, as they are for printable characters.
\<close>

definition hex_digit :: "nat \<Rightarrow> char" where
  "hex_digit n = ''0123456789abcdef'' ! n"

definition escape_debug :: "char \<Rightarrow> string" where
  "escape_debug c =
     (let backslash = [CHR 0x5C]; n = of_char c :: nat
      in if n = 0 then backslash @ ''0''
         else if n = 9 then backslash @ ''t''
         else if n = 13 then backslash @ ''r''
         else if n = 10 then backslash @ ''n''
         else if n = 34 \<or> n = 92 then backslash @ [c]
         else if n < 16 then backslash @ ''u{'' @ [hex_digit n] @ ''}''
         else if n < 32 \<or> n = 127 then backslash @ ''u{'' @ [hex_digit (n div 16), hex_digit (n mod 16)] @ ''}''
         else [c])"

definition debug_str :: "string \<Rightarrow> string" where
  "debug_str s = [CHR 0x22] @ concat (map escape_debug s) @ [CHR 0x22]"

text \<open>The debug format of a duration of whole seconds.\<close>

definition debug_secs :: "u64 \<Rightarrow> string" where
  "debug_secs s = (if s = 0 then ''0ns'' else show_u64 s @ ''s'')"

section \<open>The summary\<close>

definition host_line :: "Metric list \<Rightarrow> string res" where
  "host_line metrics =
     (let found = find (\<lambda>x. m_name x = ''scaph_host_power_microwatts'') metrics;
          host_power_source =
            (case found of Some m \<Rightarrow> (case hm_get (m_attributes m) ''value_source'' of Some src \<Rightarrow> src | None \<Rightarrow> []) | None \<Rightarrow> []);
          host_power = (case found of Some m \<Rightarrow> m_metric_value m | None \<Rightarrow> Text ''0'')
      in map_res (\<lambda>v. println (''Host:'' @ tab @ show_f64 (f64_div v (f64_lit 1000000)) @ '' W from '' @ host_power_source))
           (parse_unwrap (parse_f64 (MetricValueType_fmt host_power))))"

definition package_line :: "string list option \<Rightarrow> string" where
  "package_line domain_names =
     (case domain_names of
        Some names \<Rightarrow> println (tab @ ''package '' @ tab @ join (tab @ tab) names)
      | None \<Rightarrow> [])"

text \<open>The figure of a metric, in watts.\<close>

definition watts :: "Metric \<Rightarrow> f32 res" where
  "watts m = map_res (\<lambda>v. f32_div v (f32_lit 1000000)) (parse_unwrap (parse_f32 (value_text m)))"

definition domain_of_socket :: "string \<Rightarrow> string \<Rightarrow> Metric \<Rightarrow> bool res" where
  "domain_of_socket socket_id d x =
     (if m_name x = ''scaph_domain_power_microwatts''
      then map_res (\<lambda>i. i = socket_id \<and> hm_get (m_attributes x) ''domain_name'' = Some d) (attribute ''socket_id'' x)
      else Inr False)"

definition domain_cell :: "Metric list \<Rightarrow> string \<Rightarrow> string \<Rightarrow> string res" where
  "domain_cell metrics socket_id d =
     bind_res (find_res (domain_of_socket socket_id d) metrics) (\<lambda>found.
       case found of
         Some current_domain \<Rightarrow> map_res (\<lambda>p. show_f32 p @ '' W'' @ tab) (watts current_domain)
       | None \<Rightarrow> Inr ''---'')"

definition socket_line :: "string list option \<Rightarrow> Metric list \<Rightarrow> Metric \<Rightarrow> string res" where
  "socket_line domain_names metrics s =
     bind_res (watts s) (\<lambda>power.
     let power_str = (if flt f_zero power then show_f32 power else ''----'')
     in bind_res (attribute ''socket_id'' s) (\<lambda>socket_id.
        let to_print = ''Socket'' @ socket_id @ tab @ power_str @ '' W |'' @ tab
        in case domain_names of
             Some names \<Rightarrow>
               map_res (\<lambda>cells. println (to_print @ concat cells @ newline)) (traverse_res (domain_cell metrics socket_id) names)
           | None \<Rightarrow> Inr (println (to_print @ '' Could'' @ [CHR 0x27] @ ''nt get per-domain metrics.'' @ newline))))"

definition shown_consumers :: "world \<Rightarrow> stdout_ExporterArgs \<Rightarrow> MetricGenerator \<Rightarrow> (string \<times> (IProcess \<times> f64) list) res" where
  "shown_consumers w args g =
     (let pt = topo_proc_tracker (mg_topology g)
      in case sa_regex_filter args of
           Some (regex, is_match) \<Rightarrow>
             map_res (\<lambda>cs. (println (''Processes filtered by '' @ [CHR 0x27] @ regex @ [CHR 0x27] @ '':''), cs))
               (get_filtered_processes is_match pt)
         | None \<Rightarrow>
             map_res (\<lambda>cs. (println (''Top '' @ show_u16 (sa_processes args) @ '' consumers:''), cs))
               (get_top_consumers w pt (sa_processes args)))"

definition consumer_line :: "Metric list \<Rightarrow> IProcess \<times> f64 \<Rightarrow> string res" where
  "consumer_line metrics c =
     bind_res (find_res (power_of_pid (show_int (ip_pid (fst c)))) metrics) (\<lambda>found.
       case found of
         None \<Rightarrow> Inr []
       | Some process \<Rightarrow>
           bind_res (watts process) (\<lambda>power.
           bind_res (attribute ''pid'' process) (\<lambda>pid.
           bind_res (attribute ''exe'' process) (\<lambda>exe.
             Inr (println (show_f32 power @ '' W'' @ tab @ pid @ tab @ debug_str exe))))))"

definition summarized_view :: "world \<Rightarrow> stdout_ExporterArgs \<Rightarrow> MetricGenerator \<Rightarrow> Metric list \<Rightarrow> string res" where
  "summarized_view w args g metrics =
     (let domain_names = topo_domains_names (mg_topology g)
      in bind_res (host_line metrics) (\<lambda>host.
         bind_res (traverse_res (socket_line domain_names metrics)
             (filter (\<lambda>x. m_name x = ''scaph_socket_power_microwatts'') metrics)) (\<lambda>sockets.
         bind_res (shown_consumers w args g) (\<lambda>(title, consumers).
         bind_res (if consumers = [] then Inr [println ''No processes found yet or filter returns no value.'']
                   else traverse_res (consumer_line metrics) consumers) (\<lambda>processes.
           Inr (host @ package_line domain_names @ concat sockets @ title
                @ println (''Power'' @ tab @ tab @ ''PID'' @ tab @ ''Exe'') @ concat processes
                @ println (replicate 60 CHR ''-'' @ newline)))))))"

section \<open>The metrics as they are\<close>

definition raw_line :: "((string, string) hmap \<Rightarrow> string option) \<Rightarrow> Metric \<Rightarrow> string res" where
  "raw_line to_string m =
     map_res (\<lambda>serialized_data. println (m_name m @ '' = '' @ value_text m @ '' '' @ serialized_data @ '' # '' @ m_description m))
       (unwrap_opt (to_string (m_attributes m)))"

definition raw_metrics_view :: "((string, string) hmap \<Rightarrow> string option) \<Rightarrow> env \<Rightarrow> Metric list \<Rightarrow> string res" where
  "raw_metrics_view to_string e metrics =
     map_res (\<lambda>ls. println (''## At '' @ show_u64 (as_secs (current_system_time_since_epoch e))) @ concat ls)
       (traverse_res (raw_line to_string) metrics)"

section \<open>Turns\<close>

definition stdout_show_metrics ::
  "settings \<Rightarrow> ((string, string) hmap \<Rightarrow> string option) \<Rightarrow> (nat \<Rightarrow> container_services) \<Rightarrow> world \<Rightarrow> StdoutExporter \<Rightarrow> StdoutExporter res" where
  "stdout_show_metrics st to_string cs w so =
     bind_res (gen_all_metrics (st_version st) (st_regexes st) cs (sub_world 2 w) (so_metric_generator so)) (\<lambda>g.
       let (metrics, g) = pop_metrics g
       in map_res (\<lambda>text. so\<lparr>so_metric_generator := g, so_printed := so_printed so @ text\<rparr>)
            (if sa_raw_metrics (so_args so) then raw_metrics_view to_string (w [3]) metrics
             else summarized_view (sub_world 3 w) (so_args so) g metrics))"

definition StdoutExporter_iterate ::
  "settings \<Rightarrow> ((string, string) hmap \<Rightarrow> string option) \<Rightarrow> world \<times> (nat \<Rightarrow> container_services) \<Rightarrow> StdoutExporter \<Rightarrow> StdoutExporter res" where
  "StdoutExporter_iterate st to_string obs so =
     bind_res (refresh_topology st (sub_world 1 (fst obs)) (clean_terminated (so_metric_generator so))) (\<lambda>g.
       stdout_show_metrics st to_string (snd obs) (fst obs) (so\<lparr>so_metric_generator := g\<rparr>))"

definition stdout_time_limit :: "stdout_ExporterArgs \<Rightarrow> duration option" where
  "stdout_time_limit args = (if sa_timeout args < 0 then None else Some (Duration (word_of_int \<bar>sa_timeout args\<bar>) 0))"

definition StdoutExporter_run ::
  "settings \<Rightarrow> ((string, string) hmap \<Rightarrow> string option) \<Rightarrow> (duration \<times> world \<times> (nat \<Rightarrow> container_services)) list \<Rightarrow>
   StdoutExporter \<Rightarrow> (StdoutExporter \<times> bool) res" where
  "StdoutExporter_run st to_string obs so =
     run_until (StdoutExporter_iterate st to_string) (stdout_time_limit (so_args so)) obs
       (so\<lparr>so_printed := so_printed so @ println (''Measurement step is: '' @ debug_secs (sa_step (so_args so)))\<rparr>)"

section \<open>Printing never panics\<close>

lemma watts_total: "reads_f32 m \<Longrightarrow> \<exists>p. watts m = Inr p"
  using reads_f32_unwrap [of m] by (auto simp: watts_def)

lemma host_line_total:
  assumes "list_all report_ok ms"
  shows "\<exists>s. host_line ms = Inr s"
proof (cases "find (\<lambda>x. m_name x = ''scaph_host_power_microwatts'') ms")
  case None
  have "parse_f64 ''0'' \<noteq> None" using parse_f_show_nat [of f64_format 0] by (simp add: text_eval)
  then show ?thesis using None by (auto simp: host_line_def Let_def parse_unwrap_def)
next
  case (Some m)
  then have "report_ok m" "m_name m = ''scaph_host_power_microwatts''" using assms by (auto simp: find_Some_iff list_all_iff)
  then have "parse_f32 (value_text m) \<noteq> None" by (simp add: report_ok_def parsed_figures_def reads_f32_def)
  then have "parse_f64 (value_text m) \<noteq> None" by (simp add: parse_f_None [of f64_format _ f32_format])
  then show ?thesis using Some by (auto simp: host_line_def Let_def parse_unwrap_def value_text_def)
qed

lemma socket_attribute: "socket_label m \<Longrightarrow> \<exists>i. attribute ''socket_id'' m = Inr i"
  by (auto simp: socket_label_def attribute_def)

lemma domain_cell_total:
  assumes "list_all report_ok ms"
  shows "\<exists>s. domain_cell ms i d = Inr s"
proof -
  let ?q = "\<lambda>x. m_name x = ''scaph_domain_power_microwatts'' \<and> hm_get (m_attributes x) ''socket_id'' = Some i \<and>
    hm_get (m_attributes x) ''domain_name'' = Some d"
  have ok: "socket_label x" "reads_f32 x" if "x \<in> set ms" "m_name x = ''scaph_domain_power_microwatts''" for x
    using assms that by (auto simp: list_all_iff report_ok_def socket_figures_def parsed_figures_def)
  have f: "find_res (domain_of_socket i d) ms = Inr (find ?q ms)"
    using ok(1) by (intro find_res_total) (fastforce simp: domain_of_socket_def socket_label_def attribute_def)
  have "\<exists>p. watts m = Inr p" if "find ?q ms = Some m" for m
    using that ok(2) watts_total by (auto simp: find_Some_iff)
  then show ?thesis unfolding domain_cell_def f by (fastforce split: option.split)
qed

lemma socket_line_total:
  assumes "list_all report_ok ms" "m \<in> set ms" "m_name m = ''scaph_socket_power_microwatts''"
  shows "\<exists>s. socket_line names ms m = Inr s"
proof -
  have "report_ok m" using assms(1,2) by (simp add: list_all_iff)
  then obtain p i where p: "watts m = Inr p" "attribute ''socket_id'' m = Inr i"
    using assms(3) watts_total [of m] socket_attribute [of m] by (auto simp: report_ok_def socket_figures_def parsed_figures_def)
  have "\<exists>cs. traverse_res (domain_cell ms i) ns = Inr cs" for ns
    using domain_cell_total [OF assms(1)] by (intro traverse_res_ok) blast
  then show ?thesis by (cases names) (simp_all add: socket_line_def p Let_def, metis map_res_simps(2))
qed

lemma consumer_line_total:
  assumes "list_all report_ok ms"
  shows "\<exists>s. consumer_line ms c = Inr s"
proof -
  note f = power_metric_ok [OF assms, of "show_int (ip_pid (fst c))"]
  show ?thesis
  proof (cases "power_metric (show_int (ip_pid (fst c))) ms")
    case (Some m)
    then obtain p where "watts m = Inr p" using f(2) watts_total by blast
    then show ?thesis using f(1) f(2) [OF Some] Some by (auto simp: consumer_line_def process_label_def attribute_def)
  qed (use f(1) in \<open>simp add: consumer_line_def\<close>)
qed

lemma summarized_view_total:
  assumes "list_all report_ok ms" "table_ok (mg_topology g)"
  shows "\<exists>s. summarized_view w args g ms = Inr s"
proof -
  obtain h where h: "host_line ms = Inr h" using host_line_total [OF assms(1)] by blast
  have "\<exists>ss. traverse_res (socket_line names ms) (filter (\<lambda>x. m_name x = ''scaph_socket_power_microwatts'') ms) = Inr ss" for names
    using socket_line_total [OF assms(1)] by (intro traverse_res_ok) auto
  then obtain ss where ss: "traverse_res (socket_line (topo_domains_names (mg_topology g)) ms)
      (filter (\<lambda>x. m_name x = ''scaph_socket_power_microwatts'') ms) = Inr ss" by blast
  have "\<exists>c. shown_consumers w args g = Inr c"
  proof (cases "sa_regex_filter args")
    case None
    then show ?thesis using selected_total(2) [OF assms(2), of w "sa_processes args"] by (auto simp: shown_consumers_def)
  next
    case (Some r)
    then show ?thesis using selected_total(1) [OF assms(2), of "snd r"] by (cases r) (auto simp: shown_consumers_def)
  qed
  then obtain title cs where c: "shown_consumers w args g = Inr (title, cs)" by auto
  have "\<exists>ps. traverse_res (consumer_line ms) cs = Inr ps"
    using consumer_line_total [OF assms(1)] by (intro traverse_res_ok) blast
  then show ?thesis unfolding summarized_view_def Let_def h ss c bind_res_simps prod.case by auto
qed

definition serializes :: "((string, string) hmap \<Rightarrow> string option) \<Rightarrow> bool" where
  "serializes to_string \<longleftrightarrow> (\<forall>a. to_string a \<noteq> None)"

lemma raw_metrics_view_total:
  assumes "serializes to_string"
  shows "\<exists>s. raw_metrics_view to_string e ms = Inr s"
proof -
  have "\<exists>s. raw_line to_string m = Inr s" for m using assms by (auto simp: raw_line_def serializes_def unwrap_opt_def split: option.split)
  then have "\<exists>ls. traverse_res (raw_line to_string) ms = Inr ls" by (intro traverse_res_ok) blast
  then show ?thesis by (auto simp: raw_metrics_view_def)
qed

interpretation stdout: steady
  "\<lambda>now so. readable st n me now (so_metric_generator so) \<and> serializes to_string"
  "\<lambda>now lt obs. report_observes n me now lt (fst obs)" "StdoutExporter_iterate st to_string" for st n me to_string
proof
  fix now lt :: duration and so :: StdoutExporter and obs :: "world \<times> (nat \<Rightarrow> container_services)"
  assume so: "readable st n me now (so_metric_generator so) \<and> serializes to_string" and w: "report_observes n me now lt (fst obs)"
  obtain g where g: "refresh_topology st (sub_world 1 (fst obs)) (clean_terminated (so_metric_generator so)) = Inr g"
    "readable st n me lt g" "table_ok (mg_topology g)"
    using refresh_readable [OF clean_terminated_readable w] so by blast
  obtain g1 ms where g1: "gen_all_metrics (st_version st) (st_regexes st) (snd obs) (sub_world 2 (fst obs)) g = Inr g1"
    "pop_metrics g1 = (ms, g1\<lparr>mg_data := []\<rparr>)" "readable st n me lt (g1\<lparr>mg_data := []\<rparr>)" "mg_topology g1 = mg_topology g"
    "list_all report_ok ms" using gen_and_pop_readable [OF g(2) w g(3)] by blast
  have "\<exists>s. (if sa_raw_metrics (so_args so) then raw_metrics_view to_string (fst obs [3]) ms
      else summarized_view (sub_world 3 (fst obs)) (so_args so) (g1\<lparr>mg_data := []\<rparr>) ms) = Inr s"
    using raw_metrics_view_total summarized_view_total [OF g1(5)] g(3) g1(4) so by simp
  then show "\<exists>so'. StdoutExporter_iterate st to_string obs so = Inr so' \<and>
      readable st n me lt (so_metric_generator so') \<and> serializes to_string"
    using so g1(3) unfolding StdoutExporter_iterate_def g(1) bind_res_simps stdout_show_metrics_def
    by (auto simp: g1(1,2))
qed

section \<open>The summary reads back\<close>

text \<open>The power of the host that a summary prints reads back as the power of the metric, in watts.\<close>

lemma summary_reads_back:
  assumes "summarized_view w args g ms = Inr text"
  shows "\<exists>v src rest power. text = ''Host:'' @ tab @ v @ '' W from '' @ src @ newline @ rest \<and>
    parse_f64 (case find (\<lambda>x. m_name x = ''scaph_host_power_microwatts'') ms of Some m \<Rightarrow> value_text m | None \<Rightarrow> ''0'') = Some power \<and>
    parse_f64 v = Some (f64_div power (f64_lit 1000000))"
proof -
  obtain h rest where h: "host_line ms = Inr h" "text = h @ rest"
    using assms by (auto simp: summarized_view_def bind_res_eq_Inr Let_def)
  obtain power src where p: "parse_f64 (case find (\<lambda>x. m_name x = ''scaph_host_power_microwatts'') ms of Some m \<Rightarrow> value_text m | None \<Rightarrow> ''0'') = Some power"
    "h = println (''Host:'' @ tab @ show_f64 (f64_div power (f64_lit 1000000)) @ '' W from '' @ src)"
    using h(1) by (auto simp: host_line_def Let_def map_res_def bind_res_eq_Inr parse_unwrap_def value_text_def split: option.splits)
  have "parse_f64 (show_f64 (f64_div power (f64_lit 1000000))) = Some (f64_div power (f64_lit 1000000))"
    by (rule parse_show_f64_valid) (simp add: valid_f_ops(3))
  then show ?thesis using p h(2) by (auto simp: println_def)
qed

end
