(* ===== verification/Riemann.thy ===== *)
theory Riemann
  imports Exporter_Loop
begin

text \<open>
  \<open>exporters/riemann.rs\<close>: the exporter that turns every metric into an event for a Riemann server. The
  client belongs to another crate: whether a connection is made and whether the server takes an event
  are parameters. The events taken are kept.
\<close>

section \<open>Events\<close>

datatype event_metric = Metric_sint64 int | Metric_d f64

record Event =
  ev_time :: int
  ev_ttl :: f32
  ev_host :: string
  ev_service :: string
  ev_state :: string
  ev_tags :: "string list"
  ev_attributes :: "(string \<times> string) list"
  ev_description :: string
  ev_metric :: event_metric

definition parse_i64 :: "string \<Rightarrow> int option" where
  "parse_i64 s = parse_sint (2 ^ 63) s"

definition expect_opt :: "string \<Rightarrow> 'a option \<Rightarrow> 'a res" where
  "expect_opt msg x = (case x of Some v \<Rightarrow> Inr v | None \<Rightarrow> Inl (Expect_Failed msg))"

definition event_value :: "MetricValueType \<Rightarrow> event_metric res" where
  "event_value value =
     (case value of
        IntUnsigned v \<Rightarrow>
          if unat v < 2 ^ 63 then Inr (Metric_sint64 (uint v))
          else Inl (Expect_Failed ''Metric cannot be converted to signed integer.'')
      | Text v \<Rightarrow>
          let v = replace_char (CHR 0x0A) [] (replace_char CHR '','' ''.'' v)
          in if CHR ''.'' \<in> set v
             then map_res Metric_d (expect_opt ''Cannot parse metric value.'' (parse_f64 v))
             else map_res Metric_sint64 (expect_opt ''Cannot parse metric value.'' (parse_i64 v)))"

definition event_of :: "env \<Rightarrow> Metric \<Rightarrow> Event res" where
  "event_of e metric =
     map_res (\<lambda>value.
       \<lparr>ev_time = sint (as_secs (e_now e)), ev_ttl = m_ttl metric, ev_host = m_hostname metric,
        ev_service = m_name metric, ev_state = m_state metric, ev_tags = m_tags metric,
        ev_attributes = m_attributes metric, ev_description = m_description metric, ev_metric = value\<rparr>)
     (event_value (m_metric_value metric))"

definition send_metric :: "(Event \<Rightarrow> bool) \<Rightarrow> env \<Rightarrow> Metric \<Rightarrow> Event res" where
  "send_metric taken e metric =
     bind_res (event_of e metric) (\<lambda>event.
       if taken event then Inr event else Inl (Expect_Failed ''Fail to send metric to Riemann''))"

section \<open>State and arguments\<close>

record riemann_ExporterArgs =
  ra_address :: string
  ra_port :: u16
  ra_dispatch_interval :: u64
  ra_qemu :: bool
  ra_containers :: bool
  ra_mtls :: bool
  ra_ca_file :: "string option"
  ra_cert_file :: "string option"
  ra_key_file :: "string option"

record RiemannExporter =
  re_metric_generator :: MetricGenerator
  re_sent :: "Event list"
  re_args :: riemann_ExporterArgs

definition RiemannExporter_new ::
  "container_services \<Rightarrow> Topology option \<Rightarrow> string \<Rightarrow> (string \<Rightarrow> u16 \<Rightarrow> string \<Rightarrow> string \<Rightarrow> string \<Rightarrow> bool) \<Rightarrow>
   (string \<Rightarrow> u16 \<Rightarrow> bool) \<Rightarrow> riemann_ExporterArgs \<Rightarrow> RiemannExporter res" where
  "RiemannExporter_new cs topology hostname connect_tls connect args =
     (case topology of
        None \<Rightarrow> Inl (Expect_Failed ''sensor topology should be available'')
      | Some topo \<Rightarrow>
          bind_res
            (if ra_mtls args then
               bind_res (unwrap_opt (ra_ca_file args)) (\<lambda>ca.
               bind_res (unwrap_opt (ra_cert_file args)) (\<lambda>cert.
               bind_res (unwrap_opt (ra_key_file args)) (\<lambda>key.
                 if connect_tls (ra_address args) (ra_port args) ca cert key then Inr ()
                 else Inl (Expect_Failed ''failed to connect to Riemann using mTLS''))))
             else if connect (ra_address args) (ra_port args) then Inr ()
             else Inl (Expect_Failed ''failed to connect to Riemann using raw TCP''))
            (\<lambda>_. Inr \<lparr>re_metric_generator = MetricGenerator_new cs topo hostname (ra_qemu args) (ra_containers args),
                       re_sent = [], re_args = args\<rparr>))"

section \<open>A turn\<close>

definition riemann_attributes :: "bool \<Rightarrow> Pid \<Rightarrow> string \<Rightarrow> string option \<Rightarrow> (string, string) hmap res" where
  "riemann_attributes qemu pid exe cmdline =
     (let attributes = hm_insert ''exe'' exe (hm_insert ''pid'' (show_int pid) [])
      in case cmdline of
           None \<Rightarrow> Inr attributes
         | Some cmdline_str \<Rightarrow>
             let attributes = hm_insert ''cmdline'' (replace_char (CHR 0x22) [CHR 0x5C, CHR 0x22] cmdline_str) attributes
             in if qemu
                then map_res (\<lambda>vmname. case vmname of Some v \<Rightarrow> hm_insert ''vmname'' v attributes | None \<Rightarrow> attributes)
                       (filter_qemu_cmdline cmdline_str)
                else Inr attributes)"

definition riemann_process_metric :: "env \<Rightarrow> string \<Rightarrow> bool \<Rightarrow> Topology \<Rightarrow> Pid \<Rightarrow> Metric list res" where
  "riemann_process_metric e hostname qemu t pid =
     (let processes_tracker = topo_proc_tracker t
      in bind_res (get_process_name processes_tracker pid) (\<lambda>exe.
         bind_res (get_process_cmdline processes_tracker pid) (\<lambda>cmdline.
         bind_res (riemann_attributes qemu pid exe cmdline) (\<lambda>attributes.
         bind_res (get_process_power_consumption_microwatts e t pid) (\<lambda>power.
           Inr (record_metric hostname (''scaph_process_power_consumption_microwatts_'' @ show_int pid @ ''_'' @ exe) ''gauge''
             attributes ''Power consumption due to the process, measured on at the topology level, in microwatts'' power))))))"

text \<open>Collecting and sending, after the refresh.\<close>

definition riemann_dispatch :: "settings \<Rightarrow> string \<Rightarrow> (Event \<Rightarrow> bool) \<Rightarrow> world \<Rightarrow> RiemannExporter \<Rightarrow> RiemannExporter res" where
  "riemann_dispatch st hostname taken w re =
     bind_res (gen_self_metrics (st_version st) (sub_world 0 (sub_world 2 w)) (re_metric_generator re)) (\<lambda>g.
     bind_res (gen_host_metrics (sub_world 1 (sub_world 2 w)) g) (\<lambda>g.
     let g = gen_socket_metrics (sub_world 2 (sub_world 2 w)) g
     in bind_res (traverse_res (\<lambda>(i, pid). riemann_process_metric (w [3, i]) hostname (ra_qemu (re_args re)) (mg_topology g) pid)
          (enumerate 0 (get_alive_pids (topo_proc_tracker (mg_topology g))))) (\<lambda>data.
        let (metrics, g) = pop_metrics g
        in bind_res (traverse_res (\<lambda>(i, m). send_metric taken (w [4, i]) m) (enumerate 0 metrics)) (\<lambda>sent.
           bind_res (traverse_res (\<lambda>(i, m). send_metric taken (w [5, i]) m) (enumerate 0 (concat data))) (\<lambda>sent'.
             Inr (re\<lparr>re_metric_generator := g, re_sent := re_sent re @ sent @ sent'\<rparr>))))))"

definition RiemannExporter_turn :: "settings \<Rightarrow> string \<Rightarrow> (Event \<Rightarrow> bool) \<Rightarrow> world \<Rightarrow> RiemannExporter \<Rightarrow> RiemannExporter res" where
  "RiemannExporter_turn st hostname taken w re =
     bind_res (refresh_topology st (sub_world 1 w) (clean_terminated (re_metric_generator re))) (\<lambda>g.
       riemann_dispatch st hostname taken w (re\<lparr>re_metric_generator := g\<rparr>))"

section \<open>Values that cannot be sent\<close>

lemma event_value_NaN: "event_value (Text ''NaN'') = Inl (Expect_Failed ''Cannot parse metric value.'')"
  by (simp add: event_value_def replace_char_def expect_opt_def parse_i64_def parse_sint_def parse_uint_def parse_digits_def is_digit_def)

lemma traverse_res_panics:
  "x \<in> set xs \<Longrightarrow> (\<And>y. f x \<noteq> Inr y) \<Longrightarrow> \<exists>p. traverse_res f xs = Inl p"
proof (cases "traverse_res f xs")
  case (Inr ys)
  assume "x \<in> set xs" "\<And>y. f x \<noteq> Inr y"
  moreover have "\<forall>i < length xs. f (xs ! i) = Inr (ys ! i)"
    using Inr by (simp add: traverse_res_Inr_iff list_all2_conv_all_nth)
  ultimately show ?thesis by (auto simp: in_set_conv_nth)
qed simp

lemma core_coef_NaN:
  assumes "s \<in> set (topo_sockets t)" "NaN \<in> set (CPUSocket_get_core_coefs s)"
  shows "NaN \<in> set (Topology_get_core_coefs t)"
proof -
  have "length (CPUSocket_get_core_coefs s) = length (map core_id (CPUSocket_get_cores s))"
    by (simp add: CPUSocket_get_core_coefs_def)
  then obtain i where "(i, NaN) \<in> set (zip (map core_id (CPUSocket_get_cores s)) (CPUSocket_get_core_coefs s))"
    using assms(2) by (metis in_set_impl_in_set_zip2)
  then show ?thesis using assms(1) unfolding Topology_get_core_coefs_def by force
qed

lemma host_metrics_NaN:
  assumes "NaN \<in> set (Topology_get_core_coefs (mg_topology g))" "topo_record_buffer (mg_topology g) \<noteq> []"
    and "gen_host_metrics w g = Inr g'"
  shows "\<exists>m \<in> set (mg_data g'). m_metric_value m = Text ''NaN''"
proof -
  let ?v = "sub_world 0 w" and ?h = "mg_hostname g" and ?t = "mg_topology g"
  obtain i where i: "i < length (Topology_get_core_coefs ?t)" "Topology_get_core_coefs ?t ! i = NaN"
    using assms(1) by (auto simp: in_set_conv_nth)
  have "(i, ''NaN'') \<in> set (enumerate 0 (map show_f64 (Topology_get_core_coefs ?t)))"
    using i by (simp add: in_set_enumerate_eq)
  then have "\<exists>m \<in> set (core_metrics h n ts d (map show_f64 (Topology_get_core_coefs ?t))). m_metric_value m = Text ''NaN''" for h n ts d
    by (force simp: core_metrics_def new_metric_def)
  then have "\<exists>m \<in> set (host_power_metrics ?v ?h ?t). m_metric_value m = Text ''NaN''"
    using assms(2) unfolding host_power_metrics_def Let_def Topology_get_records_passive_def by fastforce
  then show ?thesis using assms(3) by (auto simp: gen_host_metrics_def Let_def bind_res_eq_Inr)
qed


lemma send_NaN:
  assumes "m \<in> set ms" "m_metric_value m = Text ''NaN''"
  shows "\<exists>p. traverse_res (\<lambda>(i, m). send_metric taken (v i) m) (enumerate 0 ms) = Inl p"
proof -
  obtain i where "i < length ms" "ms ! i = m" using assms(1) by (auto simp: in_set_conv_nth)
  then have "(i, m) \<in> set (enumerate 0 ms)" by (simp add: in_set_enumerate_eq)
  then show ?thesis
    by (rule traverse_res_panics) (simp add: assms(2) send_metric_def event_of_def event_value_NaN)
qed

text \<open>
  C37. A core that slept through an interval stops the Riemann exporter: its coefficient is NaN, the
  metrics of the host carry it as text, and the text is neither a decimal number with a point nor an
  integer, so that the conversion to an event panics, whatever the server does.
\<close>

theorem sleeping_core_stops_riemann:
  assumes "s \<in> set (topo_sockets (mg_topology (re_metric_generator re)))" "c \<in> set (sock_cpu_cores s)"
    and "get_core_metrics_delta c = Some m" "cm_tsc m > 0" "cm_aperf m = 0" "cm_mperf m = 0"
    and "topo_record_buffer (mg_topology (re_metric_generator re)) \<noteq> []"
  shows "\<exists>p. riemann_dispatch st hostname taken w re = Inl p"
proof (rule ccontr)
  assume "\<not> ?thesis"
  then obtain re' where "riemann_dispatch st hostname taken w re = Inr re'" by (cases "riemann_dispatch st hostname taken w re") auto
  then obtain g1 g2 sent where g1: "gen_self_metrics (st_version st) (sub_world 0 (sub_world 2 w)) (re_metric_generator re) = Inr g1"
    and g2: "gen_host_metrics (sub_world 1 (sub_world 2 w)) g1 = Inr g2"
    and sent: "traverse_res (\<lambda>(i, m). send_metric taken (w [4, i]) m)
      (enumerate 0 (fst (pop_metrics (gen_socket_metrics (sub_world 2 (sub_world 2 w)) g2)))) = Inr sent"
    by (auto simp: riemann_dispatch_def bind_res_eq_Inr Let_def case_prod_beta)
  have "mg_topology g1 = mg_topology (re_metric_generator re)"
    using g1 by (auto simp: gen_self_metrics_def Let_def bind_res_eq_Inr)
  moreover have "NaN \<in> set (Topology_get_core_coefs (mg_topology (re_metric_generator re)))"
    by (rule core_coef_NaN [OF assms(1) sleeping_core_coef [OF assms(2-6)]])
  ultimately obtain x where "x \<in> set (mg_data g2)" and x: "m_metric_value x = Text ''NaN''"
    using host_metrics_NaN [OF _ _ g2] assms(7) by metis
  then have "x \<in> set (fst (pop_metrics (gen_socket_metrics (sub_world 2 (sub_world 2 w)) g2)))"
    by (simp add: pop_metrics_def pop_loop_rev gen_socket_metrics_def)
  from send_NaN [OF this x, of taken "\<lambda>i. w [4, i]"] sent show False by simp
qed


definition example_sleeper :: Topology where
  "example_sleeper =
     (let t = example_topology
      in t\<lparr>topo_sockets := map (add_cpu_core sleeping_core) (topo_sockets t),
           topo_record_buffer := [Record_new (Duration 1 0) ''5'' MicroJoule]\<rparr>)"

definition example_riemann :: RiemannExporter where
  "example_riemann =
     \<lparr>re_metric_generator = MetricGenerator_new example_services example_sleeper ''host'' False False, re_sent = [],
      re_args = \<lparr>ra_address = ''localhost'', ra_port = 5555, ra_dispatch_interval = 5, ra_qemu = False, ra_containers = False,
        ra_mtls = False, ra_ca_file = None, ra_cert_file = None, ra_key_file = None\<rparr>\<rparr>"

lemma sleeping_core_stops_riemann_witness:
  "\<exists>p. riemann_dispatch example_settings ''host'' (\<lambda>_. True) (\<lambda>_. example_observer) example_riemann = Inl p"
proof -
  obtain s where s: "s \<in> set (topo_sockets (mg_topology (re_metric_generator example_riemann)))" "sleeping_core \<in> set (sock_cpu_cores s)"
    by (auto simp: example_riemann_def MetricGenerator_new_def example_sleeper_def Let_def example_topology_def
        safe_add_domain_to_socket_def safe_add_socket_def build_domains_names_def Topology_new_def add_cpu_core_def)
  obtain m where m: "get_core_metrics_delta sleeping_core = Some m" "cm_tsc m > 0" "cm_aperf m = 0" "cm_mperf m = 0"
    by (simp add: get_core_metrics_delta_def sleeping_core_def CPUCore_new_def MultiValuedRecord_new_def
        last_two_def parse_or_0_digits Let_def nth_append)
  have "topo_record_buffer (mg_topology (re_metric_generator example_riemann)) \<noteq> []"
    by (simp add: example_riemann_def MetricGenerator_new_def example_sleeper_def Let_def)
  then show ?thesis using sleeping_core_stops_riemann [OF s m] by blast
qed

section \<open>Services of processes\<close>

lemma show_int_underscore: "CHR ''_'' \<notin> set (show_int i)"
proof -
  have "\<not> is_digit CHR ''_''" by (simp add: is_digit_def)
  then have "CHR ''_'' \<notin> set (show_nat n)" for n using show_nat_digits [of n] by (auto simp: list_all_iff)
  then show ?thesis by (simp add: show_int_def)
qed

lemma service_inj:
  assumes "show_int p @ ''_'' @ a = show_int q @ ''_'' @ b"
  shows "p = q"
proof -
  have "takeWhile (\<lambda>c. c \<noteq> CHR ''_'') (show_int i @ ''_'' @ x) = show_int i" for i x
    using show_int_underscore [of i] by (subst takeWhile_append2) auto
  then have "show_int p = show_int q" using assms by metis
  then show ?thesis by (simp add: show_int_inj)
qed

lemma process_metric_name:
  "riemann_process_metric e hostname qemu t pid = Inr ms \<Longrightarrow>
    \<exists>exe. ms = [] \<or> map m_name ms = [''scaph_process_power_consumption_microwatts_'' @ show_int pid @ ''_'' @ exe]"
  by (auto simp: riemann_process_metric_def Let_def bind_res_eq_Inr record_metric_def new_metric_def split: option.splits)

definition names_process :: "Pid \<Rightarrow> Metric list \<Rightarrow> bool" where
  "names_process pid ms \<longleftrightarrow>
     ms = [] \<or> (\<exists>exe. map m_name ms = [''scaph_process_power_consumption_microwatts_'' @ show_int pid @ ''_'' @ exe])"

lemma names_process_member:
  "names_process pid ms \<Longrightarrow> x \<in> m_name ` set ms \<Longrightarrow>
     \<exists>exe. x = ''scaph_process_power_consumption_microwatts_'' @ show_int pid @ ''_'' @ exe"
  by (auto simp: names_process_def map_eq_Cons_conv)

lemma names_distinct:
  "list_all2 names_process pids mss \<Longrightarrow> distinct pids \<Longrightarrow> distinct (map m_name (concat mss))"
proof (induction rule: list_all2_induct)
  case (Cons pid pids ms mss)
  have "distinct (map m_name ms)" using Cons.hyps(1) by (auto simp: names_process_def)
  moreover have "m_name ` set ms \<inter> m_name ` set (concat mss) = {}"
  proof (rule ccontr)
    assume "\<not> ?thesis"
    then obtain x ms' where x: "x \<in> m_name ` set ms" "x \<in> m_name ` set ms'" "ms' \<in> set mss" by auto
    obtain q where q: "q \<in> set pids" "names_process q ms'"
      using Cons.hyps(2) x(3) by (metis in_set_conv_nth list_all2_conv_all_nth)
    have "q = pid" using names_process_member [OF Cons.hyps(1) x(1)] names_process_member [OF q(2) x(2)] service_inj by fastforce
    then show False using q(1) Cons.prems by simp
  qed
  ultimately show ?case using Cons.IH Cons.prems by simp
qed simp

text \<open>
  Riemann tells metrics apart by their service: the services of the processes of a turn are pairwise
  different, whatever the executables are called.
\<close>

theorem riemann_services_distinct:
  assumes "tracker_inv (topo_proc_tracker t)"
    and "traverse_res (\<lambda>(i, pid). riemann_process_metric (v i) hostname qemu t pid)
      (enumerate 0 (get_alive_pids (topo_proc_tracker t))) = Inr data"
  shows "distinct (map m_name (concat data))"
proof -
  let ?pids = "get_alive_pids (topo_proc_tracker t)"
  have "get_alive_pids pt = map (\<lambda>x. ip_pid (pr_process (hd x))) (filter (\<lambda>p. \<exists>q. hm_get (sys_processes (pt_sysinfo pt)) (ip_pid (pr_process (hd p))) = Some q
      \<and> sp_status q \<noteq> Dead) (filter (\<lambda>x. x \<noteq> []) (pt_procs pt)))" for pt
    by (auto simp: get_alive_pids_def get_alive_processes_def intro!: filter_cong arg_cong [where f = "map _"] split: option.splits)
  then have "distinct ?pids"
    using assms(1) by (simp add: tracker_inv_def get_all_pids_def distinct_map_filter del: filter_filter)
  moreover have "list_all2 names_process ?pids data"
    using assms(2) process_metric_name
    by (fastforce simp: traverse_res_Inr_iff list_all2_conv_all_nth nth_enumerate_eq names_process_def)
  ultimately show ?thesis by (rule names_distinct [rotated])
qed

definition example_busy :: Topology where
  "example_busy = example_topology\<lparr>topo_proc_tracker := example_history\<lparr>pt_sysinfo := e_system_new_all example_observer\<rparr>\<rparr>"

end
