(* ===== verification/Warp10.thy ===== *)
theory Warp10
  imports Exporter_Loop
begin

text \<open>
  \<open>exporters/warpten.rs\<close>: the exporter that posts the metrics of every turn to a Warp10 instance. The
  client belongs to another crate: whether an address makes a client and whether a post succeeds are
  parameters. A post that fails is logged and the loop goes on.
\<close>

section \<open>State and arguments\<close>

record warp10_Data =
  wd_time :: duration
  wd_name :: string
  wd_labels :: "(string \<times> string) list"
  wd_value :: string

record Warp10Exporter =
  we_metric_generator :: MetricGenerator
  we_client :: string
  we_write_token :: string
  we_step :: duration

record warp10_ExporterArgs =
  wa_host :: string
  wa_port :: u16
  wa_scheme :: string
  wa_write_token :: "string option"
  wa_step :: u64
  wa_qemu :: bool

definition TOKEN_ENV_VAR :: string where
  "TOKEN_ENV_VAR = ''SCAPH_WARP10_WRITE_TOKEN''"

definition Warp10Exporter_new ::
  "container_services \<Rightarrow> Topology option \<Rightarrow> string \<Rightarrow> (string \<Rightarrow> bool) \<Rightarrow> (string \<Rightarrow> string option) \<Rightarrow>
   warp10_ExporterArgs \<Rightarrow> Warp10Exporter res" where
  "Warp10Exporter_new cs topology hostname client_new env_var args =
     (case topology of
        None \<Rightarrow> Inl (Expect_Failed ''sensor topology should be available'')
      | Some topo \<Rightarrow>
          let url = wa_scheme args @ ''://'' @ wa_host args @ '':'' @ show_u16 (wa_port args)
          in bind_res (if client_new url then Inr url else Inl (Expect_Failed ''warp10 Client could not be created'')) (\<lambda>client.
             bind_res (case wa_write_token args of
                         Some token \<Rightarrow> Inr token
                       | None \<Rightarrow>
                           (case env_var TOKEN_ENV_VAR of
                              Some token \<Rightarrow> Inr token
                            | None \<Rightarrow> Inl (Explicit_Panic (''No token found, you must provide either --write-token or the env var ''
                                                            @ TOKEN_ENV_VAR)))) (\<lambda>write_token.
               Inr \<lparr>we_metric_generator = MetricGenerator_new cs topo hostname (wa_qemu args) False, we_client = client,
                    we_write_token = write_token, we_step = Duration (wa_step args) 0\<rparr>)))"

section \<open>A turn\<close>

definition warp10_data :: "env \<Rightarrow> Metric \<Rightarrow> warp10_Data" where
  "warp10_data e metric =
     \<lparr>wd_time = e_now e, wd_name = m_name metric, wd_labels = m_attributes metric,
      wd_value = replace_char CHR ''`'' [] (MetricValueType_fmt (m_metric_value metric))\<rparr>"

text \<open>The result says whether the post succeeded.\<close>

definition Warp10Exporter_iterate ::
  "settings \<Rightarrow> (warp10_Data list \<Rightarrow> bool) \<Rightarrow> (nat \<Rightarrow> container_services) \<Rightarrow> world \<Rightarrow> Warp10Exporter \<Rightarrow>
   (Warp10Exporter \<times> warp10_Data list \<times> bool) res" where
  "Warp10Exporter_iterate st post_sync cs w we =
     bind_res (refresh_topology st (sub_world 1 w) (clean_terminated (we_metric_generator we))) (\<lambda>g.
     bind_res (gen_all_metrics (st_version st) (st_regexes st) cs (sub_world 2 w) g) (\<lambda>g.
       let (metrics, g) = pop_metrics g;
           process_data = map (\<lambda>(i, m). warp10_data (w [3, i]) m) (enumerate 0 metrics)
       in Inr (we\<lparr>we_metric_generator := g\<rparr>, process_data, post_sync process_data)))"

text \<open>A turn of \<open>run\<close>; what was posted is kept with its result.\<close>

definition Warp10Exporter_turn ::
  "settings \<Rightarrow> (warp10_Data list \<Rightarrow> bool) \<times> world \<times> (nat \<Rightarrow> container_services) \<Rightarrow>
   Warp10Exporter \<times> (warp10_Data list \<times> bool) list \<Rightarrow> (Warp10Exporter \<times> (warp10_Data list \<times> bool) list) res" where
  "Warp10Exporter_turn st obs s =
     map_res (\<lambda>(we, posted). (we, snd s @ [posted]))
       (Warp10Exporter_iterate st (fst obs) (snd (snd obs)) (fst (snd obs)) (fst s))"

section \<open>What is posted\<close>

text \<open>
  A turn, declaratively: the generator \<open>g\<close> is cleaned and refreshed, with no metrics left from before;
  the metrics collected are posted, the last one first, each with the time at which it was taken, its
  name, its labels and its value without backticks; nothing else is posted, and no metrics are left in
  the generator \<open>g'\<close> of the next turn.
\<close>

type_synonym warp10_observation = "(warp10_Data list \<Rightarrow> bool) \<times> world \<times> (nat \<Rightarrow> container_services)"

definition turn_posts ::
  "settings \<Rightarrow> warp10_observation \<Rightarrow> MetricGenerator \<Rightarrow> MetricGenerator \<Rightarrow> warp10_Data list \<times> bool \<Rightarrow> bool" where
  "turn_posts st obs g g' post \<longleftrightarrow>
     (let (post_sync, w, cs) = obs; (data, ok) = post
      in \<exists>g1 g2. refresh_topology st (sub_world 1 w) (clean_terminated g) = Inr g1 \<and> mg_data g1 = [] \<and>
           gen_all_metrics (st_version st) (st_regexes st) cs (sub_world 2 w) g1 = Inr g2 \<and> mg_data g2 \<noteq> [] \<and>
           g' = g2\<lparr>mg_data := []\<rparr> \<and>
           data = map (\<lambda>(i, m). \<lparr>wd_time = e_now (w [3, i]), wd_name = m_name m, wd_labels = m_attributes m,
               wd_value = filter (\<lambda>c. c \<noteq> CHR ''`'') (MetricValueType_fmt (m_metric_value m))\<rparr>)
             (enumerate 0 (rev (mg_data g2))) \<and>
           ok = post_sync data)"

inductive posts_of ::
  "settings \<Rightarrow> MetricGenerator \<Rightarrow> warp10_observation list \<Rightarrow> (warp10_Data list \<times> bool) list \<Rightarrow> bool" for st where
  no_turn: "posts_of st g [] []"
| turn: "turn_posts st ob g g' post \<Longrightarrow> posts_of st g' obs posts \<Longrightarrow> posts_of st g (ob # obs) (post # posts)"

inductive_simps posts_of_simps [simp]: "posts_of st g [] posts" "posts_of st g (ob # obs) posts"

section \<open>The loop goes on\<close>

text \<open>The state of a turn, with or without eBPF.\<close>

definition posting :: "settings \<Rightarrow> nat \<Rightarrow> Pid \<Rightarrow> duration \<Rightarrow> Warp10Exporter \<times> (warp10_Data list \<times> bool) list \<Rightarrow> bool" where
  "posting st n me now s \<longleftrightarrow> ready st n me now (we_metric_generator (fst s)) \<and> timed n (mg_topology (we_metric_generator (fst s)))"

lemma clean_terminated_timed: "timed n (mg_topology g) \<Longrightarrow> timed n (mg_topology (clean_terminated g))"
  using clean_terminated_vectors [of _ "topo_proc_tracker (mg_topology g)"]
  by (fastforce simp: clean_terminated_def Let_def timed_def)

lemma warp10_data_eq:
  "warp10_data e m = \<lparr>wd_time = e_now e, wd_name = m_name m, wd_labels = m_attributes m,
     wd_value = filter (\<lambda>c. c \<noteq> CHR ''`'') (MetricValueType_fmt (m_metric_value m))\<rparr>"
proof -
  have "replace_char c [] s = filter (\<lambda>x. x \<noteq> c) s" for c s by (induction s) (simp_all add: replace_char_def)
  then show ?thesis by (simp add: warp10_data_def)
qed

abbreviation warp10_observes :: "nat \<Rightarrow> Pid \<Rightarrow> duration \<Rightarrow> duration \<Rightarrow> warp10_observation \<Rightarrow> bool" where
  "warp10_observes n me now lt obs \<equiv>
     turn_observes n me now lt (fst (snd obs)) \<and> times_observed n (sub_world 1 (fst (snd obs)))"

lemma turn_ok:
  assumes s: "posting st n me now s" and w: "warp10_observes n me now lt obs"
  shows "\<exists>we' post. Warp10Exporter_turn st obs s = Inr (we', snd s @ [post]) \<and> posting st n me lt (we', snd s @ [post]) \<and>
    turn_posts st obs (we_metric_generator (fst s)) (we_metric_generator we') post"
proof -
  let ?w = "fst (snd obs)" and ?cs = "snd (snd obs)" and ?g = "we_metric_generator (fst s)"
  obtain g where g: "refresh_topology st (sub_world 1 ?w) (clean_terminated ?g) = Inr g" "ready st n me lt g"
    using refresh_topology_ready [OF clean_terminated_ready] s w unfolding posting_def by blast
  have t: "timed n (mg_topology g)"
    using refresh_topology_timed [OF g(1)] clean_terminated_timed s w by (auto simp: posting_def)
  then have "core_times_ok (mg_topology g)" using timed_core_times g(2) by (auto simp: ready_def)
  then obtain g1 ms where g1: "gen_all_metrics (st_version st) (st_regexes st) ?cs (sub_world 2 ?w) g = Inr g1"
    "pop_metrics g1 = (ms, g1\<lparr>mg_data := []\<rparr>)" "ms \<noteq> []" "ready st n me lt (g1\<lparr>mg_data := []\<rparr>)" "mg_topology g1 = mg_topology g"
    using gen_and_pop_ready [OF g(2)] w by blast
  have ms: "ms = rev (mg_data g1)" using g1(2) by (simp add: pop_metrics_def pop_loop_rev)
  let ?data = "map (\<lambda>(i, m). warp10_data (?w [3, i]) m) (enumerate 0 ms)"
  have it: "Warp10Exporter_iterate st (fst obs) ?cs ?w (fst s) = Inr ((fst s)\<lparr>we_metric_generator := g1\<lparr>mg_data := []\<rparr>\<rparr>, ?data, fst obs ?data)"
    unfolding Warp10Exporter_iterate_def g(1) g1(1) bind_res_simps g1(2) Let_def prod.case ..
  have "turn_posts st obs ?g (g1\<lparr>mg_data := []\<rparr>) (?data, fst obs ?data)"
    unfolding turn_posts_def case_prod_unfold Let_def fst_conv snd_conv
    using g g1(1,3) by (intro exI [of _ g] exI [of _ g1]) (simp add: ms warp10_data_eq ready_def)
  then show ?thesis using it g1(4,5) t
    by (intro exI [of _ "(fst s)\<lparr>we_metric_generator := g1\<lparr>mg_data := []\<rparr>\<rparr>"] exI [of _ "(?data, fst obs ?data)"])
      (simp add: Warp10Exporter_turn_def posting_def)
qed

interpretation warp10: steady "posting st n me" "warp10_observes n me" "Warp10Exporter_turn st" for st n me
  by unfold_locales (use turn_ok in blast)

lemma turns_post:
  assumes "posting st n me now s" "allowed_run (warp10_observes n me) now obs lt"
    and "fold_res (Warp10Exporter_turn st) obs s = Inr s'"
  shows "\<exists>posts. snd s' = snd s @ posts \<and> posts_of st (we_metric_generator (fst s)) obs posts"
  using assms
proof (induction obs arbitrary: now s)
  case (Cons ob obs)
  obtain m where m: "warp10_observes n me now m ob" "allowed_run (warp10_observes n me) m obs lt" using Cons.prems(2) by auto
  obtain we' post where t: "Warp10Exporter_turn st ob s = Inr (we', snd s @ [post])" "posting st n me m (we', snd s @ [post])"
    "turn_posts st ob (we_metric_generator (fst s)) (we_metric_generator we') post"
    using turn_ok [OF Cons.prems(1) m(1)] by blast
  then obtain posts where "snd s' = snd s @ post # posts" "posts_of st (we_metric_generator we') obs posts"
    using Cons.IH [OF t(2) m(2)] Cons.prems(3) by auto
  then show ?case using posts_of.turn [OF t(3)] by blast
qed simp

lemma posts_of_length: "posts_of st g obs posts \<Longrightarrow> length posts = length obs"
  by (induction rule: posts_of.induct) simp_all

lemma posts_of_answers:
  "posts_of st g obs posts \<Longrightarrow> list_all2 (\<lambda>ob (data, ok). data \<noteq> [] \<and> ok = fst ob data) obs posts"
proof (induction rule: posts_of.induct)
  case (turn ob g g' post obs posts)
  have "enumerate 0 ms \<noteq> []" if "ms \<noteq> []" for ms :: "Metric list" using that by (cases ms) simp_all
  then show ?case using turn unfolding turn_posts_def by (auto simp: case_prod_unfold Let_def)
qed simp

end
