(* ===== verification/Command_Line.thy ===== *)
theory Command_Line
  imports Powercap Bpf Prometheus Qemu Json Stdout Riemann Warp10
begin

text \<open>
  \<open>main.rs\<close>, as it is built for Linux, with the constructors of the exporters that have no theory of
  their own state: from the arguments, which clap has parsed, to the exporter that is about to run. The
  logger, the runtime, the answers of aya and the colours of the header are parameters.
\<close>

section \<open>Arguments\<close>

record prometheus_ExporterArgs =
  pa_address :: string
  pa_port :: u16
  pa_suffix :: string
  pa_qemu :: bool
  pa_containers :: bool

record prometheuspush_ExporterArgs =
  pp_host :: string
  pp_port :: u16
  pp_suffix :: string
  pp_scheme :: string
  pp_step :: u64
  pp_qemu :: bool
  pp_containers :: bool
  pp_job :: string
  pp_no_tls_check :: bool

datatype ExporterChoice =
    Choose_Stdout stdout_ExporterArgs
  | Choose_Json json_ExporterArgs
  | Choose_Prometheus prometheus_ExporterArgs
  | Choose_Qemu
  | Choose_Riemann riemann_ExporterArgs
  | Choose_Warpten warp10_ExporterArgs
  | Choose_PrometheusPush prometheuspush_ExporterArgs

record Cli =
  cli_exporter :: ExporterChoice
  cli_verbose :: u8
  cli_no_header :: bool
  cli_vm :: bool
  cli_sensor :: "string option"
  cli_sensor_buffer_per_domain_max_kb :: u16
  cli_sensor_buffer_per_socket_max_kb :: u16

section \<open>Exporters\<close>

record PrometheusExporter =
  pe_topo :: Topology
  pe_hostname :: string
  pe_args :: prometheus_ExporterArgs

record PrometheusPushExporter =
  ppe_topo :: Topology
  ppe_hostname :: string
  ppe_args :: prometheuspush_ExporterArgs

definition PrometheusExporter_new :: "Topology option \<Rightarrow> string \<Rightarrow> prometheus_ExporterArgs \<Rightarrow> PrometheusExporter res" where
  "PrometheusExporter_new topology hostname args =
     map_res (\<lambda>topo. \<lparr>pe_topo = topo, pe_hostname = hostname, pe_args = args\<rparr>)
       (expect_opt ''sensor topology should be available'' topology)"

definition PrometheusPushExporter_new :: "Topology option \<Rightarrow> string \<Rightarrow> prometheuspush_ExporterArgs \<Rightarrow> PrometheusPushExporter res" where
  "PrometheusPushExporter_new topology hostname args =
     map_res (\<lambda>topo. \<lparr>ppe_topo = topo, ppe_hostname = hostname, ppe_args = args\<rparr>)
       (expect_opt ''sensor topology should be available'' topology)"

definition push_uri :: "PrometheusPushExporter \<Rightarrow> string" where
  "push_uri ppe =
     (let args = ppe_args ppe
      in pp_scheme args @ ''://'' @ pp_host args @ '':'' @ show_u16 (pp_port args) @ ''/'' @ pp_suffix args
           @ ''/job/'' @ pp_job args @ ''/instance/'' @ ppe_hostname ppe)"

definition QemuExporter_new :: "Topology option \<Rightarrow> Topology res" where
  "QemuExporter_new topology = expect_opt ''sensor topology should be available'' topology"

datatype exporter =
    Run_Stdout StdoutExporter
  | Run_Json JsonExporter
  | Run_Prometheus PrometheusExporter
  | Run_Qemu Topology
  | Run_Riemann RiemannExporter
  | Run_Warpten Warp10Exporter
  | Run_PrometheusPush PrometheusPushExporter

fun Exporter_kind :: "exporter \<Rightarrow> string" where
  "Exporter_kind (Run_Stdout _) = ''stdout''"
| "Exporter_kind (Run_Json _) = ''json''"
| "Exporter_kind (Run_Prometheus _) = ''prometheus''"
| "Exporter_kind (Run_Qemu _) = ''qemu''"
| "Exporter_kind (Run_Riemann _) = ''riemann''"
| "Exporter_kind (Run_Warpten _) = ''warp10''"
| "Exporter_kind (Run_PrometheusPush _) = ''prometheuspush''"

section \<open>Start\<close>

text \<open>What the start of the program finds outside.\<close>

record start_env =
  se_logger :: bool
  se_runtime :: bool
  se_aya :: aya
  se_powercap_path :: "string option"
  se_hostname :: string
  se_services :: container_services
  se_can_create :: "string \<Rightarrow> bool"
  se_connect_tls :: "string \<Rightarrow> u16 \<Rightarrow> string \<Rightarrow> string \<Rightarrow> string \<Rightarrow> bool"
  se_connect :: "string \<Rightarrow> u16 \<Rightarrow> bool"
  se_client_new :: "string \<Rightarrow> bool"
  se_env_var :: "string \<Rightarrow> string option"
  se_red_bold :: "string \<Rightarrow> string"

definition build_exporter :: "start_env \<Rightarrow> ExporterChoice \<Rightarrow> Topology option \<Rightarrow> exporter res" where
  "build_exporter se choice topology =
     (case choice of
        Choose_Stdout args \<Rightarrow> map_res Run_Stdout (StdoutExporter_new (se_services se) topology (se_hostname se) args)
      | Choose_Json args \<Rightarrow>
          map_res Run_Json (JsonExporter_new (se_services se) topology (se_hostname se) (se_can_create se) args)
      | Choose_Prometheus args \<Rightarrow> map_res Run_Prometheus (PrometheusExporter_new topology (se_hostname se) args)
      | Choose_Qemu \<Rightarrow> map_res Run_Qemu (QemuExporter_new topology)
      | Choose_Riemann args \<Rightarrow>
          map_res Run_Riemann (RiemannExporter_new (se_services se) topology (se_hostname se) (se_connect_tls se) (se_connect se) args)
      | Choose_Warpten args \<Rightarrow>
          map_res Run_Warpten (Warp10Exporter_new (se_services se) topology (se_hostname se) (se_client_new se) (se_env_var se) args)
      | Choose_PrometheusPush args \<Rightarrow>
          map_res Run_PrometheusPush (PrometheusPushExporter_new topology (se_hostname se) args))"

definition build_sensor :: "start_env \<Rightarrow> Cli \<Rightarrow> PowercapRAPLSensor res" where
  "build_sensor se cli =
     (let rapl_sensor = PowercapRAPLSensor_new (se_powercap_path se) (cli_sensor_buffer_per_socket_max_kb cli)
            (cli_sensor_buffer_per_domain_max_kb cli) (cli_vm cli)
      in case cli_sensor cli of
           Some s \<Rightarrow>
             if s = ''powercap_rapl'' then Inr rapl_sensor
             else if s = ''msr'' then Inl (Explicit_Panic (''Invalid sensor: Scaphandre'' @ [CHR 0x27] @ ''s msr only works on Windows''))
             else Inl (Explicit_Panic (''Unknown sensor type '' @ s))
         | None \<Rightarrow> Inr rapl_sensor)"

definition print_scaphandre_header :: "start_env \<Rightarrow> string \<Rightarrow> string" where
  "print_scaphandre_header se exporter_name =
     println (se_red_bold se (''Scaphandre '' @ exporter_name @ '' exporter''))
     @ println (''Sending '' @ [CHR 0xE2, CHR 0x9A, CHR 0xA1] @ '' metrics'')"

text \<open>Everything up to the call of \<open>run\<close>, with what was printed.\<close>

definition parse_cli_and_run_exporter ::
  "powercap_regexes \<Rightarrow> string list option \<Rightarrow> bpf_object option \<Rightarrow> world \<Rightarrow> start_env \<Rightarrow> Cli \<Rightarrow> (string \<times> exporter) res" where
  "parse_cli_and_run_exporter re modules ebpf w se cli =
     bind_res (if se_logger se then Inr () else Inl (Expect_Failed ''unable to initialize the logger'')) (\<lambda>_.
     bind_res (if se_runtime se then Inr () else Inl (Expect_Failed ''failed to build tokio runtime'')) (\<lambda>_.
     bind_res (bind_res (load (se_aya se) (w [3])) (expect_opt ''failed to load eBPF program'')) (\<lambda>_.
     bind_res (build_sensor se cli) (\<lambda>sensor.
     bind_res (bind_res (get_topology re modules ebpf w sensor) (build_exporter se (cli_exporter cli))) (\<lambda>exporter.
       Inr (if cli_no_header cli then [] else print_scaphandre_header se (Exporter_kind exporter), exporter))))))"

lemma start_cases:
  assumes "parse_cli_and_run_exporter re modules ebpf w se cli = Inr (out, ex)"
  obtains sn topo where "build_sensor se cli = Inr sn" "generate_topology re modules ebpf w sn = Inr topo"
    "build_exporter se (cli_exporter cli) (Some topo) = Inr ex"
  using assms by (auto simp: parse_cli_and_run_exporter_def bind_res_eq_Inr get_topology_def map_res_def)

end
