(* ===== verification/Windows_Start.thy ===== *)
theory Windows_Start
  imports Msr_Rapl Command_Line
begin

text \<open>
  The parts of \<open>main.rs\<close> and \<open>lib.rs\<close> that only the Windows build has: the choice of the sensor and the
  service that runs the exporter in a thread and waits for the system to ask it to stop. The system is
  outside: whether it registers the handler, accepts a status and how the thread ends.
\<close>

section \<open>The sensor\<close>

definition build_sensor_windows :: "msr_consts \<Rightarrow> win \<Rightarrow> Cli \<Rightarrow> MsrRAPLSensor res" where
  "build_sensor_windows k x cli =
     (case cli_sensor cli of
        Some s \<Rightarrow>
          if s = ''powercap_rapl''
          then Inl (Explicit_Panic (''Invalid sensor: Scaphandre'' @ [CHR 0x27] @ ''s powercap_rapl only works on Linux''))
          else if s = ''msr'' then Inr (MsrRAPLSensor_new k x)
          else Inl (Explicit_Panic (''Unknown sensor type '' @ s))
      | None \<Rightarrow> Inr (MsrRAPLSensor_new k x))"

definition get_default_sensor_windows :: "msr_consts \<Rightarrow> win \<Rightarrow> MsrRAPLSensor" where
  "get_default_sensor_windows k x = MsrRAPLSensor_new k x"

section \<open>The service\<close>

datatype ServiceType = OWN_PROCESS
datatype ServiceState = Running | StopPending | Stopped
datatype ServiceControl = Stop_Control | Interrogate | Other_Control
datatype ServiceControlHandlerResult = NoError | NotImplemented

record ServiceStatus =
  ss_service_type :: ServiceType
  ss_current_state :: ServiceState
  ss_accepts_stop :: bool
  ss_exit_code :: u32
  ss_checkpoint :: u32
  ss_wait_hint :: duration
  ss_process_id :: "u32 option"

definition graceful_period :: u64 where
  "graceful_period = 3"

definition start_status :: ServiceStatus where
  "start_status = \<lparr>ss_service_type = OWN_PROCESS, ss_current_state = Running, ss_accepts_stop = True, ss_exit_code = 0,
     ss_checkpoint = 0, ss_wait_hint = Duration 0 0, ss_process_id = None\<rparr>"

definition stop_status :: ServiceStatus where
  "stop_status = \<lparr>ss_service_type = OWN_PROCESS, ss_current_state = Stopped, ss_accepts_stop = True, ss_exit_code = 0,
     ss_checkpoint = 0, ss_wait_hint = Duration 0 0, ss_process_id = None\<rparr>"

definition stoppending_status :: ServiceStatus where
  "stoppending_status = \<lparr>ss_service_type = OWN_PROCESS, ss_current_state = StopPending, ss_accepts_stop = True,
     ss_exit_code = 0, ss_checkpoint = 0, ss_wait_hint = Duration graceful_period 0, ss_process_id = None\<rparr>"

text \<open>
  \<open>_stop\<close> is a \<open>bool\<close> and the handler a \<open>move\<close> closure: the handler owns a copy, made when it was created,
  and its assignment goes to the copy. \<open>sv_stop\<close> is the variable of \<open>my_service_main\<close>, \<open>sv_handler_stop\<close>
  the copy.
\<close>

record service =
  sv_stop :: bool
  sv_handler_stop :: bool
  sv_thread :: bool
  sv_status :: "ServiceStatus option"
  sv_returned :: bool

definition event_handler :: "ServiceControl \<Rightarrow> service \<Rightarrow> ServiceControlHandlerResult \<times> service" where
  "event_handler control_event sv =
     (case control_event of
        Stop_Control \<Rightarrow> (NoError, sv\<lparr>sv_handler_stop := True\<rparr>)
      | Interrogate \<Rightarrow> (NoError, sv)
      | Other_Control \<Rightarrow> (NotImplemented, sv))"

definition status_panic :: "string \<Rightarrow> panic" where
  "status_panic e = Explicit_Panic (''Couldn'' @ [CHR 0x27] @ ''t set Windows service status. Error: '' @ e)"

text \<open>The part before the loop; \<open>set_status\<close> is the answer of the system, \<open>Some\<close> for an error.\<close>

definition start_service :: "bool \<Rightarrow> (ServiceStatus \<Rightarrow> string option) \<Rightarrow> service res" where
  "start_service registered set_status =
     (if registered then
        (case set_status start_status of
           None \<Rightarrow> Inr \<lparr>sv_stop = False, sv_handler_stop = False, sv_thread = True, sv_status = Some start_status,
                        sv_returned = False\<rparr>
         | Some e \<Rightarrow> Inl (status_panic e))
      else Inl (Explicit_Panic ''Failed getting system_handle.''))"

text \<open>One turn of the loop; \<open>joined\<close> says whether the thread of the exporter ended without a panic.\<close>

definition service_turn :: "(ServiceStatus \<Rightarrow> string option) \<Rightarrow> bool \<Rightarrow> service \<Rightarrow> service res" where
  "service_turn set_status joined sv =
     (if sv_stop sv then
        (case set_status stoppending_status of
           None \<Rightarrow>
             (if sv_thread sv then
                (if joined then
                   (case set_status stop_status of
                      None \<Rightarrow> Inr (sv\<lparr>sv_thread := False, sv_status := Some stop_status, sv_returned := True\<rparr>)
                    | Some e \<Rightarrow> Inl (Explicit_Panic (''Could'' @ [CHR 0x27] @ ''nt set Stop status on scaphandre service: '' @ e)))
                 else Inl (Explicit_Panic ''Joining the thread failed.''))
              else Inl (Explicit_Panic ''Thread handle was not initialized.''))
         | Some e \<Rightarrow> Inl (status_panic e))
      else Inr sv)"

text \<open>
  The service as a transition system: the system may call the handler at any moment, the loop turns as long
  as the function has not returned.
\<close>

datatype service_event = Control ServiceControl | Turn "ServiceStatus \<Rightarrow> string option" bool

inductive service_step :: "service \<Rightarrow> service_event \<Rightarrow> service res \<Rightarrow> bool" where
  control: "event_handler c sv = (answer, sv') \<Longrightarrow> service_step sv (Control c) (Inr sv')"
| turn: "\<not> sv_returned sv \<Longrightarrow> service_turn set_status joined sv = r \<Longrightarrow> service_step sv (Turn set_status joined) r"

inductive_cases service_stepE: "service_step sv ev r"

inductive service_run :: "service \<Rightarrow> service_event list \<Rightarrow> service res \<Rightarrow> bool" where
  run_nil: "service_run sv [] (Inr sv)"
| run_step: "service_step sv ev (Inr sv1) \<Longrightarrow> service_run sv1 evs r \<Longrightarrow> service_run sv (ev # evs) r"
| run_panic: "service_step sv ev (Inl p) \<Longrightarrow> service_run sv (ev # evs) (Inl p)"

definition waiting :: "service \<Rightarrow> bool" where
  "waiting sv \<longleftrightarrow> \<not> sv_stop sv \<and> sv_thread sv \<and> sv_status sv = Some start_status \<and> \<not> sv_returned sv"

lemma service_step_waiting:
  assumes "service_step sv ev r" "waiting sv"
  shows "\<exists>sv'. r = Inr sv' \<and> waiting sv'"
  using assms
  by (auto elim!: service_stepE simp: event_handler_def service_turn_def waiting_def split: ServiceControl.splits)

lemma service_run_waiting:
  assumes "service_run sv evs r" "waiting sv"
  shows "\<exists>sv'. r = Inr sv' \<and> waiting sv' \<and> (sv_handler_stop sv' \<longleftrightarrow> sv_handler_stop sv \<or> Control Stop_Control \<in> set evs)"
  using assms
proof (induction rule: service_run.induct)
  case (run_step sv ev sv1 evs r)
  have "waiting sv1" using service_step_waiting [OF run_step(1,4)] by simp
  moreover have "sv_handler_stop sv1 \<longleftrightarrow> sv_handler_stop sv \<or> ev = Control Stop_Control"
    using run_step(1,4)
    by (auto elim!: service_stepE simp: event_handler_def service_turn_def waiting_def split: ServiceControl.splits)
  ultimately show ?case using run_step.IH by auto
next
  case (run_panic sv ev p evs)
  then show ?case using service_step_waiting by blast
qed simp

lemma service_run_exists: "waiting sv \<Longrightarrow> \<exists>r. service_run sv evs r"
proof (induction evs arbitrary: sv)
  case (Cons ev evs)
  obtain r where r: "service_step sv ev r"
  proof (cases ev)
    case (Control c)
    then show ?thesis using that service_step.control by (metis surj_pair)
  next
    case (Turn st j)
    then show ?thesis using that service_step.turn [OF _ refl] Cons.prems unfolding waiting_def by blast
  qed
  then obtain sv1 where "r = Inr sv1" "waiting sv1" using service_step_waiting Cons.prems by blast
  then show ?case using r Cons.IH run_step by blast
qed (auto intro: run_nil)

section \<open>Properties\<close>

text \<open>
  C40. The service cannot be stopped. Whatever the system asks and however often the loop turns, a started
  service stays in the state running: its function does not return, the thread of the exporter is not
  joined, neither of the two other states is announced, and nothing panics. When the system asked it to stop,
  the handler answered that this worked and only its own copy of the flag is set.
\<close>

theorem service_never_stops:
  assumes "start_service registered set_status = Inr sv"
  shows "(\<exists>r. service_run sv evs r) \<and>
    (\<forall>r. service_run sv evs r \<longrightarrow>
       (\<exists>sv'. r = Inr sv' \<and> \<not> sv_returned sv' \<and> sv_thread sv' \<and> sv_status sv' = Some start_status \<and>
          (sv_handler_stop sv' \<longleftrightarrow> Control Stop_Control \<in> set evs))) \<and>
    fst (event_handler Stop_Control sv) = NoError"
proof -
  have "waiting sv" "\<not> sv_handler_stop sv"
    using assms by (auto simp: start_service_def waiting_def split: if_splits option.splits)
  then show ?thesis using service_run_exists service_run_waiting
    by (fastforce simp: waiting_def event_handler_def)
qed

theorem service_never_stops_witness:
  "\<exists>sv sv'. start_service True (\<lambda>_. None) = Inr sv \<and>
     service_run sv [Control Stop_Control, Turn (\<lambda>_. None) True, Turn (\<lambda>_. None) True] (Inr sv') \<and>
     \<not> sv_returned sv' \<and> sv_status sv' = Some start_status \<and> sv_handler_stop sv'"
proof -
  obtain sv where "start_service True (\<lambda>_. None) = Inr sv" by (simp add: start_service_def)
  then show ?thesis
    using service_never_stops [of True "\<lambda>_. None" sv "[Control Stop_Control, Turn (\<lambda>_. None) True, Turn (\<lambda>_. None) True]"]
    by fastforce
qed

end
