(* ===== verification/Spec2Isabelle.thy ===== *)
theory Spec2Isabelle
  imports Units Containers Ebpf Windows_Start
begin

text \<open>
  \<^bold>\<open>Scaphandre\<close> measures the energy a host consumes and shares it out among CPU cores, processes and
  virtual machines. This library models the program, the Linux build and what the Windows build has in
  addition, and proves what its parts promise one another.

  \<^bold>\<open>The program.\<close> A sensor (\<open>sensors/powercap_rapl.rs\<close>) walks the powercap tree of the kernel and builds
  a \<open>Topology\<close> (\<open>sensors/mod.rs\<close>): sockets with their RAPL domains and cores, and a process tracker
  (\<open>sensors/utils.rs\<close>). Every refresh of the topology reads the energy counters, the per-core registers,
  \<open>/proc/stat\<close> and the process table into bounded buffers. Kernel programs (\<open>scaphandre-ebpf\<close>, loaded by
  \<open>bpf.rs\<close>) count the time of every process on every CPU and send an event when a socket is idle or has
  one active CPU; from these events a socket learns its background power, which is taken off its power.
  The getters of the topology turn two records into power, share the power of a socket among its cores
  and the power of the cores among processes. Exporters (\<open>exporters/\<close>) refresh the topology, turn it into
  metrics (\<open>exporters/mod.rs\<close>) and serve, push or write them. On Windows another sensor (\<open>sensors/msr_rapl.rs\<close>) asks a
  driver for the energy registers, and \<open>main.rs\<close> runs the exporter inside a service.

  \<^bold>\<open>The theories\<close>, in the order they build on one another:
  \<^item> \<open>Prelude\<close>: machine words, panics as the left side of a sum, loops that may panic, hash maps as the
    list of their entries, durations, sorting, and the locale \<open>steady\<close> of machines that never stop.
  \<^item> \<open>Rust_Float\<close>, \<open>Float_Sum\<close>: \<open>f32\<close> and \<open>f64\<close> as rationals with correct rounding, overflow, infinities
    and NaN; error bounds, monotonicity and sums of shares.
  \<^item> \<open>Rust_Text\<close>, \<open>Float_Text\<close>: the string functions the sources call; printing and parsing of integers
    and floats, with round trips (the sensors keep every measurement as text).
  \<^item> \<open>Units\<close> (\<open>sensors/units.rs\<close>): units and their conversion.
  \<^item> \<open>Environment\<close>: everything read from outside, as a record of observations, and \<open>world\<close>, which gives
    the observation of every read of an operation by its place in the calls.
  \<^item> \<open>Records\<close>: records, CPU statistics and the cleaning of buffers; locale \<open>record_generator\<close> is the
    contract of a bounded buffer: it holds the window of the newest records.
  \<^item> \<open>Domain\<close>, \<open>Core\<close>, \<open>Socket\<close> (\<open>sensors/mod.rs\<close>): the three kinds of counters, each an
    interpretation of the buffer contract; power across a wrap of the counter, the metrics of a core, the
    learning of idle and activation power, and the shares of the cores.
  \<^item> \<open>Process_Tracker\<close> (\<open>sensors/utils.rs\<close>): histories of processes; locale \<open>pid_store\<close> is what the
    topology relies on (a lookup after an addition, an invariant every operation keeps).
  \<^item> \<open>Containers\<close> (\<open>sensors/utils.rs\<close>): labels of processes that run in containers.
  \<^item> \<open>Bpf\<close> (\<open>bpf.rs\<close>, \<open>sensors/mod.rs\<close>): loading and attaching of the kernel programs, with the errors
    and panics that follow from the answers of aya (record \<open>aya\<close>), and decoding of their events.
  \<^item> \<open>Ebpf\<close> (\<open>scaphandre-ebpf/src/main.rs\<close>): the kernel programs on the maps they share, as steps with
    reachable states; the balance of the CPU times.
  \<^item> \<open>Topology\<close>, \<open>Topology_Refresh\<close>, \<open>Topology_Power\<close> (\<open>sensors/mod.rs\<close>): the host, its refresh and the
    invariant \<open>topology_wf\<close> it keeps, the delivery of events, and the power of host, cores and processes.
  \<^item> \<open>Powercap\<close> (\<open>sensors/powercap_rapl.rs\<close>): the topology built from the powercap tree.
  \<^item> \<open>Export_Utils\<close>, \<open>Metrics\<close> (\<open>exporters/utils.rs\<close>, \<open>exporters/mod.rs\<close>): the metrics and their text,
    with a reference parser for samples: the grammar of the exposition format, names, escapes in quoted
    values, the number and the end of the line included.
  \<^item> \<open>Exporter_Loop\<close>: what the loops of the exporters share: the refresh and the cleaning that open a
    turn, the loop with a time limit, the conditions under which turns go on, and that a loop with a
    limit ends.
  \<^item> \<open>Metric_Reader\<close>: searches over the metrics of a turn, whose tests may panic, and what the metrics of
    a collection promise the exporters that read them back.
  \<^item> \<open>Prometheus\<close> (\<open>exporters/prometheus.rs\<close>, \<open>exporters/prometheuspush.rs\<close>), \<open>Qemu\<close> (\<open>exporters/qemu.rs\<close>),
    \<open>Json\<close> (\<open>exporters/json.rs\<close>), \<open>Stdout\<close> (\<open>exporters/stdout.rs\<close>) and \<open>Warp10\<close> (\<open>exporters/warpten.rs\<close>):
    exporters as interpretations of \<open>steady\<close>.
  \<^item> \<open>Riemann\<close> (\<open>exporters/riemann.rs\<close>): events made of metrics; its turns stop at a value that is no
    number of an event, so that it is no interpretation of \<open>steady\<close>.
  \<^item> \<open>Command_Line\<close> (\<open>main.rs\<close>): the choice of the sensor and the exporter and the start of the program.
  \<^item> \<open>Msr_Rapl\<close> (\<open>sensors/msr_rapl.rs\<close>): the Windows sensor. \<open>msr_consts\<close> holds the constants of the packages
    it uses, \<open>win\<close> an observation of Windows, the driver and \<open>cpuid\<close>, \<open>windows\<close> the observations of an
    operation; the readers, the exploration of the CPUs as a loop that may not end, the domains.
  \<^item> \<open>Windows_Start\<close> (\<open>main.rs\<close>, \<open>lib.rs\<close>): the choice of that sensor, and the service as a transition
    system of control events and turns of its loop.
  \<^item> This theory: properties that span the command line, the sensor, the topology and the exporters.

  \<^bold>\<open>How the model reads.\<close> A struct is a record with the fields of the source, a method is a definition
  that returns the updated record. A call that can panic returns \<open>Inl\<close> of the reason. Integers are
  words of their width and wrap, as in the release profile, which leaves overflow checks off. The size in
  memory of a record (\<open>rsz\<close>), of a multi-valued record (\<open>mrsz\<close>) and of a CPU statistic (\<open>ssz\<close>) depends on
  the compiler and is a parameter; \<open>size_ok\<close> bounds it so that the \<open>f32\<close> and \<open>u16\<close> arithmetic of the
  cleaning is exact. Hash maps are lists of entries in the order of iteration, which Rust leaves open.
  Code of other crates (sysinfo, procfs, aya, regex, docker, kubernetes) is a field of an observation or
  an argument. Logging is left out.

  \<^bold>\<open>Bounds.\<close> The printing of floats searches digits up to a fuel that covers the exponents of the format,
  and the search is proved to succeed before it runs out. The loop of the Windows sensor
  over the sockets is a partial function into options, since it may not end: it is shown to return on
  regular machines, and not to return when \<open>cpuid\<close> reports no processors. All other loops are structural
  or have a termination proof. The model of the kernel side has the array sizes of the sources.

  \<^bold>\<open>What is shown.\<close> Power is energy over time across counter wraps, at any timestamps and up to the
  rounding of the times, net of the background that was learned (\<open>Domain\<close>, \<open>Socket\<close>, \<open>Topology_Power\<close>); shares are between zero and one and add up (\<open>Socket\<close>,
  \<open>Topology_Power\<close>); buffers and histories stay bounded and ordered (\<open>Records\<close>, \<open>Process_Tracker\<close>,
  \<open>Topology_Refresh\<close>); CPU time is neither lost nor invented by the kernel programs (\<open>Ebpf\<close>); events reach
  their socket (\<open>Topology_Refresh\<close>); the samples served parse back, under stated conditions on the
  label names and values that come from outside (\<open>Export_Utils\<close>, here); refreshes
  and exporters go on for ever, or end when their time is up, under stated conditions on what is observed
  (\<open>Topology_Refresh\<close>, \<open>Prometheus\<close>, \<open>Qemu\<close>, \<open>Json\<close>, \<open>Stdout\<close>, \<open>Warp10\<close>, here); a report holds the
  processes selected (\<open>Json\<close>), and a post the metrics of its turn (\<open>Warp10\<close>); the state tick runs on the
  first online CPU of every socket (\<open>Bpf\<close>); the energies of the Windows sensor are exact although they go through
  floats and text, and the topology it builds is known socket by socket (\<open>Msr_Rapl\<close>). Several theorems state behaviour that is surprising: a learned idle power
  that alternates, a sleeping core that makes every share of its socket NaN, a second thread charged
  since boot, an exporter that never sees background power, a clock that goes back and silences it, a
  report with one socket of many, resources lost to the order of a hash map, a NaN that stops Riemann, a
  register that wraps and is charged as almost \<open>2 ^ 64\<close> microjoules, a service that cannot be stopped.

  \<^bold>\<open>Not modelled\<close>: \<open>vmlinux.rs\<close>, which is generated from the headers of a kernel and holds type
  declarations only; the build scripts, of which nothing runs in the program; the text the debugger prints
  for a value; and the parsing of the command line, the HTTP servers and clients, serialization, the
  verifier and the loader of eBPF objects, the task that forwards their log, the Windows API and the regular expressions,
  which belong to other crates.
\<close>

section \<open>From the sensor to the responses\<close>

text \<open>
  C10. The samples served for Prometheus read back with a parser of the exposition format. A metric
  collected gives a text from which the parser recovers its name, all its labels, in order, with the
  values meant to be sent (quotes replaced, backslashes dropped), and the number, whatever the command
  line of the process holds, line feeds included. The conditions: the names of the labels of containers
  are, after the replacements made in them, of letters, digits and underscores; no other label value
  than the command line holds a line feed; and the value is a number, possibly followed by line feeds
  as the text of a counter file is.
\<close>

theorem served_samples_read_back:
  assumes "gen_all_metrics version re cs w g = Inr g'" "mg_data g = []" "labels_clean (mg_containers g)"
    and "\<And>i c. cs_get_containers (cs i) = Some c \<Longrightarrow> labels_clean c" "m \<in> set (mg_data g')"
    and "\<forall>(k, v) \<in> set (m_attributes m). k \<noteq> ''cmdline'' \<longrightarrow> CHR 0x0A \<notin> set v"
    and "MetricValueType_fmt (m_metric_value m) = tok @ replicate n (CHR 0x0A)" "sample_number tok"
  shows "parse_sample (sample_line m) =
    Some (m_name m, map (\<lambda>(k, v). (k, label_value v)) (m_attributes m), tok)"
proof -
  have "metric_ok m" using gen_all_metrics_names [OF assms(1) _ assms(3,4)] assms(2,5) by (auto simp: list_all_iff)
  then have "name_ok (m_name m)" "list_all label_ok (m_attributes m)"
    using assms(6) by (fastforce simp: metric_ok_def keys_ok_def list_all_iff)+
  then show ?thesis unfolding sample_line_def assms(7) using assms(8) by (rule parse_format)
qed

lemma served_samples_read_back_witness:
  "\<exists>g' m. gen_all_metrics ''1.0.0'' (st_regexes example_settings) (\<lambda>_. example_services) (\<lambda>_. example_observer)
      (MetricGenerator_new example_services (Topology_clone example_observer example_topology) ''host'' False False) = Inr g' \<and>
    m \<in> set (mg_data g') \<and>
    parse_sample (sample_line m) = Some (''scaph_self_socket_stats_nb'', [(''socket_id'', ''0'')], ''0'')"
proof -
  let ?t = "Topology_clone example_observer example_topology"
  let ?g = "MetricGenerator_new example_services ?t ''host'' False False"
  have "hm_get (sys_processes (pt_sysinfo (topo_proc_tracker ?t))) 7 = Some example_sysinfo_process"
    by (simp add: Topology_clone_def ProcessTracker_clone_def example_observer_def)
  then have k: "knows_itself 7 ?t" by (auto simp: knows_itself_def example_sysinfo_process_def)
  have "topo_cpu_time_buffer ?t = []"
    by (simp add: Topology_clone_def example_topology_def safe_add_domain_to_socket_def safe_add_socket_def Topology_new_def
        build_domains_names_def Let_def)
  then have d: "\<exists>d. get_process_core_time_data ?t pid = Inr d" for pid
    using core_time_data_None [of ?t pid] by (simp add: get_cpu_time_diff_def last_two_short)
  have "reportable (e_current_pid example_observer) (mg_topology ?g)"
    using k d clone_wf [OF example_topology_wf, of example_observer]
    by (auto simp: reportable_def MetricGenerator_new_def topology_wf_def example_observer_def)
  moreover have g: "pods_checked ?g" "\<not> mg_kubernetes_client ?g" "mg_data ?g = []" "labels_clean (mg_containers ?g)"
    by (simp_all add: pods_checked_def MetricGenerator_new_def labels_clean_def)
  ultimately obtain g' where g': "gen_all_metrics ''1.0.0'' (st_regexes example_settings) (\<lambda>_. example_services) (\<lambda>_. example_observer) ?g = Inr g'"
    using gen_all_metrics_ok [of "\<lambda>_. example_observer" ?g "''1.0.0''" "st_regexes example_settings" "\<lambda>_. example_services"] by auto
  obtain s where s: "s \<in> set (topo_sockets (mg_topology ?g))" "sock_id s = 0" "sock_stat_buffer s = []"
    by (simp add: MetricGenerator_new_def Topology_clone_def example_topology_def safe_add_domain_to_socket_def
        safe_add_socket_def Topology_new_def build_domains_names_def CPUSocket_new_def CPUSocket_clone_def safe_add_domain_def Let_def)
  let ?m = "new_metric ''host'' ''scaph_self_socket_stats_nb'' ''gauge'' (e_now example_observer) [(''socket_id'', show_nat 0)]
    ''Number of CPUStat traces stored for each socket'' (IntUnsigned 0)"
  have "set (self_socket_metrics (mg_hostname ?g) (e_now example_observer) s) \<subseteq> set (mg_data g')"
    using gen_all_metrics_sockets [OF g' s(1)] .
  then have m: "?m \<in> set (mg_data g')"
    using s(2,3) by (simp add: self_socket_metrics_def MetricGenerator_new_def show_u16_def Let_def)
  have zero: "show_nat 0 = ''0''" "sample_number (show_nat 0)"
    using parse_f64_show_u64 [of 0] by (simp_all add: text_eval sample_number_def is_white_def show_u64_def)
  have "parse_sample (sample_line ?m) = Some (m_name ?m, map (\<lambda>(k, v). (k, label_value v)) (m_attributes ?m), show_nat 0)"
  proof (rule served_samples_read_back [where n = 0, OF g' g(3,4) _ m _ _ zero(2)])
    show "cs_get_containers example_services = Some c \<Longrightarrow> labels_clean c" for c by (simp add: example_services_def)
  qed (simp_all add: new_metric_def zero show_u64_def)
  moreover have "label_value ''0'' = ''0''" by (simp add: label_value_def replace_char_def)
  ultimately show ?thesis using g' m by (auto simp: new_metric_def zero)
qed

text \<open>
  C2. The exporter that the sensor feeds answers for ever: whatever topology the sensor generates from
  the powercap tree, once the Prometheus server runs on it, and as long as the clock does not go back
  and is before 2038, the program sees itself in the process table and the conditions of a refresh
  hold, every request of any sequence of requests gets one response, none of them is empty, no task
  panics and no lock is ever poisoned.
\<close>

theorem sensor_to_responses:
  assumes "size_ok (st_rsz st)" "size_ok (st_mrsz st)" "size_ok (st_ssz st)" "3 \<le> length (split_char CHR ''.'' (st_version st))"
    and "generate_topology re modules ebpf w sn = Inr topo" "generate_cpu_cores (w [2]) = Inr cores"
    and "\<forall>c \<in> set cores. unat (core_id c) < n"
    and "hm_get (sys_processes (e_system_new_all e)) me = Some p" "sp_exe p \<noteq> None"
    and "allowed_run (\<lambda>now lt req. collection_observes n me now lt (fst req)) (Duration 0 0) reqs lt"
  shows "\<exists>context bodies.
    fold_res (serve st) reqs (PrometheusExporter_run e cs topo hostname qemu containers, []) = Inr (context, bodies) \<and>
    length bodies = length reqs \<and> list_all (\<lambda>b. b \<noteq> []) bodies \<and> serving st n me lt context"
  using serves_from_start [OF assms(1-4) generate_topology_wf [OF assms(5-7)] _ assms(8-10)] generate_topology_fresh [OF assms(5)]
  by (simp add: fresh_def)

lemma sensor_to_responses_witness:
  "\<exists>topo context bodies.
    generate_topology example_regexes_powercap (Some [''intel_rapl'']) None (\<lambda>_. example_tree)
      (PowercapRAPLSensor_new None 1 1 False) = Inr topo \<and>
    fold_res (serve example_settings) [(\<lambda>_. example_observer, \<lambda>_. example_services, ''/metrics''),
        (\<lambda>_. example_observer, \<lambda>_. example_services, ''/'')]
      (PrometheusExporter_run example_observer example_services topo ''host'' False False, []) = Inr (context, bodies) \<and>
    length bodies = 2 \<and> list_all (\<lambda>b. b \<noteq> []) bodies"
proof -
  let ?reqs = "[(\<lambda>_. example_observer, \<lambda>_. example_services, ''/metrics''), (\<lambda>_. example_observer, \<lambda>_. example_services, ''/'')] :: request list"
  have "Duration 0 0 \<le> Duration 5 0" by (simp add: less_eq_duration_def)
  then have r: "allowed_run (\<lambda>now lt req. collection_observes 2 7 now lt (fst req)) (Duration 0 0) ?reqs (Duration 5 0)"
    using example_observer_observes by auto
  have len: "length ?reqs = 2" by simp
  obtain topo cores where g: "generate_topology example_regexes_powercap (Some [''intel_rapl'']) None (\<lambda>_. example_tree)
      (PowercapRAPLSensor_new None 1 1 False) = Inr topo" "generate_cpu_cores example_tree = Inr cores"
    "\<forall>c \<in> set cores. unat (core_id c) < 2" using example_tree_generates by blast
  have "\<exists>context bodies.
    fold_res (serve example_settings) ?reqs
      (PrometheusExporter_run example_observer example_services topo ''host'' False False, []) = Inr (context, bodies) \<and>
    length bodies = length ?reqs \<and> list_all (\<lambda>b. b \<noteq> []) bodies \<and> serving example_settings 2 7 (Duration 5 0) context"
  proof (rule sensor_to_responses [OF _ _ _ _ g _ _ r])
    show "hm_get (sys_processes (e_system_new_all example_observer)) 7 = Some example_sysinfo_process"
      by (simp add: example_observer_def)
  qed (simp_all add: example_settings_def size_ok_def example_sysinfo_process_def)
  then show ?thesis unfolding len using g(1) by blast
qed

lemma generated_ready:
  assumes "size_ok (st_rsz st)" "size_ok (st_mrsz st)" "size_ok (st_ssz st)" "3 \<le> length (split_char CHR ''.'' (st_version st))"
    and "generate_topology re modules ebpf w sn = Inr topo" "generate_cpu_cores (w [2]) = Inr cores"
    and "\<forall>c \<in> set cores. unat (core_id c) < n"
    and "sys = e_refresh_system (w [0]) (e_system_new_all (w [0]))" "hm_get (sys_processes sys) me = Some p" "sp_exe p \<noteq> None"
  shows "ready st n me (Duration 0 0) (MetricGenerator_new cs topo hostname qemu containers) \<and> timed n topo \<and>
    pt_sysinfo (topo_proc_tracker topo) = sys \<and> list_all (\<lambda>s. sock_activation_idle_buffer s = []) (topo_sockets topo) \<and>
    mg_topology (MetricGenerator_new cs topo hostname qemu containers) = topo"
proof -
  have t: "topology_wf (st_rsz st) (st_mrsz st) (st_ssz st) n (Duration 0 0) topo" by (rule generate_topology_wf [OF assms(5-7)])
  have u: "untouched (w [0]) ebpf topo" "fresh topo" by (rule generate_topology_untouched generate_topology_fresh, rule assms(5))+
  have sys: "pt_sysinfo (topo_proc_tracker topo) = sys"
    using u(1) assms(8) by (simp add: untouched_def Topology_new_def ProcessTracker_new_def Let_def)
  show ?thesis using assms(1-4,9,10) t u sys
    by (simp add: MetricGenerator_new_def pods_checked_def ready_def knows_itself_def timed_def fresh_def untouched_def)
qed

lemma generated_readable:
  assumes "size_ok (st_rsz st)" "size_ok (st_mrsz st)" "size_ok (st_ssz st)" "3 \<le> length (split_char CHR ''.'' (st_version st))"
    and "generate_topology re modules ebpf w sn = Inr topo" "generate_cpu_cores (w [2]) = Inr cores"
    and "\<forall>c \<in> set cores. unat (core_id c) < n"
    and "sys = e_refresh_system (w [0]) (e_system_new_all (w [0]))" "hm_get (sys_processes sys) me = Some p" "sp_exe p \<noteq> None"
    and "disks_named sys"
  shows "readable st n me (Duration 0 0) (MetricGenerator_new cs topo hostname qemu containers)"
  using generated_ready [OF assms(1-10), of cs hostname qemu containers] assms(11)
  by (auto simp: readable_def idle_printed_def list_all_iff)

text \<open>
  C11. The JSON exporter that the sensor feeds ends when its time is up: whatever topology the sensor
  generates, with eBPF or without, an exporter started on it with a timeout returns from its loop
  without a panic, after no more turns than the timeout has steps, as long as each turn observes what
  a refresh needs, the per-CPU map has a value for every CPU and all disks have readable names.
\<close>

theorem sensor_to_reports:
  assumes "size_ok (st_rsz st)" "size_ok (st_mrsz st)" "size_ok (st_ssz st)" "3 \<le> length (split_char CHR ''.'' (st_version st))"
    and "generate_topology re modules ebpf w sn = Inr topo" "generate_cpu_cores (w [2]) = Inr cores"
    and "\<forall>c \<in> set cores. unat (core_id c) < n"
    and "sys = e_refresh_system (w [0]) (e_system_new_all (w [0]))" "hm_get (sys_processes sys) me = Some p" "sp_exe p \<noteq> None"
    and "disks_named sys" "writes to_writer"
    and "JsonExporter_new cs (Some topo) hostname can_create args = Inr je" "je_time_limit je = Some l"
    and "allowed_run (\<lambda>now lt obs. report_observes n me now lt (fst obs)) (Duration 0 0) (map snd obs) lt"
    and "paced (nanos (je_time_step je)) (map fst obs)" "obs \<noteq> []"
    and "nanos l < nanos (fst (hd obs)) + (length obs - 1) * nanos (je_time_step je)"
  shows "\<exists>je'. JsonExporter_run st to_writer obs je = Inr (je', True)"
proof -
  have "reporting st n me (Duration 0 0) je"
    using generated_readable [OF assms(1-11)] assms(13) by (auto simp: reporting_def JsonExporter_new_def bind_res_eq_Inr)
  then show ?thesis
    using json.run_until_ends [of st n me "Duration 0 0" je to_writer obs lt "nanos (je_time_step je)" l] assms(12,14-18)
    by (auto simp: JsonExporter_run_def)
qed

definition example_json_args :: json_ExporterArgs where
  "example_json_args = \<lparr>ja_timeout = Some 3, ja_step = 2, ja_step_nano = 0, ja_max_top_consumers = 10, ja_file = None,
     ja_containers = False, ja_process_regex = None, ja_container_regex = None, ja_resources = True\<rparr>"

lemma example_observer_reports:
  "now \<le> Duration 5 0 \<Longrightarrow> report_observes 2 7 now (Duration 5 0) (\<lambda>_. example_observer)"
  by (simp add: report_observes_def turn_observes_def observes_def times_observed_def sub_world_def example_observer_def example_env_def
      env0_def example_sysinfo_process_def stats_cover_def before_2038_def is_i32_def disks_named_def)

lemma sensor_to_reports_witness:
  "\<exists>topo je je'.
    generate_topology example_regexes_powercap (Some [''intel_rapl'']) None (\<lambda>_. example_tree)
      (PowercapRAPLSensor_new None 1 1 False) = Inr topo \<and>
    JsonExporter_new example_services (Some topo) ''host'' (\<lambda>_. True) example_json_args = Inr je \<and>
    JsonExporter_run example_settings (\<lambda>_. Some ''{}'')
      [(Duration 0 0, \<lambda>_. example_observer, \<lambda>_. example_services), (Duration 2 0, \<lambda>_. example_observer, \<lambda>_. example_services),
       (Duration 4 0, \<lambda>_. example_observer, \<lambda>_. example_services)] je = Inr (je', True)"
proof -
  let ?obs = "[(Duration 0 0, \<lambda>_. example_observer, \<lambda>_. example_services), (Duration 2 0, \<lambda>_. example_observer, \<lambda>_. example_services),
       (Duration 4 0, \<lambda>_. example_observer, \<lambda>_. example_services)] :: (duration \<times> world \<times> (nat \<Rightarrow> container_services)) list"
  obtain topo cores where g: "generate_topology example_regexes_powercap (Some [''intel_rapl'']) None (\<lambda>_. example_tree)
      (PowercapRAPLSensor_new None 1 1 False) = Inr topo" "generate_cpu_cores example_tree = Inr cores"
    "\<forall>c \<in> set cores. unat (core_id c) < 2" using example_tree_generates by blast
  obtain je where je: "JsonExporter_new example_services (Some topo) ''host'' (\<lambda>_. True) example_json_args = Inr je"
    "je_time_limit je = Some (Duration 3 0)" "je_time_step je = Duration 2 0"
    by (simp add: JsonExporter_new_def example_json_args_def Duration_new_def)
  have "Duration 0 0 \<le> Duration 5 0" by (simp add: less_eq_duration_def)
  then have r: "allowed_run (\<lambda>now lt obs. report_observes 2 7 now lt (fst obs)) (Duration 0 0) (map snd ?obs) (Duration 5 0)"
    using example_observer_reports by auto
  have "paced (nanos (je_time_step je)) (map fst ?obs)"
    "nanos (Duration 3 0) < nanos (fst (hd ?obs)) + (length ?obs - 1) * nanos (je_time_step je)"
    unfolding je(3) by (simp_all add: nanos_def proper_duration_def)
  note ends = sensor_to_reports [OF _ _ _ _ g refl _ _ _ _ je(1,2) r this(1) _ this(2)]
  have "\<exists>je'. JsonExporter_run example_settings (\<lambda>_. Some ''{}'') ?obs je = Inr (je', True)"
  proof (rule ends)
    show "hm_get (sys_processes (e_refresh_system example_tree (e_system_new_all example_tree))) 7 = Some example_sysinfo_process"
      by (simp add: example_tree_def env0_def)
  qed (simp_all add: example_settings_def size_ok_def example_sysinfo_process_def writes_def disks_named_def example_tree_def env0_def)
  then show ?thesis using g(1) je(1) by blast
qed







text \<open>
  C35. The Warp10 exporter that the sensor feeds posts the metrics of every turn, for ever. In any
  sequence of turns that observe what a refresh needs there is one post per turn, of exactly the metrics
  collected in that turn after the host was refreshed, none left from before: the last one first, each
  with the time at which it was taken, its name, its labels and its value without backticks. There is
  at least one, and a server that refuses some or all of the posts does not stop the exporter nor change
  what it posts next.
\<close>

theorem sensor_to_warp10:
  assumes "size_ok (st_rsz st)" "size_ok (st_mrsz st)" "size_ok (st_ssz st)" "3 \<le> length (split_char CHR ''.'' (st_version st))"
    and "generate_topology re modules ebpf w sn = Inr topo" "generate_cpu_cores (w [2]) = Inr cores"
    and "\<forall>c \<in> set cores. unat (core_id c) < n"
    and "sys = e_refresh_system (w [0]) (e_system_new_all (w [0]))" "hm_get (sys_processes sys) me = Some p" "sp_exe p \<noteq> None"
    and "Warp10Exporter_new cs (Some topo) hostname client_new env_var args = Inr we"
    and "allowed_run (\<lambda>now lt obs. turn_observes n me now lt (fst (snd obs)) \<and> times_observed n (sub_world 1 (fst (snd obs))))
      (Duration 0 0) obs lt"
  shows "\<exists>we' posts. fold_res (Warp10Exporter_turn st) obs (we, []) = Inr (we', posts) \<and> length posts = length obs \<and>
    posts_of st (we_metric_generator we) obs posts \<and>
    list_all2 (\<lambda>(post_sync, _) (data, ok). data \<noteq> [] \<and> ok = post_sync data) obs posts"
proof -
  have "ready st n me (Duration 0 0) (we_metric_generator we) \<and> timed n (mg_topology (we_metric_generator we))"
    using generated_ready [OF assms(1-10)] assms(11) by (auto simp: Warp10Exporter_new_def bind_res_eq_Inr Let_def)
  then have "posting st n me (Duration 0 0) (we, [])" by (simp add: posting_def)
  note start = this
  obtain we' posts where r: "fold_res (Warp10Exporter_turn st) obs (we, []) = Inr (we', posts)"
    using warp10.run_ok [OF start assms(12)] by auto
  then have p: "posts_of st (we_metric_generator we) obs posts" using turns_post [OF start assms(12) r] by simp
  then show ?thesis using r posts_of_length [OF p] posts_of_answers [OF p] by (auto simp: case_prod_unfold)
qed

definition example_warp10_args :: warp10_ExporterArgs where
  "example_warp10_args = \<lparr>wa_host = ''localhost'', wa_port = 8080, wa_scheme = ''http'', wa_write_token = Some ''t'', wa_step = 2,
     wa_qemu = False\<rparr>"

lemma sensor_to_warp10_witness:
  "\<exists>topo we we' posts.
    generate_topology example_regexes_powercap (Some [''intel_rapl'']) None (\<lambda>_. example_tree)
      (PowercapRAPLSensor_new None 1 1 False) = Inr topo \<and>
    Warp10Exporter_new example_services (Some topo) ''host'' (\<lambda>_. True) (\<lambda>_. None) example_warp10_args = Inr we \<and>
    fold_res (Warp10Exporter_turn example_settings) (replicate 2 (\<lambda>_. False, \<lambda>_. example_observer, \<lambda>_. example_services)) (we, []) =
      Inr (we', posts) \<and> length posts = 2 \<and> list_all (\<lambda>(data, ok). data \<noteq> [] \<and> \<not> ok) posts \<and>
    posts_of example_settings (we_metric_generator we) (replicate 2 (\<lambda>_. False, \<lambda>_. example_observer, \<lambda>_. example_services)) posts"
proof -
  let ?obs = "replicate 2 (\<lambda>_. False, \<lambda>_. example_observer, \<lambda>_. example_services) ::
    ((warp10_Data list \<Rightarrow> bool) \<times> world \<times> (nat \<Rightarrow> container_services)) list"
  obtain topo cores where g: "generate_topology example_regexes_powercap (Some [''intel_rapl'']) None (\<lambda>_. example_tree)
      (PowercapRAPLSensor_new None 1 1 False) = Inr topo" "generate_cpu_cores example_tree = Inr cores"
    "\<forall>c \<in> set cores. unat (core_id c) < 2" using example_tree_generates by blast
  obtain we where we: "Warp10Exporter_new example_services (Some topo) ''host'' (\<lambda>_. True) (\<lambda>_. None) example_warp10_args = Inr we"
    by (simp add: Warp10Exporter_new_def example_warp10_args_def Let_def)
  have ob: "turn_observes 2 7 now (Duration 5 0) (\<lambda>_. example_observer)" "times_observed 2 (sub_world 1 (\<lambda>_. example_observer))"
    if "now \<le> Duration 5 0" for now using example_observer_reports [OF that] by (simp_all add: report_observes_def)
  have "Duration 0 0 \<le> Duration 5 0" "Duration 5 0 \<le> Duration 5 0" by (simp_all add: less_eq_duration_def)
  then have r: "allowed_run (\<lambda>now lt obs. turn_observes 2 7 now lt (fst (snd obs)) \<and> times_observed 2 (sub_world 1 (fst (snd obs))))
      (Duration 0 0) ?obs (Duration 5 0)" using ob by (auto simp: numeral_2_eq_2)
  have "\<exists>we' posts. fold_res (Warp10Exporter_turn example_settings) ?obs (we, []) = Inr (we', posts) \<and> length posts = length ?obs \<and>
    posts_of example_settings (we_metric_generator we) ?obs posts \<and>
    list_all2 (\<lambda>(post_sync, _) (data, ok). data \<noteq> [] \<and> ok = post_sync data) ?obs posts"
  proof (rule sensor_to_warp10 [OF _ _ _ _ g refl _ _ we r])
    show "hm_get (sys_processes (e_refresh_system example_tree (e_system_new_all example_tree))) 7 = Some example_sysinfo_process"
      by (simp add: example_tree_def env0_def)
  qed (simp_all add: example_settings_def size_ok_def example_sysinfo_process_def)
  then obtain we' posts where p: "fold_res (Warp10Exporter_turn example_settings) ?obs (we, []) = Inr (we', posts)"
    "length posts = length ?obs" "posts_of example_settings (we_metric_generator we) ?obs posts"
    "list_all2 (\<lambda>(post_sync, _) (data, ok). data \<noteq> [] \<and> ok = post_sync data) ?obs posts" by blast
  have "list_all (\<lambda>(data, ok). data \<noteq> [] \<and> \<not> ok) posts"
    using p(4) by (auto simp: list_all2_conv_all_nth list_all_length case_prod_unfold)
  then show ?thesis using g(1) we p(1-3) by auto
qed

end
